theory Spec2Isabelle
  imports Complex_Main
begin

section \<open>JavaScript numbers and values\<close>

text \<open>
  A JavaScript number is a finite value, one of the two infinities, or NaN. Finite
  values are modelled as reals: arithmetic is exact, the rounding of IEEE doubles is
  not part of the model.
\<close>

datatype jsnum = Fin real | PosInf | NegInf | NaN

text \<open>The primitive values that reach the setters through messages and storage.\<close>

datatype jsval = JUndefined | JNull | JBool bool | JNum jsnum | JStr string

text \<open>
  \<open>Number(v)\<close>. The conversion of a string is the host's StringToNumber; it is a
  parameter of the model, so every result holds for any such conversion.
\<close>

type_synonym str2num = "string \<Rightarrow> jsnum"

fun Number :: "str2num \<Rightarrow> jsval \<Rightarrow> jsnum" where
  "Number S JUndefined = NaN"
| "Number S JNull = Fin 0"
| "Number S (JBool b) = Fin (if b then 1 else 0)"
| "Number S (JNum n) = n"
| "Number S (JStr s) = S s"

text \<open>\<open>Number.isFinite\<close>, \<open>Math.max\<close> and \<open>Math.min\<close> on two arguments.\<close>

fun isFinite :: "jsnum \<Rightarrow> bool" where
  "isFinite (Fin _) = True"
| "isFinite _ = False"

fun Math_max :: "jsnum \<Rightarrow> jsnum \<Rightarrow> jsnum" where
  "Math_max NaN _ = NaN"
| "Math_max _ NaN = NaN"
| "Math_max PosInf _ = PosInf"
| "Math_max _ PosInf = PosInf"
| "Math_max NegInf b = b"
| "Math_max a NegInf = a"
| "Math_max (Fin a) (Fin b) = Fin (max a b)"

fun Math_min :: "jsnum \<Rightarrow> jsnum \<Rightarrow> jsnum" where
  "Math_min NaN _ = NaN"
| "Math_min _ NaN = NaN"
| "Math_min NegInf _ = NegInf"
| "Math_min _ NegInf = NegInf"
| "Math_min PosInf b = b"
| "Math_min a PosInf = a"
| "Math_min (Fin a) (Fin b) = Fin (min a b)"

text \<open>\<open>x || d\<close> on a number \<open>x\<close>: the falsy numbers are 0 and NaN.\<close>

fun num_or :: "jsnum \<Rightarrow> jsnum \<Rightarrow> jsnum" where
  "num_or NaN d = d"
| "num_or (Fin x) d = (if x = 0 then d else Fin x)"
| "num_or x d = x"

section \<open>The gain curve (Firefox 1.1 content script)\<close>

text \<open>
  \<^verbatim>\<open>
  function mapVolumeToGain(percent) {
    const p = Math.max(0, Math.min(800, Number(percent) || 0));
    if (p === 0) return 0;
    if (p <= 600) return (p / 600) * 6;
    const extra = (p - 600) / 200;
    return 6 + extra * 2;
  }
  \<close>
  After the clamp \<open>p\<close> is always finite. The last case of the model is what the
  arithmetic of the source yields on a non-finite \<open>p\<close> (the value itself); it is
  never reached.
\<close>

definition mapVolumeToGain :: "str2num \<Rightarrow> jsval \<Rightarrow> jsnum" where
  "mapVolumeToGain S percent =
     (let p = Math_max (Fin 0) (Math_min (Fin 800) (num_or (Number S percent) (Fin 0)))
      in case p of
           Fin r \<Rightarrow>
             if r = 0 then Fin 0
             else if r \<le> 600 then Fin ((r / 600) * 6)
             else (let extra = (r - 600) / 200 in Fin (6 + extra * 2))
         | other \<Rightarrow> other)"

text \<open>
  The value of the gain curve at a finite number, read as a real. The curve does not
  depend on the string conversion when its argument is a number.
\<close>

definition gainFor :: "real \<Rightarrow> real" where
  "gainFor p = (case mapVolumeToGain (\<lambda>_. NaN) (JNum (Fin p)) of Fin g \<Rightarrow> g | _ \<Rightarrow> 0)"

text \<open>The slope of the chord of \<open>f\<close> between \<open>a\<close> and \<open>b\<close>.\<close>

definition slope :: "(real \<Rightarrow> real) \<Rightarrow> real \<Rightarrow> real \<Rightarrow> real" where
  "slope f a b = (f b - f a) / (b - a)"

section \<open>Helpers shared by the setters\<close>

text \<open>Truthiness (\<open>!!v\<close>), \<open>a ?? b\<close> and \<open>typeof v === "number"\<close>.\<close>

fun truthy :: "jsval \<Rightarrow> bool" where
  "truthy JUndefined = False"
| "truthy JNull = False"
| "truthy (JBool b) = b"
| "truthy (JNum (Fin x)) = (x \<noteq> 0)"
| "truthy (JNum NaN) = False"
| "truthy (JNum _) = True"
| "truthy (JStr s) = (s \<noteq> [])"

fun nullish :: "jsval \<Rightarrow> jsval \<Rightarrow> jsval" where
  "nullish JUndefined d = d"
| "nullish JNull d = d"
| "nullish v d = v"

fun is_number :: "jsval \<Rightarrow> bool" where
  "is_number (JNum _) = True"
| "is_number _ = False"

abbreviation num :: "real \<Rightarrow> jsval" where
  "num x \<equiv> JNum (Fin x)"

text \<open>
  \<^verbatim>\<open>
  function clamp(n, min, max) {
    const v = Number(n);
    if (!Number.isFinite(v)) return min;
    return Math.max(min, Math.min(max, v));
  }
  \<close>
  The page tap's \<open>clamp\<close> and both \<open>clampNumber\<close> of the Firefox 1.2 content script
  are this function. Every call site passes numeric literals as bounds, so the bounds
  are reals, and so is the result.
\<close>

definition clamp :: "str2num \<Rightarrow> jsval \<Rightarrow> real \<Rightarrow> real \<Rightarrow> real" where
  "clamp S n lo hi =
     (case Number S n of
        Fin v \<Rightarrow> max lo (min hi v)
      | _ \<Rightarrow> lo)"

text \<open>\<open>xs[i]\<close> on a stored vector of numbers: \<open>undefined\<close> out of range.\<close>

definition at_index :: "real list \<Rightarrow> nat \<Rightarrow> jsval" where
  "at_index xs i = (if i < length xs then num (xs ! i) else JUndefined)"

text \<open>
  \<^verbatim>\<open>
  const arr = p.eq.slice(0, 10);
  while (arr.length < 10) arr.push(0);
  \<close>
\<close>

definition slice_pad10 :: "jsval list \<Rightarrow> jsval list" where
  "slice_pad10 a = (let arr = take 10 a in arr @ replicate (10 - length arr) (num 0))"

text \<open>\<open>m === "voice" || m === "bass" ? m : "default"\<close>\<close>

definition valid_mode :: "jsval \<Rightarrow> string" where
  "valid_mode m =
     (if m = JStr ''voice'' then ''voice''
      else if m = JStr ''bass'' then ''bass''
      else ''default'')"

section \<open>The page-context WebAudio tap (inject/webaudio_tap.js)\<close>

text \<open>
  An audio context is named by a number. A node is a node of the page (with the
  context its \<open>context\<close> property gives, if any), or the input or the output of the
  master chain built for a context. The first argument of \<open>connect\<close> is the
  destination of a context, an AudioParam, or a node.
\<close>

type_synonym ctx = nat

datatype anode = PageNode nat "ctx option" | BusInput ctx | BusOutput ctx

datatype target = Destination ctx | AudioParam | Node anode

fun node_context :: "anode \<Rightarrow> ctx option" where
  "node_context (PageNode _ c) = c"
| "node_context (BusInput c) = Some c"
| "node_context (BusOutput c) = Some c"

text \<open>The bypass mark: \<open>buildChain\<close> sets it on the output of each chain and nowhere else.\<close>

fun bypass :: "anode \<Rightarrow> bool" where
  "bypass (BusOutput _) = True"
| "bypass _ = False"

text \<open>
  A chain, as far as the settings reach it: the value of its gain node, the gains of
  its ten bands, the topology of its mode segment and the \<open>connected\<close> flag. The
  wiring inside a chain (input, gain, mode segment, bands, compressor, shaper, output)
  is fixed by \<open>buildChain\<close> and is not modelled.
\<close>

record chain =
  gain_value :: real
  eq_gains :: "real list"
  mode_name :: string
  connected :: bool

text \<open>
  The state of the tap: the four settings of \<open>state\<close>, the set \<open>seenContexts\<close> in
  insertion order, the map \<open>chains\<close>, and the calls of the native \<open>connect\<close>.
\<close>

record tap =
  volumePercent :: real
  muted :: bool
  mode :: string
  eq :: "real list"
  seenContexts :: "ctx list"
  chains :: "ctx \<Rightarrow> chain option"
  native_calls :: "(anode \<times> target \<times> bool) list"

definition tap_init :: tap where
  "tap_init =
     \<lparr>volumePercent = 100, muted = False, mode = ''default'', eq = replicate 10 0,
      seenContexts = [], chains = (\<lambda>_. None), native_calls = []\<rparr>"

definition buildChain :: chain where
  "buildChain =
     \<lparr>gain_value = 1, eq_gains = replicate 10 0, mode_name = ''default'', connected = False\<rparr>"

text \<open>
  \<open>applyMode\<close> rebuilds the mode segment: the voice filters for \<open>"voice"\<close>, the low
  shelf for \<open>"bass"\<close>, a passthrough for anything else.
\<close>

definition applyMode :: "chain \<Rightarrow> string \<Rightarrow> chain" where
  "applyMode ch m =
     ch\<lparr>mode_name :=
          (if m = ''voice'' then ''voice'' else if m = ''bass'' then ''bass'' else ''default'')\<rparr>"

text \<open>
  \<^verbatim>\<open>
  function applySettings(chain) {
    const g = state.muted ? 0 : clamp(state.volumePercent, 0, 800) / 100;
    try { chain.gain.gain.setValueAtTime(g, chain.ctx.currentTime); }
    catch { chain.gain.gain.value = g; }
    for (let i = 0; i < chain.eq.length; i++) {
      const db = clamp(state.eq[i] ?? 0, -24, 24);
      try { chain.eq[i].gain.setValueAtTime(db, chain.ctx.currentTime); }
      catch { chain.eq[i].gain.value = db; }
    }
    applyMode(chain, state.mode);
  }
  \<close>
  Either branch of each \<open>try\<close> leaves the parameter at the value written.
\<close>

definition applySettings :: "str2num \<Rightarrow> tap \<Rightarrow> chain \<Rightarrow> chain" where
  "applySettings S st ch =
     (let g = (if muted st then 0 else clamp S (num (volumePercent st)) 0 800 / 100);
          ch1 = ch\<lparr>gain_value := g\<rparr>;
          ch2 = ch1\<lparr>eq_gains :=
                  map (\<lambda>i. clamp S (nullish (at_index (eq st) i) (num 0)) (- 24) 24)
                    [0..<length (eq_gains ch1)]\<rparr>
      in applyMode ch2 (mode st))"

text \<open>\<open>Set.prototype.add\<close> on a set kept in insertion order.\<close>

definition set_add :: "'a \<Rightarrow> 'a list \<Rightarrow> 'a list" where
  "set_add x xs = (if x \<in> set xs then xs else xs @ [x])"

text \<open>
  \<^verbatim>\<open>
  function getChainFor(ctx) {
    let chain = chains.get(ctx);
    if (!chain) {
      chain = buildChain(ctx);
      chains.set(ctx, chain);
      seenContexts.add(ctx);
      applySettings(chain);
    }
    return chain;
  }
  \<close>
\<close>

definition getChainFor :: "str2num \<Rightarrow> ctx \<Rightarrow> tap \<Rightarrow> chain \<times> tap" where
  "getChainFor S c st =
     (case chains st c of
        Some ch \<Rightarrow> (ch, st)
      | None \<Rightarrow>
          (let ch = applySettings S st buildChain
           in (ch, st\<lparr>chains := (chains st)(c \<mapsto> ch),
                      seenContexts := set_add c (seenContexts st)\<rparr>)))"

text \<open>
  The native \<open>connect\<close> of the host either makes the connection or throws. Which calls
  it accepts is a parameter of the model. The state records the calls of the native
  \<open>connect\<close> that the patched \<open>connect\<close> makes for a node of the page and for the
  output of a chain, in order, each with its outcome (\<open>True\<close>: the connection was
  made). The calls that wire the inside of a chain are not recorded.
\<close>

type_synonym host_connect = "anode \<Rightarrow> target \<Rightarrow> bool"

definition nativeConnect :: "host_connect \<Rightarrow> anode \<Rightarrow> target \<Rightarrow> tap \<Rightarrow> tap \<times> bool" where
  "nativeConnect H n d st = (st\<lparr>native_calls := native_calls st @ [(n, d, H n d)]\<rparr>, H n d)"

text \<open>
  \<^verbatim>\<open>
  if (!chain.connected) {
    try { nativeConnect.call(chain.output, ctx.destination); } catch {}
    chain.connected = true;
  }
  \<close>
\<close>

definition connectOutputOnce :: "host_connect \<Rightarrow> ctx \<Rightarrow> chain \<Rightarrow> tap \<Rightarrow> tap" where
  "connectOutputOnce H c ch st =
     (if \<not> connected ch then
        (let st' = fst (nativeConnect H (BusOutput c) (Destination c) st)
         in st'\<lparr>chains := (chains st')(c \<mapsto> ch\<lparr>connected := True\<rparr>)\<rparr>)
      else st)"

text \<open>
  \<^verbatim>\<open>
  NativeAudioNode.prototype.connect = function (...args) {
    try {
      const dest = args[0];
      if (isAudioParam(dest)) return nativeConnect.apply(this, args);
      const ctx = this && this.context;
      if (ctx && dest === ctx.destination && !this[BYPASS]) {
        const chain = getChainFor(ctx);
        if (chain && chain.input) {
          if (!chain.connected) { ... }
          nativeConnect.call(this, chain.input);
          return dest;
        }
      }
    } catch {}
    return nativeConnect.apply(this, args);
  };
  \<close>
  The patched \<open>connect\<close> of the page tap. A throw inside its \<open>try\<close> block, also of
  the call that routes the node into the chain's input, is caught, and the call falls
  through to the native \<open>connect\<close> with the original arguments. The boolean of the
  result tells whether the call returned (\<open>True\<close>) or threw.
\<close>

definition patchedConnect ::
  "str2num \<Rightarrow> host_connect \<Rightarrow> anode \<Rightarrow> target \<Rightarrow> tap \<Rightarrow> tap \<times> bool" where
  "patchedConnect S H this dest st =
     (if dest = AudioParam then
        (let (st1, ok) = nativeConnect H this dest st
         in if ok then (st1, True) else nativeConnect H this dest st1)
      else
        (case node_context this of
           None \<Rightarrow> nativeConnect H this dest st
         | Some c \<Rightarrow>
             if dest = Destination c \<and> \<not> bypass this then
               (let (ch, st1) = getChainFor S c st;
                    st2 = connectOutputOnce H c ch st1;
                    (st3, ok) = nativeConnect H this (Node (BusInput c)) st2
                in if ok then (st3, True) else nativeConnect H this dest st3)
             else nativeConnect H this dest st))"

text \<open>
  The patched \<open>connect\<close> of the Spotify graph tap (Firefox 1.2 content script,
  \<open>SPOTIFY_TAP.install\<close>). It tests \<open>!ctx\<close> inside the \<open>try\<close> block, and it swallows a
  failure to route the node into the chain's input:
  \<^verbatim>\<open>
      if (!ctx) return nativeConnect.apply(this, args);
      if (dest === ctx.destination && !bypass.has(this)) {
        const chain = getChain(ctx);
        if (!chain.connected) { ... }
        try { nativeConnect.call(this, chain.input); } catch {}
        return dest;
      }
  \<close>
\<close>

definition spotify_patchedConnect ::
  "str2num \<Rightarrow> host_connect \<Rightarrow> anode \<Rightarrow> target \<Rightarrow> tap \<Rightarrow> tap \<times> bool" where
  "spotify_patchedConnect S H this dest st =
     (if dest = AudioParam then
        (let (st1, ok) = nativeConnect H this dest st
         in if ok then (st1, True) else nativeConnect H this dest st1)
      else
        (case node_context this of
           None \<Rightarrow>
             (let (st1, ok) = nativeConnect H this dest st
              in if ok then (st1, True) else nativeConnect H this dest st1)
         | Some c \<Rightarrow>
             if dest = Destination c \<and> \<not> bypass this then
               (let (ch, st1) = getChainFor S c st;
                    st2 = connectOutputOnce H c ch st1;
                    (st3, ok) = nativeConnect H this (Node (BusInput c)) st2
                in (st3, True))
             else nativeConnect H this dest st))"

text \<open>
  The payload of an \<open>SS_SETTINGS\<close> message. An absent property reads as \<open>undefined\<close>;
  \<open>p_eq\<close> is \<open>None\<close> when \<open>p.eq\<close> is not an array.
\<close>

record payload =
  p_volumePercent :: jsval
  p_volume :: jsval
  p_muted :: jsval
  p_mode :: jsval
  p_eq :: "jsval list option"

text \<open>The loop over \<open>seenContexts\<close> that applies the settings to every chain.\<close>

fun applyToSeen :: "str2num \<Rightarrow> tap \<Rightarrow> ctx list \<Rightarrow> (ctx \<Rightarrow> chain option) \<Rightarrow> ctx \<Rightarrow> chain option" where
  "applyToSeen S st [] m = m"
| "applyToSeen S st (c # cs) m =
     applyToSeen S st cs
       (case m c of Some ch \<Rightarrow> m(c \<mapsto> applySettings S st ch) | None \<Rightarrow> m)"

text \<open>
  \<^verbatim>\<open>
  const p = data.payload;
  const vp = (typeof p.volumePercent === "number" ? p.volumePercent : p.volume);
  state.volumePercent = clamp(vp ?? state.volumePercent, 0, 800);
  state.muted = !!p.muted;
  state.mode = p.mode === "voice" || p.mode === "bass" ? p.mode : "default";
  if (Array.isArray(p.eq)) {
    const arr = p.eq.slice(0, 10);
    while (arr.length < 10) arr.push(0);
    state.eq = arr.map(v => clamp(v, -24, 24));
  }
  for (const ctx of Array.from(seenContexts)) {
    const chain = chains.get(ctx);
    if (chain) applySettings(chain);
  }
  \<close>
  \<open>SPOTIFY_TAP.apply\<close> of the Firefox 1.2 content script is the same code. The
  messages the handler posts back are not modelled.
\<close>

definition storeSettings :: "str2num \<Rightarrow> payload \<Rightarrow> tap \<Rightarrow> tap" where
  "storeSettings S p st =
     (let vp = (if is_number (p_volumePercent p) then p_volumePercent p else p_volume p)
      in st\<lparr>volumePercent := clamp S (nullish vp (num (volumePercent st))) 0 800,
             muted := truthy (p_muted p),
             mode := valid_mode (p_mode p),
             eq := (case p_eq p of
                      Some a \<Rightarrow> map (\<lambda>v. clamp S v (- 24) 24) (slice_pad10 a)
                    | None \<Rightarrow> eq st)\<rparr>)"

definition onSettings :: "str2num \<Rightarrow> payload \<Rightarrow> tap \<Rightarrow> tap" where
  "onSettings S p st =
     (let st1 = storeSettings S p st
      in st1\<lparr>chains := applyToSeen S st1 (seenContexts st1) (chains st1)\<rparr>)"

text \<open>
  What happens to the tap: the page calls \<open>connect\<close> on one of its nodes, or a
  message arrives. The page holds no reference to a node of a chain, so the argument of
  its call is a destination, an AudioParam or one of its own nodes.
\<close>

datatype page_target = ToDestination ctx | ToParam | ToNode nat "ctx option"

fun target_of :: "page_target \<Rightarrow> target" where
  "target_of (ToDestination c) = Destination c"
| "target_of ToParam = AudioParam"
| "target_of (ToNode n c) = Node (PageNode n c)"

datatype tap_event = Connect nat "ctx option" page_target | Settings payload | Ping

fun tap_step :: "str2num \<Rightarrow> host_connect \<Rightarrow> tap \<Rightarrow> tap_event \<Rightarrow> tap" where
  "tap_step S H st (Connect n c dest) =
     fst (patchedConnect S H (PageNode n c) (target_of dest) st)"
| "tap_step S H st (Settings p) = onSettings S p st"
| "tap_step S H st Ping = st"

fun spotify_tap_step :: "str2num \<Rightarrow> host_connect \<Rightarrow> tap \<Rightarrow> tap_event \<Rightarrow> tap" where
  "spotify_tap_step S H st (Connect n c dest) =
     fst (spotify_patchedConnect S H (PageNode n c) (target_of dest) st)"
| "spotify_tap_step S H st (Settings p) = onSettings S p st"
| "spotify_tap_step S H st Ping = st"

definition tap_run :: "str2num \<Rightarrow> host_connect \<Rightarrow> tap_event list \<Rightarrow> tap \<Rightarrow> tap" where
  "tap_run S H evs st = foldl (tap_step S H) st evs"

definition spotify_tap_run :: "str2num \<Rightarrow> host_connect \<Rightarrow> tap_event list \<Rightarrow> tap \<Rightarrow> tap" where
  "spotify_tap_run S H evs st = foldl (spotify_tap_step S H) st evs"

text \<open>
  The number of calls of the native \<open>connect\<close> from the output of the chain of a
  context to the destination of that context.
\<close>

definition output_calls :: "ctx \<Rightarrow> (anode \<times> target \<times> bool) list \<Rightarrow> nat" where
  "output_calls c calls =
     length (filter (\<lambda>(n, d, ok). n = BusOutput c \<and> d = Destination c) calls)"

text \<open>
  Reading the calls in order, the call that connects the output of the chain of \<open>c\<close>
  comes before every call that routes a node into the input of that chain.
\<close>

fun output_first :: "ctx \<Rightarrow> (anode \<times> target \<times> bool) list \<Rightarrow> bool" where
  "output_first c [] = True"
| "output_first c ((n, d, ok) # xs) =
     (if n = BusOutput c \<and> d = Destination c then True
      else d \<noteq> Node (BusInput c) \<and> output_first c xs)"

text \<open>The nodes routed into the input of the chain of \<open>c\<close>, in order.\<close>

definition routed_into :: "ctx \<Rightarrow> (anode \<times> target \<times> bool) list \<Rightarrow> anode list" where
  "routed_into c calls = map fst (filter (\<lambda>(n, d, ok). d = Node (BusInput c) \<and> ok) calls)"

text \<open>
  The invariant of the tap for a context \<open>c\<close>. Before the chain of \<open>c\<close> exists no call
  of the native \<open>connect\<close> concerns it. Once it exists, \<open>c\<close> is a seen context, the
  flag is set, the output was connected by exactly one call, and that call came first.
\<close>

definition bus_inv :: "tap \<Rightarrow> ctx \<Rightarrow> bool" where
  "bus_inv st c =
     (case chains st c of
        None \<Rightarrow>
          c \<notin> set (seenContexts st) \<and>
          list_all (\<lambda>(n, d, ok). d \<noteq> Node (BusInput c) \<and> n \<noteq> BusOutput c) (native_calls st)
      | Some ch \<Rightarrow>
          c \<in> set (seenContexts st) \<and> connected ch \<and>
          output_calls c (native_calls st) = 1 \<and> output_first c (native_calls st))"

text \<open>
  Two messages and a state used as examples: \<open>{volumePercent: 400, muted: true}\<close>,
  \<open>{muted: false}\<close>, and the tap after one node of context 0 was connected to the
  destination, on a host that accepts every connection.
\<close>

definition msg_mute_400 :: payload where
  "msg_mute_400 =
     \<lparr>p_volumePercent = num 400, p_volume = JUndefined, p_muted = JBool True,
      p_mode = JUndefined, p_eq = None\<rparr>"

definition msg_unmute :: payload where
  "msg_unmute =
     \<lparr>p_volumePercent = JUndefined, p_volume = JUndefined, p_muted = JBool False,
      p_mode = JUndefined, p_eq = None\<rparr>"

definition tap_one_source :: tap where
  "tap_one_source =
     tap_step (\<lambda>_. NaN) (\<lambda>_ _. True) tap_init (Connect 1 (Some 0) (ToDestination 0))"

text \<open>
  The stored vector of a tap has ten entries, and so has the vector of band gains of
  each of its chains.
\<close>

definition eq_inv :: "tap \<Rightarrow> bool" where
  "eq_inv st =
     (length (eq st) = 10 \<and>
      (\<forall>c. case chains st c of None \<Rightarrow> True | Some ch \<Rightarrow> length (eq_gains ch) = 10))"

section \<open>The content script of Firefox 1.2: media elements and their sources\<close>

text \<open>
  A media element is named by a number. What the script can observe of an element at
  the moment it handles it is collected in a record: whether it is an \<open>audio\<close> or
  \<open>video\<close> element, whether \<open>mediaKeys\<close> and \<open>crossOrigin\<close> are set, whether
  \<open>createMediaElementSource\<close> succeeds on it, what its two capture functions do,
  whether \<open>createMediaStreamSource\<close> succeeds on the captured stream, and whether the
  source node can be connected. These outcomes are decided by the host.
\<close>

type_synonym el = nat

datatype capture_fn = Absent | Throws | ReturnsNull | ReturnsStream

record elem =
  el_id :: el
  is_media :: bool
  has_mediaKeys :: bool
  has_crossOrigin :: bool
  direct_ok :: bool
  captureStream :: capture_fn
  mozCaptureStream :: capture_fn
  stream_source_ok :: bool
  connect_ok :: bool

datatype source = MediaElementSource el | MediaStreamSource el

fun source_el :: "source \<Rightarrow> el" where
  "source_el (MediaElementSource e) = e"
| "source_el (MediaStreamSource e) = e"

text \<open>
  The capture-based strategy of \<open>MediaHook._makeSource\<close>:
  \<^verbatim>\<open>
    try {
      const s =
        typeof el.captureStream === "function" ? el.captureStream()
          : typeof el.mozCaptureStream === "function" ? el.mozCaptureStream()
          : null;
      if (s) return ctx.createMediaStreamSource(s);
    } catch {}
  \<close>
  \<open>capture_source\<close> is the node that this block returns, if it returns one. The block
  of the Chrome content script, shown below, tests the two functions for truthiness
  instead and is the same otherwise.
\<close>

definition capture_source :: "elem \<Rightarrow> source option" where
  "capture_source e =
     (let s = (if captureStream e \<noteq> Absent then captureStream e
               else if mozCaptureStream e \<noteq> Absent then mozCaptureStream e
               else ReturnsNull)
      in if s = ReturnsStream \<and> stream_source_ok e then Some (MediaStreamSource (el_id e))
         else None)"

text \<open>
  An audio context keeps the source nodes that were created in it. The two strategies
  are steps on the list of these nodes, in order of creation. The direct tap is
  \<open>ctx.createMediaElementSource(el)\<close> in a \<open>try\<close> block: it returns a node of the
  context or throws. The capture-based tap is the block above: the only thing it can
  leave in the context is the node of \<open>createMediaStreamSource\<close>. The stream object of
  a capture is local to the block.
\<close>

definition direct_tap :: "elem \<Rightarrow> source list \<Rightarrow> source option \<times> source list" where
  "direct_tap e ns =
     (if direct_ok e
      then (Some (MediaElementSource (el_id e)), ns @ [MediaElementSource (el_id e)])
      else (None, ns))"

definition capture_tap :: "elem \<Rightarrow> source list \<Rightarrow> source option \<times> source list" where
  "capture_tap e ns =
     (case capture_source e of
        Some node \<Rightarrow> (Some node, ns @ [node])
      | None \<Rightarrow> (None, ns))"

text \<open>
  \<^verbatim>\<open>
  _makeSource(el) {
    const ctx = this.bus.ctx;
    if (!ctx) return null;
    try { return ctx.createMediaElementSource(el); } catch {}
    try { ... captureStream / mozCaptureStream ... } catch {}
    return null;
  }
  \<close>
  The first argument says whether the bus has a context; the list is the source nodes
  of that context.
\<close>

definition MediaHook_makeSource ::
  "bool \<Rightarrow> elem \<Rightarrow> source list \<Rightarrow> source option \<times> source list" where
  "MediaHook_makeSource has_ctx e ns =
     (if \<not> has_ctx then (None, ns)
      else
        (case direct_tap e ns of
           (Some node, ns1) \<Rightarrow> (Some node, ns1)
         | (None, ns1) \<Rightarrow> capture_tap e ns1))"

text \<open>
  The Chrome content script (YouTube chains) has its own function:
  \<^verbatim>\<open>
  function makeSourceForElement(el, ctx) {
    try {
      const capture = el.captureStream
        ? el.captureStream()
        : (el.mozCaptureStream ? el.mozCaptureStream() : null);
      if (capture) return ctx.createMediaStreamSource(capture);
    } catch (e) {}
    try { return ctx.createMediaElementSource(el); } catch (e) { return null; }
  }
  \<close>
\<close>

definition makeSourceForElement :: "elem \<Rightarrow> source list \<Rightarrow> source option \<times> source list" where
  "makeSourceForElement e ns =
     (case capture_tap e ns of
        (Some node, ns1) \<Rightarrow> (Some node, ns1)
      | (None, ns1) \<Rightarrow> direct_tap e ns1)"

section \<open>The content script of Firefox 1.2: state\<close>

text \<open>
  The constants of a page: its host name, whether the host has an audio context
  constructor, whether the script runs in the top frame, the string conversion of the
  host, and what \<open>SPOTIFY_TAP.install\<close> finds when it looks for the bridge to the page.
\<close>

datatype bridge = NoWrappedJSObject | NoExportFunction | NoConnect | ExportThrows string | BridgeOk

record config =
  hostname :: string
  has_AudioContext :: bool
  top_frame :: bool
  to_num :: str2num
  page_bridge :: bridge
  host_connects :: host_connect

definition IS_SPOTIFY :: "config \<Rightarrow> bool" where
  "IS_SPOTIFY cfg = (hostname cfg = ''open.spotify.com'')"

text \<open>
  What a handler reads from its surroundings when it runs: the time, the media elements
  of the document (as \<open>querySelectorAll("audio,video")\<close> lists them) and the state of the
  audio context.
\<close>

record world =
  now :: nat
  doc :: "elem list"
  ctx_state :: string

text \<open>
  \<open>DRM_GUARD\<close>: its \<open>state\<close>, the set \<open>watched\<close>, the elements that carry its one-shot
  \<open>encrypted\<close> listener, the interval timer of the periodic scan and the pending
  timeout of the first scan.
\<close>

record drm_state =
  inUse :: bool
  encryptedEvent :: bool
  mediaKeys :: bool
  lastChangedAt :: nat
  watched :: "el set"
  encrypted_listeners :: "el set"
  scan_ticks :: nat
  scan_timer :: bool
  scan_timeout :: bool

datatype drm_kind = Encrypted | MediaKeys | OtherKind

text \<open>
  \<^verbatim>\<open>
  function mark(kind) {
    if (kind === "encrypted") state.encryptedEvent = true;
    if (kind === "mediaKeys") state.mediaKeys = true;
    if (!state.inUse) state.inUse = true;
    state.lastChangedAt = Date.now();
  }
  \<close>
\<close>

definition mark :: "nat \<Rightarrow> drm_kind \<Rightarrow> drm_state \<Rightarrow> drm_state" where
  "mark t kind g =
     g\<lparr>encryptedEvent := (if kind = Encrypted then True else encryptedEvent g),
       mediaKeys := (if kind = MediaKeys then True else mediaKeys g),
       inUse := True,
       lastChangedAt := t\<rparr>"

definition inspectElement :: "nat \<Rightarrow> elem \<Rightarrow> drm_state \<Rightarrow> drm_state" where
  "inspectElement t e g = (if has_mediaKeys e then mark t MediaKeys g else g)"

text \<open>
  \<^verbatim>\<open>
  function watchElement(el) {
    if (!el || watched.has(el)) return;
    watched.add(el);
    inspectElement(el);
    try {
      el.addEventListener("encrypted", () => mark("encrypted"), { once: true, passive: true });
    } catch {}
  }
  \<close>
\<close>

definition watchElement :: "nat \<Rightarrow> elem \<Rightarrow> drm_state \<Rightarrow> drm_state" where
  "watchElement t e g =
     (if el_id e \<in> watched g then g
      else
        (let g1 = g\<lparr>watched := insert (el_id e) (watched g)\<rparr>;
             g2 = inspectElement t e g1
         in g2\<lparr>encrypted_listeners := insert (el_id e) (encrypted_listeners g2)\<rparr>))"

definition drm_scan :: "world \<Rightarrow> drm_state \<Rightarrow> drm_state" where
  "drm_scan w g = foldl (\<lambda>g e. watchElement (now w) e g) g (doc w)"

text \<open>
  One tick of the interval that \<open>DRM_GUARD\<close> starts on Spotify:
  \<^verbatim>\<open>
    const t = setInterval(() => {
      scan();
      ticks++;
      if (state.inUse || ticks >= 40) clearInterval(t);
    }, 2500);
  \<close>
\<close>

definition drm_tick :: "world \<Rightarrow> drm_state \<Rightarrow> drm_state" where
  "drm_tick w g =
     (if \<not> scan_timer g then g
      else
        (let g1 = drm_scan w g;
             g2 = g1\<lparr>scan_ticks := scan_ticks g1 + 1\<rparr>
         in if inUse g2 \<or> scan_ticks g2 \<ge> 40 then g2\<lparr>scan_timer := False\<rparr> else g2))"

text \<open>
  \<open>AudioBus\<close>: whether the graph is wired, the value of the main gain, the gains of the
  ten bands, the topology of the mode stage, the source nodes created in the context of
  the bus, and the source nodes connected into the bus input, both in order. The wiring
  inside the bus is fixed by \<open>ensure\<close>.
\<close>

record bus_state =
  wired :: bool
  bus_gain :: real
  bus_eq :: "real list"
  bus_mode :: string
  bus_sources :: "source list"
  bus_inputs :: "source list"

text \<open>
  \<^verbatim>\<open>
  ensure() {
    if (this._wired) return true;
    const AC = window.AudioContext || window.webkitAudioContext;
    if (!AC) return false;
    this.ctx = new AC();
    ... create and wire the nodes, ten bands at 0 dB ...
    this._wired = true;
    return true;
  }
  \<close>
\<close>

definition ensure :: "config \<Rightarrow> bus_state \<Rightarrow> bool \<times> bus_state" where
  "ensure cfg b =
     (if wired b then (True, b)
      else if \<not> has_AudioContext cfg then (False, b)
      else (True, b\<lparr>wired := True, bus_gain := 1, bus_eq := replicate 10 0,
                      bus_mode := ''default''\<rparr>))"

text \<open>
  \<^verbatim>\<open>
  setGainLinear(value) {
    if (!this._wired || !this.ctx || !this.gain) return;
    const g = clampNumber(value, 0, 8);
    ... this.gain.gain := g ...
  }
  setEqDb(dbArray) {
    if (!this._wired || !this.ctx) return;
    const arr = Array.isArray(dbArray) ? dbArray : [];
    for (let i = 0; i < this.eq.length; i++) {
      const db = Number(arr[i]) || 0;
      ... this.eq[i].gain := clampNumber(db, -24, 24) ...
    }
  }
  \<close>
  \<open>setEqDb\<close> is only called with the stored vector of the controller.
\<close>

definition setGainLinear :: "str2num \<Rightarrow> real \<Rightarrow> bus_state \<Rightarrow> bus_state" where
  "setGainLinear S v b = (if \<not> wired b then b else b\<lparr>bus_gain := clamp S (num v) 0 8\<rparr>)"

definition bus_setEqDb :: "str2num \<Rightarrow> real list \<Rightarrow> bus_state \<Rightarrow> bus_state" where
  "bus_setEqDb S arr b =
     (if \<not> wired b then b
      else b\<lparr>bus_eq :=
             map (\<lambda>i. clamp S (JNum (num_or (Number S (at_index arr i)) (Fin 0))) (- 24) 24)
               [0..<length (bus_eq b)]\<rparr>)"

definition bus_setMode :: "string \<Rightarrow> bus_state \<Rightarrow> bus_state" where
  "bus_setMode m b =
     (if \<not> wired b then b
      else b\<lparr>bus_mode :=
             (if m = ''voice'' then ''voice'' else if m = ''bass'' then ''bass''
              else ''default'')\<rparr>)"

text \<open>
  \<open>MediaHook\<close>: the map \<open>sources\<close>, the counter \<open>hookedCount\<close>, the set \<open>_pendingRetry\<close>,
  and the one-shot retry listeners it has registered on elements.
\<close>

datatype lifecycle = Playing | LoadedMetadata

record hook_state =
  sources :: "el \<Rightarrow> source option"
  hookedCount :: nat
  pendingRetry :: "el set"
  retry_listeners :: "(el \<times> lifecycle) list"

text \<open>\<open>SoundSpherePageController\<close>.\<close>

record ctl_state =
  spotifyExperimental :: bool
  c_volumePercent :: real
  c_muted :: bool
  c_mode :: string
  eqDb :: "real list"
  observer :: bool
  started :: bool

text \<open>
  What the script does to the page and to the extension, in order: writes to
  properties of elements, the simulated use of the volume control of Spotify and of
  SoundCloud, messages to the page tap, writes to the storage.
\<close>

datatype stored_value =
  StoredVolume real | StoredMuted bool | StoredMode string | StoredEq "real list"

datatype effect =
    SetMuted el bool
  | SetVolume el real
  | SetCrossOrigin el
  | SpotifyUi real bool
  | SoundCloudUi real bool
  | InjectTap
  | PostPing
  | PostSettings payload
  | StorageSet stored_value

text \<open>The whole state of the content script.\<close>

record page_state =
  guard :: drm_state
  spotifyExperimentalEnabled :: bool
  tap_ready :: bool
  tap_lastSeenAt :: nat
  sp_tap :: tap
  sp_installed :: bool
  sp_patched :: bool
  sp_lastError :: string
  bus :: bus_state
  hook :: hook_state
  ctl :: ctl_state
  effects :: "effect list"

text \<open>
  The state once the script has run to its end: \<open>DRM_GUARD\<close> has started its timer on
  Spotify, and elsewhere the page tap was injected and pinged.
\<close>

definition page_init :: "config \<Rightarrow> page_state" where
  "page_init cfg =
     \<lparr>guard = \<lparr>inUse = False, encryptedEvent = False, mediaKeys = False, lastChangedAt = 0,
               watched = {}, encrypted_listeners = {}, scan_ticks = 0,
               scan_timer = IS_SPOTIFY cfg, scan_timeout = IS_SPOTIFY cfg\<rparr>,
      spotifyExperimentalEnabled = False,
      tap_ready = False,
      tap_lastSeenAt = 0,
      sp_tap = tap_init,
      sp_installed = False,
      sp_patched = False,
      sp_lastError = [],
      bus = \<lparr>wired = False, bus_gain = 1, bus_eq = [], bus_mode = ''default'',
             bus_sources = [], bus_inputs = []\<rparr>,
      hook = \<lparr>sources = (\<lambda>_. None), hookedCount = 0, pendingRetry = {}, retry_listeners = []\<rparr>,
      ctl = \<lparr>spotifyExperimental = False, c_volumePercent = 100, c_muted = False,
             c_mode = ''default'', eqDb = replicate 10 0, observer = False, started = False\<rparr>,
      effects = (if IS_SPOTIFY cfg then [] else [InjectTap, PostPing])\<rparr>"

section \<open>The content script of Firefox 1.2: operations\<close>

text \<open>
  \<^verbatim>\<open>
  async hook(el) {
    if (!isMediaElement(el)) return false;
    if (IS_SPOTIFY) DRM_GUARD.watchElement(el);
    if (!this.bus.ensure()) return false;
    if (this.sources.has(el)) return true;
    if (!IS_SPOTIFY) { try { if (!el.crossOrigin) el.crossOrigin = "anonymous"; } catch {} }
    const node = this._makeSource(el);
    if (!node) {
      try {
        if (!this._pendingRetry.has(el)) {
          this._pendingRetry.add(el);
          const retry = () => { try { this._pendingRetry.delete(el); } catch {} this.hook(el); };
          el.addEventListener("playing", retry, { once: true, passive: true });
          el.addEventListener("loadedmetadata", retry, { once: true, passive: true });
        }
      } catch {}
      return false;
    }
    try {
      node.connect(this.bus.input);
      this.sources.set(el, node);
      this.hookedCount++;
      if (IS_SPOTIFY && spotifyExperimentalEnabled) {
        try { el.muted = true; } catch {}
        try { el.volume = 1; } catch {}
      }
      try { el.volume = 1; } catch {}
      return true;
    } catch { return false; }
  }
  \<close>
  The body has no \<open>await\<close>: it runs to its end when called.
\<close>

definition hook_element :: "config \<Rightarrow> nat \<Rightarrow> elem \<Rightarrow> page_state \<Rightarrow> bool \<times> page_state" where
  "hook_element cfg t e s =
     (if \<not> is_media e then (False, s)
      else
        (let s1 = (if IS_SPOTIFY cfg then s\<lparr>guard := watchElement t e (guard s)\<rparr> else s);
             (ok, b) = ensure cfg (bus s1);
             s2 = s1\<lparr>bus := b\<rparr>
         in if \<not> ok then (False, s2)
            else if sources (hook s2) (el_id e) \<noteq> None then (True, s2)
            else
              (let s3 = (if \<not> IS_SPOTIFY cfg \<and> \<not> has_crossOrigin e
                         then s2\<lparr>effects := effects s2 @ [SetCrossOrigin (el_id e)]\<rparr>
                         else s2);
                   (made, ns) = MediaHook_makeSource (wired b) e (bus_sources b);
                   s4 = s3\<lparr>bus := b\<lparr>bus_sources := ns\<rparr>\<rparr>
               in case made of
                    None \<Rightarrow>
                      (False,
                       if el_id e \<in> pendingRetry (hook s4) then s4
                       else s4\<lparr>hook := (hook s4)
                              \<lparr>pendingRetry := insert (el_id e) (pendingRetry (hook s4)),
                               retry_listeners := retry_listeners (hook s4) @
                                 [(el_id e, Playing), (el_id e, LoadedMetadata)]\<rparr>\<rparr>)
                  | Some node \<Rightarrow>
                      if \<not> connect_ok e then (False, s4)
                      else
                        (True,
                         s4\<lparr>bus := (bus s4)\<lparr>bus_inputs := bus_inputs (bus s4) @ [node]\<rparr>,
                            hook := (hook s4)
                              \<lparr>sources := (sources (hook s4))(el_id e \<mapsto> node),
                               hookedCount := hookedCount (hook s4) + 1\<rparr>,
                            effects := effects s4 @
                              (if IS_SPOTIFY cfg \<and> spotifyExperimentalEnabled s4
                               then [SetMuted (el_id e) True, SetVolume (el_id e) 1] else []) @
                              [SetVolume (el_id e) 1]\<rparr>))))"

text \<open>\<open>scan(root)\<close>: \<open>hook\<close> on every media element below the root, in order.\<close>

definition hook_scan :: "config \<Rightarrow> nat \<Rightarrow> elem list \<Rightarrow> page_state \<Rightarrow> page_state" where
  "hook_scan cfg t es s = foldl (\<lambda>s e. snd (hook_element cfg t e s)) s es"

text \<open>
  \<open>SPOTIFY_TAP.install\<close>: at most once, only on Spotify, and only when the bridge to
  the page is there; otherwise it records why not.
\<close>

definition sp_install :: "config \<Rightarrow> page_state \<Rightarrow> page_state" where
  "sp_install cfg s =
     (if sp_installed s then s
      else
        (let s1 = s\<lparr>sp_installed := True\<rparr>
         in if \<not> IS_SPOTIFY cfg then s1
            else
              (case page_bridge cfg of
                 NoWrappedJSObject \<Rightarrow> s1\<lparr>sp_lastError := ''wrappedJSObject unavailable''\<rparr>
               | NoExportFunction \<Rightarrow> s1\<lparr>sp_lastError := ''exportFunction unavailable''\<rparr>
               | NoConnect \<Rightarrow> s1\<lparr>sp_lastError := ''AudioNode.connect unavailable''\<rparr>
               | ExportThrows msg \<Rightarrow> s1\<lparr>sp_lastError := msg\<rparr>
               | BridgeOk \<Rightarrow> s1\<lparr>sp_patched := True\<rparr>)))"

text \<open>\<open>SPOTIFY_TAP.engaged()\<close>: \<open>contexts.size > 0\<close>.\<close>

definition engaged :: "page_state \<Rightarrow> bool" where
  "engaged s = (seenContexts (sp_tap s) \<noteq> [])"

text \<open>
  The two functions that drive the volume control of the page. Both do nothing outside
  the top frame. What they do to the controls of the page is recorded as one effect;
  the SoundCloud variant first writes \<open>muted\<close> and \<open>volume\<close> of every media element.
\<close>

definition applySpotifyUiVolumeMute :: "config \<Rightarrow> real \<Rightarrow> bool \<Rightarrow> page_state \<Rightarrow> page_state" where
  "applySpotifyUiVolumeMute cfg v m s =
     (if \<not> top_frame cfg then s
      else s\<lparr>effects := effects s @ [SpotifyUi (clamp (to_num cfg) (num v) 0 1) m]\<rparr>)"

definition applySoundCloudUiVolumeMute ::
  "config \<Rightarrow> world \<Rightarrow> real \<Rightarrow> bool \<Rightarrow> page_state \<Rightarrow> page_state" where
  "applySoundCloudUiVolumeMute cfg w v m s =
     (if \<not> top_frame cfg then s
      else s\<lparr>effects := effects s @
               concat (map (\<lambda>e. [SetMuted (el_id e) m,
                                   SetVolume (el_id e) (clamp (to_num cfg) (num v) 0 1)]) (doc w)) @
               [SoundCloudUi v m]\<rparr>)"

definition ends_with :: "string \<Rightarrow> string \<Rightarrow> bool" where
  "ends_with s suf = (length suf \<le> length s \<and> drop (length s - length suf) s = suf)"

text \<open>
  \<^verbatim>\<open>
  _applyAll() {
    if (IS_SPOTIFY && !this.spotifyExperimental) {
      const v = clampNumber(this.volumePercent, 0, 100) / 100;
      applySpotifyUiVolumeMute(v, !!this.muted);
      return;
    }
    const usingWebAudio = this.bus._wired && this.hook.hookedCount > 0;
    const usingGenericTap = WEB_AUDIO_TAP.ready;
    const usingSpotifyTap = IS_SPOTIFY && this.spotifyExperimental && SPOTIFY_TAP.engaged();
    const payload = { volumePercent: clampNumber(this.volumePercent, 0, 800),
                      muted: !!this.muted, mode: this.mode, eq: this.eqDb.slice() };
    if (IS_SPOTIFY && this.spotifyExperimental) {
      SPOTIFY_TAP.apply(payload);
      if (usingSpotifyTap) return;
    }
    if (usingWebAudio) {
      const gainLinear = this.muted ? 0 : clampNumber(this.volumePercent, 0, 800) / 100;
      this.bus.setGainLinear(gainLinear);
      this.bus.setEqDb(this.eqDb);
      this.bus.setMode(this.mode);
      return;
    }
    if (usingGenericTap) { postSettingsToTap(payload); return; }
    const v = clampNumber(this.volumePercent, 0, 100) / 100;
    for (const el of document.querySelectorAll("audio,video")) {
      try { el.muted = !!this.muted; el.volume = v; } catch {}
    }
    ... host === "open.spotify.com": applySpotifyUiVolumeMute(v, !!this.muted)
    ... host.endsWith("soundcloud.com"): applySoundCloudUiVolumeMute(v, !!this.muted)
  }
  \<close>
\<close>

definition applyAll :: "config \<Rightarrow> world \<Rightarrow> page_state \<Rightarrow> page_state" where
  "applyAll cfg w s =
     (let S = to_num cfg; c = ctl s
      in if IS_SPOTIFY cfg \<and> \<not> spotifyExperimental c then
           applySpotifyUiVolumeMute cfg (clamp S (num (c_volumePercent c)) 0 100 / 100) (c_muted c) s
         else
           (let usingWebAudio = (wired (bus s) \<and> hookedCount (hook s) > 0);
                usingGenericTap = tap_ready s;
                usingSpotifyTap = (IS_SPOTIFY cfg \<and> spotifyExperimental c \<and> engaged s);
                payload = \<lparr>p_volumePercent = num (clamp S (num (c_volumePercent c)) 0 800),
                           p_volume = JUndefined,
                           p_muted = JBool (c_muted c),
                           p_mode = JStr (c_mode c),
                           p_eq = Some (map num (eqDb c))\<rparr>;
                s1 = (if IS_SPOTIFY cfg \<and> spotifyExperimental c
                      then s\<lparr>sp_tap := onSettings S payload (sp_tap s)\<rparr> else s)
            in if IS_SPOTIFY cfg \<and> spotifyExperimental c \<and> usingSpotifyTap then s1
               else if usingWebAudio then
                 (let gainLinear =
                        (if c_muted c then 0 else clamp S (num (c_volumePercent c)) 0 800 / 100)
                  in s1\<lparr>bus := bus_setMode (c_mode c)
                                  (bus_setEqDb S (eqDb c) (setGainLinear S gainLinear (bus s1)))\<rparr>)
               else if usingGenericTap then s1\<lparr>effects := effects s1 @ [PostSettings payload]\<rparr>
               else
                 (let v = clamp S (num (c_volumePercent c)) 0 100 / 100;
                      s2 = s1\<lparr>effects := effects s1 @
                              concat (map (\<lambda>e. [SetMuted (el_id e) (c_muted c),
                                                  SetVolume (el_id e) v]) (doc w))\<rparr>
                  in if hostname cfg = ''open.spotify.com'' then
                       applySpotifyUiVolumeMute cfg v (c_muted c) s2
                     else if ends_with (hostname cfg) ''soundcloud.com'' then
                       applySoundCloudUiVolumeMute cfg w v (c_muted c) s2
                     else s2)))"

text \<open>
  \<^verbatim>\<open>
  _installMediaHooks() {
    if (this._observer) return;
    this.hook.scan();
    this._observer = new MutationObserver(...);
    ... observe the document, listen for "play" in the capture phase ...
  }
  start() {
    if (this._started) return;
    this._started = true;
    if (!IS_SPOTIFY) this._installMediaHooks();
    else if (this.spotifyExperimental) SPOTIFY_TAP.install();
    this._applyAll();
  }
  \<close>
\<close>

definition installMediaHooks :: "config \<Rightarrow> world \<Rightarrow> page_state \<Rightarrow> page_state" where
  "installMediaHooks cfg w s =
     (if observer (ctl s) then s
      else (let s1 = hook_scan cfg (now w) (doc w) s
            in s1\<lparr>ctl := (ctl s1)\<lparr>observer := True\<rparr>\<rparr>))"

definition start :: "config \<Rightarrow> world \<Rightarrow> page_state \<Rightarrow> page_state" where
  "start cfg w s =
     (if started (ctl s) then s
      else
        (let s1 = s\<lparr>ctl := (ctl s)\<lparr>started := True\<rparr>\<rparr>;
             s2 = (if \<not> IS_SPOTIFY cfg then installMediaHooks cfg w s1
                   else if spotifyExperimental (ctl s1) then sp_install cfg s1
                   else s1)
         in applyAll cfg w s2))"

text \<open>
  The four setters. Each stores its value, starts the controller and applies all
  settings.
  \<^verbatim>\<open>
  setVolumePercent(pct) { this.volumePercent = clampNumber(pct, 0, 800); ... }
  setMuted(m) { this.muted = !!m; ... }
  setMode(mode) { this.mode = mode === "voice" || mode === "bass" ? mode : "default"; ... }
  setEqDb(arr) {
    const a = Array.isArray(arr) ? arr.slice(0, 10) : [];
    while (a.length < 10) a.push(0);
    this.eqDb = a.map((x) => clampNumber(x, -24, 24));
    this.start();
    this._applyAll();
  }
  \<close>
  An argument of \<open>setEqDb\<close> that is not an array is \<open>None\<close>.
\<close>

definition setVolumePercent :: "config \<Rightarrow> world \<Rightarrow> jsval \<Rightarrow> page_state \<Rightarrow> page_state" where
  "setVolumePercent cfg w pct s =
     applyAll cfg w (start cfg w
       (s\<lparr>ctl := (ctl s)\<lparr>c_volumePercent := clamp (to_num cfg) pct 0 800\<rparr>\<rparr>))"

definition setMuted :: "config \<Rightarrow> world \<Rightarrow> jsval \<Rightarrow> page_state \<Rightarrow> page_state" where
  "setMuted cfg w m s =
     applyAll cfg w (start cfg w (s\<lparr>ctl := (ctl s)\<lparr>c_muted := truthy m\<rparr>\<rparr>))"

definition setMode :: "config \<Rightarrow> world \<Rightarrow> jsval \<Rightarrow> page_state \<Rightarrow> page_state" where
  "setMode cfg w m s =
     applyAll cfg w (start cfg w (s\<lparr>ctl := (ctl s)\<lparr>c_mode := valid_mode m\<rparr>\<rparr>))"

definition stored_eq :: "str2num \<Rightarrow> jsval list option \<Rightarrow> real list" where
  "stored_eq S arr =
     map (\<lambda>x. clamp S x (- 24) 24) (slice_pad10 (case arr of Some a \<Rightarrow> a | None \<Rightarrow> []))"

definition setEqDb :: "config \<Rightarrow> world \<Rightarrow> jsval list option \<Rightarrow> page_state \<Rightarrow> page_state" where
  "setEqDb cfg w arr s =
     applyAll cfg w (start cfg w (s\<lparr>ctl := (ctl s)\<lparr>eqDb := stored_eq (to_num cfg) arr\<rparr>\<rparr>))"

text \<open>
  The result of \<open>getState\<close>. The reason text is the one of the source, with its dash
  written as a hyphen.
\<close>

record report =
  r_volume :: real
  r_muted :: bool
  r_mode :: string
  r_eq :: "real list"
  r_canBoost :: bool
  r_backend :: string
  r_hooked :: nat
  r_ctxState :: string
  r_tapInfo :: "(bool \<times> nat \<times> string) option"
  r_drm :: bool
  r_drmSignals :: "(bool \<times> bool \<times> nat) option"
  r_blockedEffects :: bool
  r_blockReason :: "string option"

definition protected_reason :: string where
  "protected_reason =
     ''Protected playback detected (DRM/Widevine). Advanced SoundSphere processing is not available for Spotify in this browser session. Mute and 0-100% volume remain supported.''"

text \<open>
  \<^verbatim>\<open>
  getState() {
    const usingWebAudio = this.bus._wired && this.hook.hookedCount > 0;
    const usingSpotifyTap = IS_SPOTIFY && this.spotifyExperimental && SPOTIFY_TAP.engaged();
    const usingTap = WEB_AUDIO_TAP.ready || usingSpotifyTap;
    const drmInUse = IS_SPOTIFY && DRM_GUARD.state.inUse;
    const blockedEffects = !!drmInUse;
    const canBoost = !blockedEffects && (usingWebAudio || usingTap);
    const backend = blockedEffects ? "protected"
      : (usingWebAudio ? "webaudio"
          : (usingSpotifyTap ? "spotifyTap" : (usingTap ? "tap" : "element")));
    const blockReason = blockedEffects ? "Protected playback detected ..." : null;
    return { volume: this.volumePercent, muted: this.muted, mode: this.mode,
             eq: this.eqDb.slice(), canBoost, backend, hooked: this.hook.hookedCount,
             ctxState: this.bus.ctx ? this.bus.ctx.state : "none",
             tapInfo: IS_SPOTIFY ? SPOTIFY_TAP.info() : null,
             drm: drmInUse,
             drmSignals: IS_SPOTIFY ? { encryptedEvent, mediaKeys, lastChangedAt } : null,
             blockedEffects, blockReason };
  }
  \<close>
\<close>

definition getState :: "config \<Rightarrow> world \<Rightarrow> page_state \<Rightarrow> report" where
  "getState cfg w s =
     (let c = ctl s;
          usingWebAudio = (wired (bus s) \<and> hookedCount (hook s) > 0);
          usingSpotifyTap = (IS_SPOTIFY cfg \<and> spotifyExperimental c \<and> engaged s);
          usingTap = (tap_ready s \<or> usingSpotifyTap);
          drmInUse = (IS_SPOTIFY cfg \<and> inUse (guard s));
          blockedEffects = drmInUse;
          canBoost = (\<not> blockedEffects \<and> (usingWebAudio \<or> usingTap));
          backend = (if blockedEffects then ''protected''
                     else if usingWebAudio then ''webaudio''
                     else if usingSpotifyTap then ''spotifyTap''
                     else if usingTap then ''tap'' else ''element'');
          blockReason = (if blockedEffects then Some protected_reason else None)
      in \<lparr>r_volume = c_volumePercent c,
          r_muted = c_muted c,
          r_mode = c_mode c,
          r_eq = eqDb c,
          r_canBoost = canBoost,
          r_backend = backend,
          r_hooked = hookedCount (hook s),
          r_ctxState = (if wired (bus s) then ctx_state w else ''none''),
          r_tapInfo = (if IS_SPOTIFY cfg
                       then Some (sp_installed s, length (seenContexts (sp_tap s)), sp_lastError s)
                       else None),
          r_drm = drmInUse,
          r_drmSignals = (if IS_SPOTIFY cfg
                          then Some (encryptedEvent (guard s), mediaKeys (guard s),
                                     lastChangedAt (guard s))
                          else None),
          r_blockedEffects = blockedEffects,
          r_blockReason = blockReason\<rparr>)"

text \<open>
  The messages of the popup and the answer to each. A message that is no object or
  has none of the known actions gets no answer.
\<close>

datatype message =
    GetState
  | SetVolumeMsg jsval
  | ToggleMute
  | SetMutedMsg jsval
  | SetModeMsg jsval
  | SetEqGainsMsg "jsval list option"
  | OtherMsg

datatype response = StateResponse report | OkResponse | OkMuted bool | NoResponse

definition store :: "stored_value \<Rightarrow> page_state \<Rightarrow> page_state" where
  "store v s = s\<lparr>effects := effects s @ [StorageSet v]\<rparr>"

text \<open>
  \<^verbatim>\<open>
  if (msg.action === "getState") {
    controller.start();
    sendResponse(controller.getState());
    return;
  }
  if (msg.action === "setVolume") {
    controller.setVolumePercent(msg.volume);
    try { API.storage.sync.set({ vol_global: controller.volumePercent }); } catch {}
    sendResponse({ ok: true });
    return;
  }
  if (msg.action === "toggleMute") { controller.setMuted(!controller.muted); ... }
  if (msg.action === "setMuted") { controller.setMuted(!!msg.muted); ... }
  if (msg.action === "setMode") { controller.setMode(msg.mode); ... }
  if (msg.action === "setEqGains") { controller.setEqDb(msg.gains); ... }
  \<close>
\<close>

fun onMessage :: "config \<Rightarrow> world \<Rightarrow> message \<Rightarrow> page_state \<Rightarrow> page_state \<times> response" where
  "onMessage cfg w GetState s =
     (let s1 = start cfg w s in (s1, StateResponse (getState cfg w s1)))"
| "onMessage cfg w (SetVolumeMsg v) s =
     (let s1 = setVolumePercent cfg w v s
      in (store (StoredVolume (c_volumePercent (ctl s1))) s1, OkResponse))"
| "onMessage cfg w ToggleMute s =
     (let s1 = setMuted cfg w (JBool (\<not> c_muted (ctl s))) s
      in (store (StoredMuted (c_muted (ctl s1))) s1, OkMuted (c_muted (ctl s1))))"
| "onMessage cfg w (SetMutedMsg m) s =
     (let s1 = setMuted cfg w (JBool (truthy m)) s
      in (store (StoredMuted (c_muted (ctl s1))) s1, OkMuted (c_muted (ctl s1))))"
| "onMessage cfg w (SetModeMsg m) s =
     (let s1 = setMode cfg w m s
      in (store (StoredMode (c_mode (ctl s1))) s1, OkResponse))"
| "onMessage cfg w (SetEqGainsMsg g) s =
     (let s1 = setEqDb cfg w g s
      in (store (StoredEq (eqDb (ctl s1))) s1, OkResponse))"
| "onMessage cfg w OtherMsg s = (s, NoResponse)"

text \<open>
  The saved settings, as the storage hands them to the script, and the two storage
  callbacks.
  \<^verbatim>\<open>
    (data) => {
      controller.spotifyExperimental = !!data.spotifyExperimental;
      spotifyExperimentalEnabled = controller.spotifyExperimental;
      if (IS_SPOTIFY && controller.spotifyExperimental) SPOTIFY_TAP.install();
      controller.setMode(data.mode);
      controller.setEqDb(data.eqGains);
      controller.setMuted(!!data.muted);
      controller.setVolumePercent(Number(data.vol_global) || 100);
    }
  \<close>
\<close>

record stored =
  s_mode :: jsval
  s_eqGains :: "jsval list option"
  s_muted :: jsval
  s_vol_global :: jsval
  s_spotifyExperimental :: jsval

definition set_experimental :: "config \<Rightarrow> bool \<Rightarrow> page_state \<Rightarrow> page_state" where
  "set_experimental cfg e s =
     (let s1 = s\<lparr>ctl := (ctl s)\<lparr>spotifyExperimental := e\<rparr>, spotifyExperimentalEnabled := e\<rparr>
      in if IS_SPOTIFY cfg \<and> e then sp_install cfg s1 else s1)"

definition onStorageLoaded :: "config \<Rightarrow> world \<Rightarrow> stored \<Rightarrow> page_state \<Rightarrow> page_state" where
  "onStorageLoaded cfg w d s =
     (let s1 = set_experimental cfg (truthy (s_spotifyExperimental d)) s;
          s2 = setMode cfg w (s_mode d) s1;
          s3 = setEqDb cfg w (s_eqGains d) s2;
          s4 = setMuted cfg w (JBool (truthy (s_muted d))) s3
      in setVolumePercent cfg w
           (JNum (num_or (Number (to_num cfg) (s_vol_global d)) (Fin 100))) s4)"

definition onStorageChanged :: "config \<Rightarrow> world \<Rightarrow> jsval \<Rightarrow> page_state \<Rightarrow> page_state" where
  "onStorageChanged cfg w newValue s =
     applyAll cfg w (start cfg w (set_experimental cfg (truthy newValue) s))"

text \<open>
  The nodes a mutation adds: a media element, another element with the media elements
  below it, or a node that is no element.
\<close>

datatype added = AddedMedia elem | AddedSubtree "elem list" | AddedOther

fun onAdded :: "config \<Rightarrow> nat \<Rightarrow> page_state \<Rightarrow> added \<Rightarrow> page_state" where
  "onAdded cfg t s (AddedMedia e) = snd (hook_element cfg t e s)"
| "onAdded cfg t s (AddedSubtree es) = hook_scan cfg t es s"
| "onAdded cfg t s AddedOther = s"

text \<open>
  Everything that can happen to the content script: a message of the popup, a storage
  callback, a message of the page tap, a mutation of the document, a \<open>play\<close> event, one
  of the one-shot retry listeners firing, an \<open>encrypted\<close> event on an element or on the
  document, the timers of \<open>DRM_GUARD\<close>, and a \<open>connect\<close> call of the page. An event does
  something only if its listener is installed.
\<close>

datatype event =
    Message message
  | StorageLoaded stored
  | StorageChanged jsval
  | TapReady
  | TapPong
  | NodesAdded "added list"
  | Play elem
  | RetryFired lifecycle elem
  | EncryptedFired el
  | DocEncrypted
  | DrmTick
  | DrmTimeout
  | PageConnect nat "ctx option" page_target

fun step :: "config \<Rightarrow> page_state \<Rightarrow> world \<times> event \<Rightarrow> page_state" where
  "step cfg s (w, Message m) = fst (onMessage cfg w m s)"
| "step cfg s (w, StorageLoaded d) = onStorageLoaded cfg w d s"
| "step cfg s (w, StorageChanged v) = onStorageChanged cfg w v s"
| "step cfg s (w, TapReady) = s\<lparr>tap_ready := True, tap_lastSeenAt := now w\<rparr>"
| "step cfg s (w, TapPong) = s\<lparr>tap_ready := True, tap_lastSeenAt := now w\<rparr>"
| "step cfg s (w, NodesAdded ns) =
     (if observer (ctl s) then foldl (onAdded cfg (now w)) s ns else s)"
| "step cfg s (w, Play e) =
     (if observer (ctl s) then snd (hook_element cfg (now w) e s) else s)"
| "step cfg s (w, RetryFired k e) =
     (if (el_id e, k) \<in> set (retry_listeners (hook s)) then
        snd (hook_element cfg (now w) e
          (s\<lparr>hook := (hook s)
               \<lparr>retry_listeners := remove1 (el_id e, k) (retry_listeners (hook s)),
                pendingRetry := pendingRetry (hook s) - {el_id e}\<rparr>\<rparr>))
      else s)"
| "step cfg s (w, EncryptedFired x) =
     (if x \<in> encrypted_listeners (guard s) then
        s\<lparr>guard := mark (now w) Encrypted
             ((guard s)\<lparr>encrypted_listeners := encrypted_listeners (guard s) - {x}\<rparr>)\<rparr>
      else s)"
| "step cfg s (w, DocEncrypted) =
     (if IS_SPOTIFY cfg then s\<lparr>guard := mark (now w) Encrypted (guard s)\<rparr> else s)"
| "step cfg s (w, DrmTick) = s\<lparr>guard := drm_tick w (guard s)\<rparr>"
| "step cfg s (w, DrmTimeout) =
     (if scan_timeout (guard s) then
        s\<lparr>guard := (drm_scan w (guard s))\<lparr>scan_timeout := False\<rparr>\<rparr>
      else s)"
| "step cfg s (w, PageConnect n c d) =
     (if sp_patched s then
        s\<lparr>sp_tap := fst (spotify_patchedConnect (to_num cfg) (host_connects cfg)
                           (PageNode n c) (target_of d) (sp_tap s))\<rparr>
      else s)"

definition run :: "config \<Rightarrow> (world \<times> event) list \<Rightarrow> page_state \<Rightarrow> page_state" where
  "run cfg evs s = foldl (step cfg) s evs"

text \<open>
  The stored vector of the controller has ten entries, so has everything in the
  Spotify tap, and so has the vector of band gains of the bus once it is wired.
\<close>

definition page_eq_inv :: "page_state \<Rightarrow> bool" where
  "page_eq_inv s =
     (length (eqDb (ctl s)) = 10 \<and> eq_inv (sp_tap s) \<and>
      (if wired (bus s) then length (bus_eq (bus s)) = 10 else True))"

text \<open>
  The node that \<open>_makeSource\<close> returns for an element when the bus has a context, if it
  returns one.
\<close>

definition made_source :: "elem \<Rightarrow> source option" where
  "made_source e = fst (MediaHook_makeSource True e [])"

text \<open>
  When a call of \<open>hook\<close> binds the element: it is a media element, the bus is or can
  be wired, the element has no source yet, one of the two strategies yields a source
  node, and that node can be connected.
\<close>

definition binds :: "config \<Rightarrow> elem \<Rightarrow> page_state \<Rightarrow> bool" where
  "binds cfg e s =
     (is_media e \<and> (wired (bus s) \<or> has_AudioContext cfg) \<and>
      sources (hook s) (el_id e) = None \<and>
      made_source e \<noteq> None \<and> connect_ok e)"

section \<open>The tab-capture engine (Chrome): the equaliser of \<open>TabAudioController\<close>\<close>

text \<open>\<open>xs[i]\<close> on an array of values.\<close>

definition js_index :: "jsval list \<Rightarrow> nat \<Rightarrow> jsval" where
  "js_index xs i = (if i < length xs then xs ! i else JUndefined)"

text \<open>
  The controller of the engine, as far as the equaliser goes: whether it has a live
  graph (\<open>audioCtx\<close>), the gains of the band filters of that graph (\<open>eqNodes\<close>, empty
  without a graph), and the stored vector \<open>currentEq\<close>.
\<close>

record tab_controller =
  audioCtx :: bool
  eqNodes :: "real list"
  currentEq :: "jsval list"

definition tab_init :: tab_controller where
  "tab_init = \<lparr>audioCtx = False, eqNodes = [], currentEq = replicate 10 (num 0)\<rparr>"

text \<open>
  \<^verbatim>\<open>
  _applyEqFilters(nodes, ctx) {
    if (!nodes || !ctx) return;
    const gains = this.currentEq.length === 10 ? this.currentEq : new Array(10).fill(0);
    nodes.forEach((node, index) => {
      const gain = typeof gains[index] === "number" ? gains[index] : 0;
      ...
      node.gain.setValueAtTime(gain, ctx.currentTime);
    });
  }
  \<close>
  \<open>setValueAtTime\<close> throws a TypeError on a number that is not finite; nothing catches
  it here, so the loop stops at that band. The boolean of the result tells whether the
  loop came to its end.
\<close>

definition band_gain :: "jsval list \<Rightarrow> nat \<Rightarrow> jsnum" where
  "band_gain gains i = (case js_index gains i of JNum n \<Rightarrow> n | _ \<Rightarrow> Fin 0)"

fun set_bands :: "(nat \<Rightarrow> jsnum) \<Rightarrow> nat \<Rightarrow> real list \<Rightarrow> real list \<times> bool" where
  "set_bands f i [] = ([], True)"
| "set_bands f i (g # gs) =
     (case f i of
        Fin x \<Rightarrow> (let (gs', ok) = set_bands f (Suc i) gs in (x # gs', ok))
      | _ \<Rightarrow> (g # gs, False))"

definition tab_applyEqFilters :: "jsval list \<Rightarrow> real list \<Rightarrow> real list \<times> bool" where
  "tab_applyEqFilters cur nodes =
     (let gains = (if length cur = 10 then cur else replicate 10 (num 0))
      in set_bands (band_gain gains) 0 nodes)"

text \<open>
  \<^verbatim>\<open>
  setEqGains(gains) {
    const arr = Array.isArray(gains) ? gains.slice(0, 10) : [];
    while (arr.length < 10) arr.push(0);
    this.currentEq = arr;
    if (!this.audioCtx || !this.eqNodes.length) return;
    this._applyEqFilters(this.eqNodes, this.audioCtx);
  }
  \<close>
  The boolean of the result tells whether the call returned (\<open>True\<close>) or threw.
\<close>

definition tab_setEqGains :: "jsval list option \<Rightarrow> tab_controller \<Rightarrow> tab_controller \<times> bool" where
  "tab_setEqGains gains t =
     (let arr = slice_pad10 (case gains of Some a \<Rightarrow> a | None \<Rightarrow> []);
          t1 = t\<lparr>currentEq := arr\<rparr>
      in if \<not> audioCtx t1 \<or> eqNodes t1 = [] then (t1, True)
         else (let (ns, ok) = tab_applyEqFilters (currentEq t1) (eqNodes t1)
               in (t1\<lparr>eqNodes := ns\<rparr>, ok)))"

section \<open>The Chrome content script: chains for the media elements of YouTube\<close>

text \<open>
  The state of the script, as far as binding goes: whether the audio context exists,
  the source nodes created in it, the map \<open>mediaMap\<close> (a chain is named by the source
  that feeds it), the elements that carry the mark \<open>dataset.soundsphereHooked = "1"\<close>,
  and the elements whose chain was connected to the destination, one entry for each
  chain built, in order.
\<close>

record yt_state =
  yt_ctx :: bool
  yt_sources :: "source list"
  mediaMap :: "el \<Rightarrow> source option"
  hooked_mark :: "el set"
  chains_built :: "el list"

definition yt_init :: yt_state where
  "yt_init =
     \<lparr>yt_ctx = False, yt_sources = [], mediaMap = (\<lambda>_. None), hooked_mark = {},
      chains_built = []\<rparr>"

text \<open>
  \<^verbatim>\<open>
  function hookElementYouTube(el) {
    if (!IS_YOUTUBE) return;
    if (!el) return;
    if (mediaMap.has(el)) return;
    if (el.dataset.soundsphereHooked === "1") return;
    const ctx = ensureContext();
    if (!ctx) return;
    const source = makeSourceForElement(el, ctx);
    if (!source) return;
    try {
      ... create the nodes, apply the settings, wire
          source -> gain -> modeFilter -> EQs -> compressor -> destination ...
      el.dataset.soundsphereHooked = "1";
      mediaMap.set(el, { gain, modeFilter, eqNodes });
      ... on "ended" and "emptied": cleanup ...
    } catch (err) { console.error(...); }
  }
  \<close>
  The two first arguments are \<open>IS_YOUTUBE\<close> and whether the host has an audio context
  constructor. \<open>connect_ok\<close> of the element says whether the \<open>try\<close> block runs to its
  end; the settings are applied before the first connection, so a throw there leaves
  nothing connected.
\<close>

definition hookElementYouTube :: "bool \<Rightarrow> bool \<Rightarrow> elem \<Rightarrow> yt_state \<Rightarrow> yt_state" where
  "hookElementYouTube is_yt has_ac e s =
     (if \<not> is_yt then s
      else if mediaMap s (el_id e) \<noteq> None then s
      else if el_id e \<in> hooked_mark s then s
      else if \<not> yt_ctx s \<and> \<not> has_ac then s
      else
        (let r = makeSourceForElement e (yt_sources s);
             s1 = s\<lparr>yt_ctx := True, yt_sources := snd r\<rparr>
         in case fst r of
              None \<Rightarrow> s1
            | Some src \<Rightarrow>
                if \<not> connect_ok e then s1
                else s1\<lparr>chains_built := chains_built s1 @ [el_id e],
                        hooked_mark := insert (el_id e) (hooked_mark s1),
                        mediaMap := (mediaMap s1)(el_id e \<mapsto> src)\<rparr>))"

text \<open>
  \<open>scanAndHook\<close>, the periodic scan and the mutation observer all call
  \<open>hookElementYouTube\<close> on the media elements they find, in order.
\<close>

definition yt_hooks :: "bool \<Rightarrow> bool \<Rightarrow> elem list \<Rightarrow> yt_state \<Rightarrow> yt_state" where
  "yt_hooks is_yt has_ac es s = foldl (\<lambda>s e. hookElementYouTube is_yt has_ac e s) s es"

text \<open>
  The listener that \<open>hookElementYouTube\<close> puts on a bound element for \<open>ended\<close> and
  \<open>emptied\<close>:
  \<^verbatim>\<open>
    const cleanup = () => {
      mediaMap.delete(el);
      delete el.dataset.soundsphereHooked;
      el.removeEventListener("ended", cleanup);
      el.removeEventListener("emptied", cleanup);
    };
  \<close>
  It exists exactly while the element is in \<open>mediaMap\<close>. It does not disconnect the
  nodes of the chain, so the chain stays among the chains built.
\<close>

definition yt_cleanup :: "el \<Rightarrow> yt_state \<Rightarrow> yt_state" where
  "yt_cleanup x s =
     (if mediaMap s x = None then s
      else s\<lparr>mediaMap := (mediaMap s)(x := None), hooked_mark := hooked_mark s - {x}\<rparr>)"

text \<open>
  What happens to the Chrome content script, as far as binding goes: a call of
  \<open>hookElementYouTube\<close>, or an element ends or is emptied.
\<close>

datatype yt_event = YtHook elem | YtEnded el

fun yt_step :: "bool \<Rightarrow> bool \<Rightarrow> yt_state \<Rightarrow> yt_event \<Rightarrow> yt_state" where
  "yt_step is_yt has_ac s (YtHook e) = hookElementYouTube is_yt has_ac e s"
| "yt_step is_yt has_ac s (YtEnded x) = yt_cleanup x s"

definition yt_run :: "bool \<Rightarrow> bool \<Rightarrow> yt_event list \<Rightarrow> yt_state \<Rightarrow> yt_state" where
  "yt_run is_yt has_ac evs s = foldl (yt_step is_yt has_ac) s evs"

text \<open>
  1 for an element that is neither in \<open>mediaMap\<close> nor marked, 0 otherwise; and the
  number of times an element ended or was emptied in a sequence of events.
\<close>

definition yt_slack :: "yt_state \<Rightarrow> el \<Rightarrow> nat" where
  "yt_slack s x = (if mediaMap s x = None \<and> x \<notin> hooked_mark s then 1 else 0)"

definition ended_count :: "el \<Rightarrow> yt_event list \<Rightarrow> nat" where
  "ended_count x evs = length (filter (\<lambda>ev. ev = YtEnded x) evs)"

text \<open>
  Examples: an element on which both strategies succeed, one on which
  \<open>createMediaElementSource\<close> throws and \<open>captureStream\<close> yields a stream, one that has
  no capture function, and one on which both strategies fail.
\<close>

definition elem_both :: elem where
  "elem_both =
     \<lparr>el_id = 1, is_media = True, has_mediaKeys = False, has_crossOrigin = False,
      direct_ok = True, captureStream = ReturnsStream, mozCaptureStream = Absent,
      stream_source_ok = True, connect_ok = True\<rparr>"




text \<open>
  Examples of pages: any page that is not Spotify and has an audio context, and Spotify
  with the bridge to the page in place.
\<close>

definition cfg_plain :: config where
  "cfg_plain =
     \<lparr>hostname = ''example.org'', has_AudioContext = True, top_frame = True,
      to_num = (\<lambda>_. NaN), page_bridge = BridgeOk, host_connects = (\<lambda>_ _. True)\<rparr>"

definition cfg_spotify :: config where
  "cfg_spotify = cfg_plain\<lparr>hostname := ''open.spotify.com''\<rparr>"

definition world0 :: world where
  "world0 = \<lparr>now = 0, doc = [], ctx_state = ''running''\<rparr>"

text \<open>A sequence of \<open>SET_EQ\<close> messages to the engine.\<close>

definition tab_run :: "jsval list option list \<Rightarrow> tab_controller \<Rightarrow> tab_controller" where
  "tab_run gs t = foldl (\<lambda>t g. fst (tab_setEqGains g t)) t gs"

text \<open>Examples: an engine with a live graph of ten flat bands, and a settings message.\<close>

definition tab_live :: tab_controller where
  "tab_live = \<lparr>audioCtx = True, eqNodes = replicate 10 0, currentEq = replicate 10 (num 0)\<rparr>"

definition msg_eq :: "jsval list \<Rightarrow> payload" where
  "msg_eq a =
     \<lparr>p_volumePercent = JUndefined, p_volume = JUndefined, p_muted = JUndefined,
      p_mode = JUndefined, p_eq = Some a\<rparr>"

text \<open>A document that holds one media element on which both strategies succeed.\<close>

definition world1 :: world where
  "world1 = \<lparr>now = 0, doc = [elem_both], ctx_state = ''running''\<rparr>"

text \<open>
  The invariant of binding in the Firefox 1.2 content script: no element has two source
  nodes connected into the bus, the counter counts the connected nodes, the map
  \<open>sources\<close> knows exactly the elements of these nodes, and nodes are connected only
  into a wired bus.
\<close>

definition hook_inv :: "page_state \<Rightarrow> bool" where
  "hook_inv s =
     (distinct (map source_el (bus_inputs (bus s))) \<and>
      hookedCount (hook s) = length (bus_inputs (bus s)) \<and>
      (\<forall>x. (sources (hook s) x \<noteq> None) = (x \<in> source_el ` set (bus_inputs (bus s)))) \<and>
      (bus_inputs (bus s) = [] \<or> wired (bus s)))"

text \<open>
  The content script on a plain page, freshly loaded, after one \<open>getState\<close> message
  that arrived while the document held one media element.
\<close>

definition page_after_getState :: page_state where
  "page_after_getState = run cfg_plain [(world1, Message GetState)] (page_init cfg_plain)"

text \<open>The same script after the volume was then set to 400.\<close>

definition page_at_400 :: page_state where
  "page_at_400 = setVolumePercent cfg_plain world1 (num 400) page_after_getState"

section \<open>Properties of the gain curve\<close>

lemma mapVolumeToGain_Fin:
  "mapVolumeToGain S (JNum (Fin p)) =
     Fin (let q = max 0 (min 800 p) in
          if q = 0 then 0 else if q \<le> 600 then (q / 600) * 6 else 6 + ((q - 600) / 200) * 2)"
  by (simp add: mapVolumeToGain_def Let_def)

lemma gainFor_eq:
  "gainFor p =
     (let q = max 0 (min 800 p) in
      if q = 0 then 0 else if q \<le> 600 then (q / 600) * 6 else 6 + ((q - 600) / 200) * 2)"
  by (simp add: gainFor_def mapVolumeToGain_Fin)

lemma gainFor_linear: "gainFor p = max 0 (min 800 p) / 100"
  by (auto simp: gainFor_eq Let_def min_def max_def field_simps)

lemma gainFor_mono: "a \<le> b \<Longrightarrow> gainFor a \<le> gainFor b"
  by (simp add: gainFor_linear divide_right_mono)

lemma mapVolumeToGain_nonfinite:
  "mapVolumeToGain S (JNum PosInf) = Fin 8"
  "mapVolumeToGain S (JNum NegInf) = Fin 0"
  "mapVolumeToGain S (JNum NaN) = Fin 0"
  by (simp_all add: mapVolumeToGain_def)

lemma gainFor_slope:
  "0 \<le> a \<Longrightarrow> a < b \<Longrightarrow> b \<le> 800 \<Longrightarrow> slope gainFor a b = 1 / 100"
  by (simp add: slope_def gainFor_linear diff_divide_distrib[symmetric])

lemma gainFor_isCont: "isCont gainFor x"
  unfolding gainFor_linear[abs_def] by (intro continuous_intros) simp

text \<open>
  Claim C1. On every number the gain curve clamps its argument to [0, 800] and then is
  0 at 0, \<open>(p / 600) * 6\<close> on (0, 600] and \<open>6 + ((p - 600) / 200) * 2\<close> on (600, 800].
  So it is 1 at 100, 6 at 600 and 8 at 800, an argument outside the range gives the value
  at the nearer end of the range (also for the two infinities; NaN gives 0), and the
  curve never decreases.
\<close>

theorem gain_curve_contract:
  "mapVolumeToGain S (JNum (Fin p)) = Fin (gainFor p)
   \<and> gainFor p = gainFor (max 0 (min 800 p))
   \<and> (p \<le> 0 \<longrightarrow> gainFor p = 0)
   \<and> (0 < p \<and> p \<le> 600 \<longrightarrow> gainFor p = (p / 600) * 6)
   \<and> (600 < p \<and> p \<le> 800 \<longrightarrow> gainFor p = 6 + ((p - 600) / 200) * 2)
   \<and> (800 \<le> p \<longrightarrow> gainFor p = 8)
   \<and> gainFor 100 = 1 \<and> gainFor 600 = 6 \<and> gainFor 800 = 8
   \<and> gainFor (- 5) = gainFor 0 \<and> gainFor 999 = gainFor 800
   \<and> mapVolumeToGain S (JNum PosInf) = Fin 8
   \<and> mapVolumeToGain S (JNum NegInf) = Fin 0
   \<and> mapVolumeToGain S (JNum NaN) = Fin 0
   \<and> (\<forall>a b. a \<le> b \<longrightarrow> gainFor a \<le> gainFor b)"
proof -
  have "mapVolumeToGain S (JNum (Fin p)) = Fin (gainFor p)"
    by (simp add: mapVolumeToGain_Fin gainFor_eq)
  moreover have "gainFor p = gainFor (max 0 (min 800 p))"
    by (simp add: gainFor_linear)
  moreover have "p \<le> 0 \<longrightarrow> gainFor p = 0"
    by (simp add: gainFor_eq)
  moreover have "0 < p \<and> p \<le> 600 \<longrightarrow> gainFor p = (p / 600) * 6"
    by (simp add: gainFor_eq)
  moreover have "600 < p \<and> p \<le> 800 \<longrightarrow> gainFor p = 6 + ((p - 600) / 200) * 2"
    by (simp add: gainFor_eq)
  moreover have "800 \<le> p \<longrightarrow> gainFor p = 8"
    by (simp add: gainFor_linear)
  moreover have "gainFor 100 = 1" "gainFor 600 = 6" "gainFor 800 = 8"
    "gainFor (- 5) = gainFor 0" "gainFor 999 = gainFor 800"
    by (simp_all add: gainFor_linear)
  ultimately show ?thesis
    using gainFor_mono mapVolumeToGain_nonfinite by blast
qed

theorem gain_curve_contract_witness:
  "mapVolumeToGain (\<lambda>_. NaN) (JNum (Fin 300)) = Fin 3
   \<and> (- 7 :: real) \<le> 0 \<and> gainFor (- 7) = 0
   \<and> (0 :: real) < 300 \<and> (300 :: real) \<le> 600 \<and> gainFor 300 = 3
   \<and> (600 :: real) < 700 \<and> (700 :: real) \<le> 800 \<and> gainFor 700 = 7
   \<and> (800 :: real) \<le> 900 \<and> gainFor 900 = 8
   \<and> (300 :: real) \<le> 700 \<and> gainFor 300 \<le> gainFor 700"
  using gain_curve_contract [of "\<lambda>_. NaN" 300] gain_curve_contract [of "\<lambda>_. NaN" "- 7"]
    gain_curve_contract [of "\<lambda>_. NaN" 700] gain_curve_contract [of "\<lambda>_. NaN" 900]
  by simp

text \<open>
  Claim C2, as stated, fails: the chord over the upper segment is not steeper than the
  chord over the lower one.
\<close>

theorem gain_upper_segment_not_steeper:
  "\<not> slope gainFor 0 600 < slope gainFor 600 800"
  by (simp add: slope_def gainFor_linear)

text \<open>
  Claim C2, amended. The two segments have the same slope: every chord of the curve
  inside [0, 800] has slope 1/100, the slope of both formulas. The segments agree at
  600, where the value is 6 and equals the limit from the left and from the right.
\<close>

theorem gain_segments_same_slope:
  "(\<forall>a b. 0 \<le> a \<and> a < b \<and> b \<le> 800 \<longrightarrow> slope gainFor a b = 1 / 100)
   \<and> slope gainFor 0 600 = slope gainFor 600 800
   \<and> gainFor 600 = 6
   \<and> (gainFor \<longlongrightarrow> 6) (at_left 600)
   \<and> (gainFor \<longlongrightarrow> 6) (at_right 600)"
proof -
  have v: "gainFor 600 = 6"
    by (simp add: gainFor_linear)
  have "(gainFor \<longlongrightarrow> gainFor 600) (at 600)"
    using gainFor_isCont [of 600] by (simp add: isCont_def)
  then have "(gainFor \<longlongrightarrow> 6) (at_left 600)" "(gainFor \<longlongrightarrow> 6) (at_right 600)"
    by (simp_all add: v filterlim_at_split)
  moreover have "slope gainFor 0 600 = slope gainFor 600 800"
    by (simp add: gainFor_slope)
  ultimately show ?thesis
    using v gainFor_slope by blast
qed

theorem gain_segments_same_slope_witness:
  "(0 :: real) \<le> 500 \<and> (500 :: real) < 700 \<and> (700 :: real) \<le> 800
   \<and> slope gainFor 500 700 = 1 / 100"
  using gain_segments_same_slope by simp
section \<open>Properties of the page tap\<close>

lemma clamp_num: "clamp S (num x) lo hi = max lo (min hi x)"
  by (simp add: clamp_def)

lemma clamp_bounds: "lo \<le> hi \<Longrightarrow> lo \<le> clamp S n lo hi \<and> clamp S n lo hi \<le> hi"
  by (simp add: clamp_def split: jsnum.split)

lemma clamp_idem: "lo \<le> hi \<Longrightarrow> clamp S (num (clamp S n lo hi)) lo hi = clamp S n lo hi"
  using clamp_bounds [of lo hi S n] by (simp add: clamp_num)

lemma gain_value_applySettings:
  "gain_value (applySettings S st ch) =
     (if muted st then 0 else max 0 (min 800 (volumePercent st)) / 100)"
  by (simp add: applySettings_def applyMode_def Let_def clamp_num)

lemma connected_applySettings: "connected (applySettings S st ch) = connected ch"
  by (simp add: applySettings_def applyMode_def Let_def)

lemma length_eq_gains_applySettings:
  "length (eq_gains (applySettings S st ch)) = length (eq_gains ch)"
  by (simp add: applySettings_def applyMode_def Let_def)

lemma applyToSeen_None: "(applyToSeen S st cs m c = None) = (m c = None)"
  by (induction cs arbitrary: m) (auto split: option.splits)

lemma applyToSeen_notin: "c \<notin> set cs \<Longrightarrow> applyToSeen S st cs m c = m c"
  by (induction cs arbitrary: m) (auto split: option.splits)

lemma applyToSeen_in:
  "c \<in> set cs \<Longrightarrow> applyToSeen S st cs m c = Some ch \<Longrightarrow> \<exists>ch0. ch = applySettings S st ch0"
proof (induction cs arbitrary: m)
  case Nil
  then show ?case by simp
next
  case (Cons a cs)
  show ?case
  proof (cases "c \<in> set cs")
    case True
    with Cons show ?thesis by simp
  next
    case False
    with Cons.prems have "a = c" by simp
    with False Cons.prems(2) show ?thesis
      by (auto simp: applyToSeen_notin split: option.splits)
  qed
qed

lemma applyToSeen_connected:
  "applyToSeen S st cs m c = Some ch \<Longrightarrow> \<exists>ch0. m c = Some ch0 \<and> connected ch = connected ch0"
proof (induction cs arbitrary: m)
  case Nil
  then show ?case by simp
next
  case (Cons a cs)
  from Cons.IH [OF Cons.prems [simplified]] show ?case
    by (auto simp: connected_applySettings split: option.splits if_splits)
qed

lemma onSettings_frame:
  "seenContexts (onSettings S p st) = seenContexts st"
  "native_calls (onSettings S p st) = native_calls st"
  "muted (onSettings S p st) = truthy (p_muted p)"
  "volumePercent (onSettings S p st) =
     clamp S (nullish (if is_number (p_volumePercent p) then p_volumePercent p else p_volume p)
       (num (volumePercent st))) 0 800"
  by (simp_all add: onSettings_def storeSettings_def Let_def)

lemma onSettings_chain_gain:
  assumes "c \<in> set (seenContexts (onSettings S p st))"
    and "chains (onSettings S p st) c = Some ch"
  shows "gain_value ch =
     (if muted (onSettings S p st) then 0
      else max 0 (min 800 (volumePercent (onSettings S p st))) / 100)"
proof -
  let ?st1 = "storeSettings S p st"
  from assms have "c \<in> set (seenContexts ?st1)"
    and "applyToSeen S ?st1 (seenContexts ?st1) (chains ?st1) c = Some ch"
    by (simp_all add: onSettings_def Let_def)
  then obtain ch0 where "ch = applySettings S ?st1 ch0"
    using applyToSeen_in by blast
  then show ?thesis
    by (simp add: gain_value_applySettings onSettings_def Let_def)
qed

lemma volumePercent_onSettings_range:
  "0 \<le> volumePercent (onSettings S p st) \<and> volumePercent (onSettings S p st) \<le> 800"
  by (simp add: onSettings_frame clamp_bounds)

lemma tap_one_source_eq:
  "tap_one_source =
     \<lparr>volumePercent = 100, muted = False, mode = ''default'', eq = replicate 10 0,
      seenContexts = [0],
      chains = (\<lambda>_. None)(0 \<mapsto>
        \<lparr>gain_value = 1, eq_gains = replicate 10 0, mode_name = ''default'', connected = True\<rparr>),
      native_calls = [(BusOutput 0, Destination 0, True),
                      (PageNode 1 (Some 0), Node (BusInput 0), True)]\<rparr>"
  by (simp add: tap_one_source_def patchedConnect_def getChainFor_def tap_init_def
      buildChain_def applySettings_def applyMode_def connectOutputOnce_def nativeConnect_def
      set_add_def clamp_num at_index_def Let_def upt_rec [of 0] numeral_eq_Suc)

section \<open>The master bus is connected once\<close>

lemma output_calls_append [simp]:
  "output_calls c (xs @ ys) = output_calls c xs + output_calls c ys"
  by (simp add: output_calls_def)

lemma output_calls_Nil [simp]: "output_calls c [] = 0"
  by (simp add: output_calls_def)

lemma output_calls_single:
  "output_calls c [(n, d, ok)] = (if n = BusOutput c \<and> d = Destination c then 1 else 0)"
  by (simp add: output_calls_def)

lemma output_first_append:
  "output_first c xs \<Longrightarrow> 0 < output_calls c xs \<Longrightarrow> output_first c (xs @ ys)"
  by (induction c xs rule: output_first.induct) (auto simp: output_calls_def)

lemma output_first_fresh:
  "list_all (\<lambda>(n, d, ok). d \<noteq> Node (BusInput c) \<and> n \<noteq> BusOutput c) xs \<Longrightarrow>
   output_first c (xs @ (BusOutput c, Destination c, ok) # ys)"
  by (induction c xs rule: output_first.induct) auto

lemma fresh_output_calls:
  "list_all (\<lambda>(n, d, ok). d \<noteq> Node (BusInput c) \<and> n \<noteq> BusOutput c) xs \<Longrightarrow>
   output_calls c xs = 0"
  by (induction xs) (auto simp: output_calls_def)

lemma fresh_output_first:
  "list_all (\<lambda>(n, d, ok). d \<noteq> Node (BusInput c) \<and> n \<noteq> BusOutput c) xs \<Longrightarrow>
   output_first c xs"
  by (induction c xs rule: output_first.induct) auto

lemma bus_inv_call:
  assumes "bus_inv st c" and "n \<noteq> BusOutput c"
    and "chains st c = None \<longrightarrow> d \<noteq> Node (BusInput c)"
  shows "bus_inv (fst (nativeConnect H n d st)) c"
proof (cases "chains st c")
  case None
  with assms show ?thesis
    by (simp add: bus_inv_def nativeConnect_def)
next
  case (Some ch)
  with assms have "output_first c (native_calls st @ [(n, d, H n d)])"
    by (simp add: bus_inv_def output_first_append)
  with Some assms show ?thesis
    by (simp add: bus_inv_def nativeConnect_def output_calls_single)
qed

lemma nativeConnect_chains [simp]:
  "chains (fst (nativeConnect H n d st)) = chains st"
  "seenContexts (fst (nativeConnect H n d st)) = seenContexts st"
  by (simp_all add: nativeConnect_def)

text \<open>The two first steps of a rerouted call: get the chain, connect its output once.\<close>

lemma bus_inv_ensure:
  assumes "\<And>c. bus_inv st c"
  shows "bus_inv (connectOutputOnce H c0 (fst (getChainFor S c0 st)) (snd (getChainFor S c0 st))) c
    \<and> chains (connectOutputOnce H c0 (fst (getChainFor S c0 st)) (snd (getChainFor S c0 st))) c0 \<noteq> None"
proof (cases "chains st c0")
  case (Some ch)
  with assms [of c0] have "connected ch"
    by (simp add: bus_inv_def)
  with Some assms [of c] show ?thesis
    by (simp add: getChainFor_def connectOutputOnce_def)
next
  case None
  let ?ch = "applySettings S st buildChain"
  have nc: "\<not> connected ?ch"
    by (simp add: connected_applySettings buildChain_def)
  show ?thesis
  proof (cases "c = c0")
    case True
    from None assms [of c0]
    have fresh: "list_all (\<lambda>(n, d, ok). d \<noteq> Node (BusInput c0) \<and> n \<noteq> BusOutput c0) (native_calls st)"
      by (simp add: bus_inv_def)
    from fresh_output_calls [OF fresh] output_first_fresh [OF fresh, of _ "[]"] None nc True
    show ?thesis
      by (simp add: getChainFor_def connectOutputOnce_def Let_def bus_inv_def nativeConnect_def
          set_add_def output_calls_single)
  next
    case False
    with assms [of c] None nc show ?thesis
      by (auto simp add: getChainFor_def connectOutputOnce_def Let_def bus_inv_def nativeConnect_def
          set_add_def output_calls_single output_first_append split: option.splits)
  qed
qed

lemma target_of_not_bus: "target_of pd \<noteq> Node (BusInput c)"
  by (cases pd) simp_all

lemma bus_inv_patchedConnect:
  assumes "\<And>c. bus_inv st c"
  shows "bus_inv (fst (patchedConnect S H (PageNode n cx) (target_of pd) st)) c"
proof -
  have page: "PageNode n cx \<noteq> BusOutput c"
    by simp
  have plain: "\<And>s. bus_inv s c \<Longrightarrow>
      bus_inv (fst (nativeConnect H (PageNode n cx) (target_of pd) s)) c"
    by (rule bus_inv_call) (simp_all add: target_of_not_bus)
  have reroute: "bus_inv (fst (nativeConnect H (PageNode n cx) (Node (BusInput c0))
      (connectOutputOnce H c0 (fst (getChainFor S c0 st)) (snd (getChainFor S c0 st))))) c" for c0
    using bus_inv_ensure [OF assms, of H c0 S c]
    by (intro bus_inv_call) auto
  show ?thesis
    using plain [OF assms] plain [OF plain [OF assms]] reroute plain [OF reroute]
    by (auto simp add: patchedConnect_def Let_def split_def split: option.splits)
qed

lemma bus_inv_spotify_patchedConnect:
  assumes "\<And>c. bus_inv st c"
  shows "bus_inv (fst (spotify_patchedConnect S H (PageNode n cx) (target_of pd) st)) c"
proof -
  have plain: "\<And>s. bus_inv s c \<Longrightarrow>
      bus_inv (fst (nativeConnect H (PageNode n cx) (target_of pd) s)) c"
    by (rule bus_inv_call) (simp_all add: target_of_not_bus)
  have reroute: "bus_inv (fst (nativeConnect H (PageNode n cx) (Node (BusInput c0))
      (connectOutputOnce H c0 (fst (getChainFor S c0 st)) (snd (getChainFor S c0 st))))) c" for c0
    using bus_inv_ensure [OF assms, of H c0 S c]
    by (intro bus_inv_call) auto
  show ?thesis
    using plain [OF assms] plain [OF plain [OF assms]] reroute
    by (auto simp add: spotify_patchedConnect_def Let_def split_def split: option.splits)
qed

lemma bus_inv_onSettings:
  assumes "bus_inv st c"
  shows "bus_inv (onSettings S p st) c"
proof (cases "chains st c")
  case None
  then have "chains (onSettings S p st) c = None"
    by (simp add: onSettings_def Let_def applyToSeen_None storeSettings_def)
  with None assms show ?thesis
    by (simp add: bus_inv_def onSettings_frame)
next
  case (Some ch)
  then obtain ch' where c': "chains (onSettings S p st) c = Some ch'"
    using applyToSeen_None [of S "storeSettings S p st" "seenContexts st" "chains st" c]
    by (auto simp add: onSettings_def Let_def storeSettings_def)
  then have "connected ch' = connected ch"
    using applyToSeen_connected [of S "storeSettings S p st" "seenContexts st" "chains st" c ch'] Some
    by (simp add: onSettings_def Let_def storeSettings_def)
  with Some c' assms show ?thesis
    by (simp add: bus_inv_def onSettings_frame)
qed

lemma bus_inv_tap_step:
  "(\<And>c. bus_inv st c) \<Longrightarrow> bus_inv (tap_step S H st ev) c"
  by (cases ev) (simp_all add: bus_inv_patchedConnect bus_inv_onSettings)

lemma bus_inv_spotify_tap_step:
  "(\<And>c. bus_inv st c) \<Longrightarrow> bus_inv (spotify_tap_step S H st ev) c"
  by (cases ev) (simp_all add: bus_inv_spotify_patchedConnect bus_inv_onSettings)

lemma bus_inv_init: "bus_inv tap_init c"
  by (simp add: bus_inv_def tap_init_def)

lemma bus_inv_tap_run:
  "(\<And>c. bus_inv st c) \<Longrightarrow> bus_inv (tap_run S H evs st) c"
  unfolding tap_run_def
  by (induction evs arbitrary: st c) (simp_all add: bus_inv_tap_step)

lemma bus_inv_spotify_tap_run:
  "(\<And>c. bus_inv st c) \<Longrightarrow> bus_inv (spotify_tap_run S H evs st) c"
  unfolding spotify_tap_run_def
  by (induction evs arbitrary: st c) (simp_all add: bus_inv_spotify_tap_step)

lemma bus_inv_summary:
  assumes "bus_inv st c"
  shows "output_calls c (native_calls st) = (if c \<in> set (seenContexts st) then 1 else 0)
    \<and> output_first c (native_calls st)
    \<and> (c \<in> set (seenContexts st)) = (chains st c \<noteq> None)
    \<and> (case chains st c of None \<Rightarrow> True | Some ch \<Rightarrow> connected ch)"
proof (cases "chains st c")
  case None
  with assms have fresh:
    "list_all (\<lambda>(n, d, ok). d \<noteq> Node (BusInput c) \<and> n \<noteq> BusOutput c) (native_calls st)"
    and "c \<notin> set (seenContexts st)"
    by (simp_all add: bus_inv_def)
  moreover have "output_first c (native_calls st)"
    using fresh by (rule fresh_output_first)
  ultimately show ?thesis
    using None fresh_output_calls [OF fresh] by simp
next
  case (Some ch)
  with assms show ?thesis
    by (simp add: bus_inv_def)
qed

lemma seen_getChainFor: "c \<in> set (seenContexts (snd (getChainFor S c st))) \<or> chains st c \<noteq> None"
  by (simp add: getChainFor_def set_add_def Let_def split: option.splits)

lemma seen_mono_getChainFor:
  "c \<in> set (seenContexts st) \<Longrightarrow> c \<in> set (seenContexts (snd (getChainFor S c0 st)))"
  by (simp add: getChainFor_def set_add_def Let_def split: option.splits)

lemma seenContexts_connectOutputOnce [simp]:
  "seenContexts (connectOutputOnce H c ch st) = seenContexts st"
  by (simp add: connectOutputOnce_def nativeConnect_def Let_def)

lemma seen_mono_tap_step:
  "c \<in> set (seenContexts st) \<Longrightarrow> c \<in> set (seenContexts (tap_step S H st ev))"
  by (cases ev)
    (auto simp add: patchedConnect_def onSettings_frame Let_def split_def seen_mono_getChainFor
      split: option.splits)

lemma seen_mono_spotify_tap_step:
  "c \<in> set (seenContexts st) \<Longrightarrow> c \<in> set (seenContexts (spotify_tap_step S H st ev))"
  by (cases ev)
    (auto simp add: spotify_patchedConnect_def onSettings_frame Let_def split_def
      seen_mono_getChainFor split: option.splits)

lemma seen_after_reroute:
  assumes "bus_inv st c"
  shows "c \<in> set (seenContexts (tap_step S H st (Connect n (Some c) (ToDestination c))))"
    and "c \<in> set (seenContexts (spotify_tap_step S H st (Connect n (Some c) (ToDestination c))))"
proof -
  have "c \<in> set (seenContexts (snd (getChainFor S c st)))"
    using seen_getChainFor [of c S st] assms
    by (auto simp add: bus_inv_def getChainFor_def split: option.splits)
  then show "c \<in> set (seenContexts (tap_step S H st (Connect n (Some c) (ToDestination c))))"
    and "c \<in> set (seenContexts (spotify_tap_step S H st (Connect n (Some c) (ToDestination c))))"
    by (simp_all add: patchedConnect_def spotify_patchedConnect_def Let_def split_def)
qed

lemma seen_tap_run:
  assumes "\<And>c. bus_inv st c" and "Connect n (Some c) (ToDestination c) \<in> set evs"
  shows "c \<in> set (seenContexts (tap_run S H evs st))"
  using assms
proof (induction evs arbitrary: st)
  case Nil
  then show ?case by simp
next
  case (Cons ev evs)
  have inv: "\<And>c. bus_inv (tap_step S H st ev) c"
    by (simp add: bus_inv_tap_step Cons.prems(1))
  have mono: "c \<in> set (seenContexts s) \<Longrightarrow> c \<in> set (seenContexts (foldl (tap_step S H) s es))"
    for s es
    by (induction es arbitrary: s) (simp_all add: seen_mono_tap_step)
  show ?case
  proof (cases "ev = Connect n (Some c) (ToDestination c)")
    case True
    then show ?thesis
      using seen_after_reroute(1) [OF Cons.prems(1) [of c], of S H n] mono
      by (simp add: tap_run_def)
  next
    case False
    with Cons.prems(2) have "Connect n (Some c) (ToDestination c) \<in> set evs"
      by simp
    from Cons.IH [OF inv this] show ?thesis
      by (simp add: tap_run_def)
  qed
qed

lemma seen_spotify_tap_run:
  assumes "\<And>c. bus_inv st c" and "Connect n (Some c) (ToDestination c) \<in> set evs"
  shows "c \<in> set (seenContexts (spotify_tap_run S H evs st))"
  using assms
proof (induction evs arbitrary: st)
  case Nil
  then show ?case by simp
next
  case (Cons ev evs)
  have inv: "\<And>c. bus_inv (spotify_tap_step S H st ev) c"
    by (simp add: bus_inv_spotify_tap_step Cons.prems(1))
  have mono:
    "c \<in> set (seenContexts s) \<Longrightarrow> c \<in> set (seenContexts (foldl (spotify_tap_step S H) s es))"
    for s es
    by (induction es arbitrary: s) (simp_all add: seen_mono_spotify_tap_step)
  show ?case
  proof (cases "ev = Connect n (Some c) (ToDestination c)")
    case True
    then show ?thesis
      using seen_after_reroute(2) [OF Cons.prems(1) [of c], of S H n] mono
      by (simp add: spotify_tap_run_def)
  next
    case False
    with Cons.prems(2) have "Connect n (Some c) (ToDestination c) \<in> set evs"
      by simp
    from Cons.IH [OF inv this] show ?thesis
      by (simp add: spotify_tap_run_def)
  qed
qed

text \<open>
  Claim C6. After any sequence of \<open>connect\<close> calls of the page and settings messages,
  starting from the tap as installed, and for every context: the output of the master
  chain was connected to the destination by exactly one call of the native \<open>connect\<close>
  if the context has a chain and by none otherwise; that call comes before every call
  that routes a node into the chain's input; a chain exists exactly for the seen
  contexts and its \<open>connected\<close> flag is set. In particular, however many nodes of the
  page were sent to the destination of a context, as soon as there is one the output
  was connected exactly once. The same holds for the patched \<open>connect\<close> of the Spotify
  graph tap.
\<close>

theorem master_bus_connected_once:
  "output_calls c (native_calls (tap_run S H evs tap_init)) =
      (if c \<in> set (seenContexts (tap_run S H evs tap_init)) then 1 else 0)
   \<and> output_first c (native_calls (tap_run S H evs tap_init))
   \<and> (c \<in> set (seenContexts (tap_run S H evs tap_init))) =
      (chains (tap_run S H evs tap_init) c \<noteq> None)
   \<and> (case chains (tap_run S H evs tap_init) c of None \<Rightarrow> True | Some ch \<Rightarrow> connected ch)
   \<and> (Connect n (Some c) (ToDestination c) \<in> set evs \<longrightarrow>
        output_calls c (native_calls (tap_run S H evs tap_init)) = 1)
   \<and> output_calls c (native_calls (spotify_tap_run S H evs tap_init)) =
      (if c \<in> set (seenContexts (spotify_tap_run S H evs tap_init)) then 1 else 0)
   \<and> output_first c (native_calls (spotify_tap_run S H evs tap_init))
   \<and> (c \<in> set (seenContexts (spotify_tap_run S H evs tap_init))) =
      (chains (spotify_tap_run S H evs tap_init) c \<noteq> None)
   \<and> (case chains (spotify_tap_run S H evs tap_init) c of
         None \<Rightarrow> True | Some ch \<Rightarrow> connected ch)
   \<and> (Connect n (Some c) (ToDestination c) \<in> set evs \<longrightarrow>
        output_calls c (native_calls (spotify_tap_run S H evs tap_init)) = 1)"
proof -
  have a: "bus_inv (tap_run S H evs tap_init) c"
    by (rule bus_inv_tap_run) (rule bus_inv_init)
  have b: "bus_inv (spotify_tap_run S H evs tap_init) c"
    by (rule bus_inv_spotify_tap_run) (rule bus_inv_init)
  have c: "Connect n (Some c) (ToDestination c) \<in> set evs \<longrightarrow>
      c \<in> set (seenContexts (tap_run S H evs tap_init))"
    using seen_tap_run [of tap_init n c evs S H] bus_inv_init by blast
  have d: "Connect n (Some c) (ToDestination c) \<in> set evs \<longrightarrow>
      c \<in> set (seenContexts (spotify_tap_run S H evs tap_init))"
    using seen_spotify_tap_run [of tap_init n c evs S H] bus_inv_init by blast
  show ?thesis
    using bus_inv_summary [OF a] bus_inv_summary [OF b] c d by simp
qed

theorem master_bus_connected_once_witness:
  "Connect 2 (Some 0) (ToDestination 0) \<in>
      set [Connect 1 (Some 0) (ToDestination 0), Connect 2 (Some 0) (ToDestination 0),
           Connect 3 (Some 0) (ToDestination 0)]
   \<and> output_calls 0 (native_calls (tap_run (\<lambda>_. NaN) (\<lambda>_ _. True)
        [Connect 1 (Some 0) (ToDestination 0), Connect 2 (Some 0) (ToDestination 0),
         Connect 3 (Some 0) (ToDestination 0)] tap_init)) = 1
   \<and> output_calls 0 (native_calls (spotify_tap_run (\<lambda>_. NaN) (\<lambda>_ _. True)
        [Connect 1 (Some 0) (ToDestination 0), Connect 2 (Some 0) (ToDestination 0),
         Connect 3 (Some 0) (ToDestination 0)] tap_init)) = 1"
proof -
  let ?evs = "[Connect 1 (Some 0) (ToDestination 0), Connect 2 (Some 0) (ToDestination 0),
               Connect 3 (Some 0) (ToDestination 0)]"
  have m: "Connect 2 (Some 0) (ToDestination 0) \<in> set ?evs"
    by simp
  from master_bus_connected_once [of 0 "\<lambda>_. NaN" "\<lambda>_ _. True" ?evs 2] m
  show ?thesis
    by blast
qed

section \<open>What each operation of the Firefox 1.2 content script leaves alone\<close>

lemma capture_source_el: "capture_source e = Some n \<Longrightarrow> n = MediaStreamSource (el_id e)"
  by (simp add: capture_source_def Let_def split: if_splits)

lemma fst_makeSource:
  "fst (direct_tap e ns) = (if direct_ok e then Some (MediaElementSource (el_id e)) else None)"
  "fst (capture_tap e ns) = capture_source e"
  "fst (MediaHook_makeSource b e ns) =
     (if \<not> b then None
      else if direct_ok e then Some (MediaElementSource (el_id e)) else capture_source e)"
  "fst (makeSourceForElement e ns) =
     (case capture_source e of
        Some n \<Rightarrow> Some n
      | None \<Rightarrow> if direct_ok e then Some (MediaElementSource (el_id e)) else None)"
  by (simp_all add: direct_tap_def capture_tap_def MediaHook_makeSource_def
      makeSourceForElement_def split: option.splits)

lemma fst_MediaHook_makeSource:
  "fst (MediaHook_makeSource b e ns) = (if b then made_source e else None)"
  by (simp add: made_source_def fst_makeSource)

lemma made_source_eq:
  "made_source e =
     (if direct_ok e then Some (MediaElementSource (el_id e)) else capture_source e)"
  by (simp add: made_source_def fst_makeSource)


lemma watchElement_inUse: "inUse g \<Longrightarrow> inUse (watchElement t e g)"
  by (simp add: watchElement_def inspectElement_def mark_def Let_def)

lemma drm_scan_inUse: "inUse g \<Longrightarrow> inUse (drm_scan w g)"
proof -
  have "inUse g \<Longrightarrow> inUse (foldl (\<lambda>g e. watchElement t e g) g es)" for t es
    by (induction es arbitrary: g) (simp_all add: watchElement_inUse)
  then show "inUse g \<Longrightarrow> inUse (drm_scan w g)"
    by (simp add: drm_scan_def)
qed

lemma drm_tick_inUse: "inUse g \<Longrightarrow> inUse (drm_tick w g)"
  by (simp add: drm_tick_def Let_def drm_scan_inUse)

lemma mark_inUse: "inUse (mark t k g)"
  by (simp add: mark_def)

lemma ensure_frame:
  "bus_inputs (snd (ensure cfg b)) = bus_inputs b"
  "wired b \<Longrightarrow> snd (ensure cfg b) = b"
  "fst (ensure cfg b) = wired (snd (ensure cfg b))"
  "wired b \<Longrightarrow> wired (snd (ensure cfg b))"
  "length (bus_eq (snd (ensure cfg b))) = (if wired b then length (bus_eq b)
     else if has_AudioContext cfg then 10 else length (bus_eq b))"
  by (simp_all add: ensure_def)

lemma hook_element_frame:
  "ctl (snd (hook_element cfg t e s)) = ctl s"
  "sp_tap (snd (hook_element cfg t e s)) = sp_tap s"
  "tap_ready (snd (hook_element cfg t e s)) = tap_ready s"
  "sp_installed (snd (hook_element cfg t e s)) = sp_installed s"
  "sp_patched (snd (hook_element cfg t e s)) = sp_patched s"
  "sp_lastError (snd (hook_element cfg t e s)) = sp_lastError s"
  "spotifyExperimentalEnabled (snd (hook_element cfg t e s)) = spotifyExperimentalEnabled s"
  by (simp_all add: hook_element_def Let_def split_def split: option.splits)

lemma hook_element_result:
  "fst (hook_element cfg t e s) =
     (binds cfg e s \<or>
      (is_media e \<and> (wired (bus s) \<or> has_AudioContext cfg) \<and>
       sources (hook s) (el_id e) \<noteq> None))"
  "bus_inputs (bus (snd (hook_element cfg t e s))) =
     (if binds cfg e s then bus_inputs (bus s) @ [the (made_source e)]
      else bus_inputs (bus s))"
  "sources (hook (snd (hook_element cfg t e s))) =
     (if binds cfg e s then (sources (hook s))(el_id e \<mapsto> the (made_source e))
      else sources (hook s))"
  "hookedCount (hook (snd (hook_element cfg t e s))) =
     (if binds cfg e s then hookedCount (hook s) + 1 else hookedCount (hook s))"
  "wired (bus (snd (hook_element cfg t e s))) =
     (wired (bus s) \<or> (is_media e \<and> has_AudioContext cfg))"
  "length (bus_eq (bus (snd (hook_element cfg t e s)))) =
     (if \<not> wired (bus s) \<and> is_media e \<and> has_AudioContext cfg then 10
      else length (bus_eq (bus s)))"
  by (simp_all add: hook_element_def binds_def ensure_def Let_def split_def
      fst_MediaHook_makeSource split: option.splits)

lemma hook_element_inUse:
  "inUse (guard s) \<Longrightarrow> inUse (guard (snd (hook_element cfg t e s)))"
  by (simp add: hook_element_def Let_def split_def watchElement_inUse split: option.splits)

lemma hook_scan_frame:
  "ctl (hook_scan cfg t es s) = ctl s"
  "sp_tap (hook_scan cfg t es s) = sp_tap s"
  "tap_ready (hook_scan cfg t es s) = tap_ready s"
  "sp_installed (hook_scan cfg t es s) = sp_installed s"
  "sp_patched (hook_scan cfg t es s) = sp_patched s"
  "sp_lastError (hook_scan cfg t es s) = sp_lastError s"
  "spotifyExperimentalEnabled (hook_scan cfg t es s) = spotifyExperimentalEnabled s"
  unfolding hook_scan_def
  by (induction es arbitrary: s; simp add: hook_element_frame)+

lemma hook_scan_inUse:
  "inUse (guard s) \<Longrightarrow> inUse (guard (hook_scan cfg t es s))"
  unfolding hook_scan_def
  by (induction es arbitrary: s) (simp_all add: hook_element_inUse)

lemma sp_install_frame:
  "ctl (sp_install cfg s) = ctl s"
  "guard (sp_install cfg s) = guard s"
  "bus (sp_install cfg s) = bus s"
  "hook (sp_install cfg s) = hook s"
  "sp_tap (sp_install cfg s) = sp_tap s"
  "tap_ready (sp_install cfg s) = tap_ready s"
  "effects (sp_install cfg s) = effects s"
  "spotifyExperimentalEnabled (sp_install cfg s) = spotifyExperimentalEnabled s"
  by (simp_all add: sp_install_def Let_def split: bridge.splits)

lemma bus_setters_frame:
  "wired (setGainLinear S v b) = wired b"
  "bus_inputs (setGainLinear S v b) = bus_inputs b"
  "length (bus_eq (setGainLinear S v b)) = length (bus_eq b)"
  "wired (bus_setEqDb S arr b) = wired b"
  "bus_inputs (bus_setEqDb S arr b) = bus_inputs b"
  "length (bus_eq (bus_setEqDb S arr b)) = length (bus_eq b)"
  "wired (bus_setMode m b) = wired b"
  "bus_inputs (bus_setMode m b) = bus_inputs b"
  "length (bus_eq (bus_setMode m b)) = length (bus_eq b)"
  by (simp_all add: setGainLinear_def bus_setEqDb_def bus_setMode_def)

lemma applyAll_frame:
  "ctl (applyAll cfg w s) = ctl s"
  "guard (applyAll cfg w s) = guard s"
  "hook (applyAll cfg w s) = hook s"
  "tap_ready (applyAll cfg w s) = tap_ready s"
  "sp_installed (applyAll cfg w s) = sp_installed s"
  "sp_patched (applyAll cfg w s) = sp_patched s"
  "sp_lastError (applyAll cfg w s) = sp_lastError s"
  "spotifyExperimentalEnabled (applyAll cfg w s) = spotifyExperimentalEnabled s"
  "wired (bus (applyAll cfg w s)) = wired (bus s)"
  "bus_inputs (bus (applyAll cfg w s)) = bus_inputs (bus s)"
  "length (bus_eq (bus (applyAll cfg w s))) = length (bus_eq (bus s))"
  by (simp_all add: applyAll_def Let_def applySpotifyUiVolumeMute_def
      applySoundCloudUiVolumeMute_def bus_setters_frame)

lemma applyAll_sp_tap:
  "sp_tap (applyAll cfg w s) = sp_tap s \<or>
   (\<exists>p. sp_tap (applyAll cfg w s) = onSettings (to_num cfg) p (sp_tap s))"
  by (auto simp add: applyAll_def Let_def applySpotifyUiVolumeMute_def
      applySoundCloudUiVolumeMute_def)

lemma installMediaHooks_frame:
  "eqDb (ctl (installMediaHooks cfg w s)) = eqDb (ctl s)"
  "c_volumePercent (ctl (installMediaHooks cfg w s)) = c_volumePercent (ctl s)"
  "c_muted (ctl (installMediaHooks cfg w s)) = c_muted (ctl s)"
  "c_mode (ctl (installMediaHooks cfg w s)) = c_mode (ctl s)"
  "spotifyExperimental (ctl (installMediaHooks cfg w s)) = spotifyExperimental (ctl s)"
  "started (ctl (installMediaHooks cfg w s)) = started (ctl s)"
  "sp_tap (installMediaHooks cfg w s) = sp_tap s"
  "tap_ready (installMediaHooks cfg w s) = tap_ready s"
  "sp_installed (installMediaHooks cfg w s) = sp_installed s"
  "sp_patched (installMediaHooks cfg w s) = sp_patched s"
  "spotifyExperimentalEnabled (installMediaHooks cfg w s) = spotifyExperimentalEnabled s"
  by (simp_all add: installMediaHooks_def Let_def hook_scan_frame)

lemma installMediaHooks_inUse:
  "inUse (guard s) \<Longrightarrow> inUse (guard (installMediaHooks cfg w s))"
  by (simp add: installMediaHooks_def Let_def hook_scan_inUse)

lemma start_started: "started (ctl s) \<Longrightarrow> start cfg w s = s"
  by (simp add: start_def)

lemma start_frame:
  "eqDb (ctl (start cfg w s)) = eqDb (ctl s)"
  "c_volumePercent (ctl (start cfg w s)) = c_volumePercent (ctl s)"
  "c_muted (ctl (start cfg w s)) = c_muted (ctl s)"
  "c_mode (ctl (start cfg w s)) = c_mode (ctl s)"
  "spotifyExperimental (ctl (start cfg w s)) = spotifyExperimental (ctl s)"
  "tap_ready (start cfg w s) = tap_ready s"
  "spotifyExperimentalEnabled (start cfg w s) = spotifyExperimentalEnabled s"
  "started (ctl (start cfg w s))"
  by (simp_all add: start_def Let_def applyAll_frame installMediaHooks_frame sp_install_frame)

lemma start_inUse: "inUse (guard s) \<Longrightarrow> inUse (guard (start cfg w s))"
  by (simp add: start_def Let_def applyAll_frame installMediaHooks_inUse sp_install_frame)

lemma setters_inUse:
  assumes "inUse (guard s)"
  shows "inUse (guard (setVolumePercent cfg w v s))"
    and "inUse (guard (setMuted cfg w v s))"
    and "inUse (guard (setMode cfg w v s))"
    and "inUse (guard (setEqDb cfg w a s))"
  using assms
  by (simp_all add: setVolumePercent_def setMuted_def setMode_def setEqDb_def applyAll_frame
      start_inUse)

lemma setters_eqDb:
  "eqDb (ctl (setVolumePercent cfg w v s)) = eqDb (ctl s)"
  "eqDb (ctl (setMuted cfg w v s)) = eqDb (ctl s)"
  "eqDb (ctl (setMode cfg w v s)) = eqDb (ctl s)"
  "eqDb (ctl (setEqDb cfg w a s)) = stored_eq (to_num cfg) a"
  by (simp_all add: setVolumePercent_def setMuted_def setMode_def setEqDb_def applyAll_frame
      start_frame)

section \<open>The equaliser vector\<close>

lemma length_slice_pad10 [simp]: "length (slice_pad10 a) = 10"
  by (simp add: slice_pad10_def Let_def)

lemma nth_slice_pad10:
  "i < 10 \<Longrightarrow> slice_pad10 a ! i = (if i < length a then a ! i else num 0)"
  by (simp add: slice_pad10_def Let_def nth_append)

lemma length_stored_eq [simp]: "length (stored_eq S arr) = 10"
  by (simp add: stored_eq_def)

lemma nth_stored_eq:
  "i < 10 \<Longrightarrow>
   stored_eq S (Some a) ! i =
     (if i < length a then
        (case Number S (a ! i) of Fin x \<Rightarrow> max (- 24) (min 24 x) | _ \<Rightarrow> - 24)
      else 0)"
  by (simp add: stored_eq_def nth_slice_pad10 clamp_def)

lemma stored_eq_None: "stored_eq S None = replicate 10 0"
  by (simp add: stored_eq_def slice_pad10_def clamp_def map_replicate_const [symmetric]
      del: replicate_eq_replicate)

lemma eq_storeSettings:
  "eq (storeSettings S p st) = (case p_eq p of Some a \<Rightarrow> stored_eq S (Some a) | None \<Rightarrow> eq st)"
  by (simp add: storeSettings_def stored_eq_def Let_def split: option.splits)

lemma eq_onSettings: "eq (onSettings S p st) = eq (storeSettings S p st)"
  by (simp add: onSettings_def Let_def)

lemma applyToSeen_length:
  assumes "\<And>x. m c = Some x \<Longrightarrow> length (eq_gains x) = 10"
    and "applyToSeen S st cs m c = Some y"
  shows "length (eq_gains y) = 10"
  using assms
proof (induction cs arbitrary: m)
  case Nil
  then show ?case by simp
next
  case (Cons a cs)
  let ?m = "case m a of Some ch \<Rightarrow> m(a \<mapsto> applySettings S st ch) | None \<Rightarrow> m"
  have "\<And>x. ?m c = Some x \<Longrightarrow> length (eq_gains x) = 10"
    using Cons.prems(1)
    by (auto simp add: length_eq_gains_applySettings split: option.splits if_splits)
  moreover have "applyToSeen S st cs ?m c = Some y"
    using Cons.prems(2) by simp
  ultimately show ?case
    by (rule Cons.IH)
qed

lemma chains_storeSettings [simp]: "chains (storeSettings S p st) = chains st"
  by (simp add: storeSettings_def Let_def)

lemma eq_inv_onSettings:
  assumes "eq_inv st"
  shows "eq_inv (onSettings S p st)"
proof -
  have len: "length (eq (onSettings S p st)) = 10"
    using assms by (simp add: eq_onSettings eq_storeSettings eq_inv_def split: option.splits)
  have "length (eq_gains y) = 10" if "chains (onSettings S p st) c = Some y" for c y
  proof (rule applyToSeen_length)
    show "applyToSeen S (storeSettings S p st) (seenContexts (storeSettings S p st))
        (chains st) c = Some y"
      using that by (simp add: onSettings_def Let_def)
    show "\<And>x. chains st c = Some x \<Longrightarrow> length (eq_gains x) = 10"
      using assms by (auto simp add: eq_inv_def split: option.splits dest: spec [of _ c])
  qed
  with len show ?thesis
    by (auto simp add: eq_inv_def split: option.splits)
qed

lemma eq_inv_nativeConnect: "eq_inv (fst (nativeConnect H n d st)) = eq_inv st"
  by (simp add: eq_inv_def nativeConnect_def)

lemma eq_inv_ensure:
  assumes "eq_inv st"
  shows "eq_inv (connectOutputOnce H c0 (fst (getChainFor S c0 st)) (snd (getChainFor S c0 st)))"
proof -
  have b: "length (eq_gains (applySettings S st buildChain)) = 10"
    by (simp add: length_eq_gains_applySettings buildChain_def)
  have g: "eq_inv (snd (getChainFor S c0 st))"
    and f: "length (eq_gains (fst (getChainFor S c0 st))) = 10"
    using assms b
    by (auto simp add: eq_inv_def getChainFor_def Let_def split: option.splits
        dest: spec [of _ c0])
  from g f show ?thesis
    by (auto simp add: eq_inv_def connectOutputOnce_def nativeConnect_def Let_def
        split: option.splits)
qed

lemma eq_inv_patchedConnect:
  assumes "eq_inv st"
  shows "eq_inv (fst (patchedConnect S H this dest st))"
    and "eq_inv (fst (spotify_patchedConnect S H this dest st))"
  using assms eq_inv_ensure [OF assms]
  by (auto simp add: patchedConnect_def spotify_patchedConnect_def Let_def split_def
      eq_inv_nativeConnect split: option.splits)

lemma eq_inv_tap_step:
  "eq_inv st \<Longrightarrow> eq_inv (tap_step S H st ev)"
  "eq_inv st \<Longrightarrow> eq_inv (spotify_tap_step S H st ev)"
  by (cases ev; simp add: eq_inv_patchedConnect eq_inv_onSettings)+

lemma eq_inv_tap_init: "eq_inv tap_init"
  by (simp add: eq_inv_def tap_init_def)

lemma eq_inv_tap_run:
  "eq_inv st \<Longrightarrow> eq_inv (tap_run S H evs st)"
  "eq_inv st \<Longrightarrow> eq_inv (spotify_tap_run S H evs st)"
  unfolding tap_run_def spotify_tap_run_def
  by (induction evs arbitrary: st; simp add: eq_inv_tap_step)+

section \<open>The equaliser vector of the Firefox 1.2 content script\<close>

lemma page_eq_inv_hook_element:
  "page_eq_inv s \<Longrightarrow> page_eq_inv (snd (hook_element cfg t e s))"
  by (simp add: page_eq_inv_def hook_element_frame hook_element_result)

lemma page_eq_inv_hook_scan:
  "page_eq_inv s \<Longrightarrow> page_eq_inv (hook_scan cfg t es s)"
  unfolding hook_scan_def
  by (induction es arbitrary: s) (simp_all add: page_eq_inv_hook_element)

lemma page_eq_inv_sp_install:
  "page_eq_inv s \<Longrightarrow> page_eq_inv (sp_install cfg s)"
  by (simp add: page_eq_inv_def sp_install_frame)

lemma page_eq_inv_applyAll:
  assumes "page_eq_inv s"
  shows "page_eq_inv (applyAll cfg w s)"
proof -
  have "eq_inv (sp_tap (applyAll cfg w s))"
    using applyAll_sp_tap [of cfg w s] assms
    by (auto simp add: page_eq_inv_def eq_inv_onSettings)
  with assms show ?thesis
    by (simp add: page_eq_inv_def applyAll_frame)
qed

lemma page_eq_inv_ctl:
  "page_eq_inv s \<Longrightarrow> length (eqDb c) = 10 \<Longrightarrow> page_eq_inv (s\<lparr>ctl := c\<rparr>)"
  by (simp add: page_eq_inv_def)

lemma page_eq_inv_start:
  assumes "page_eq_inv s"
  shows "page_eq_inv (start cfg w s)"
proof -
  have a: "page_eq_inv (s\<lparr>ctl := (ctl s)\<lparr>started := True\<rparr>\<rparr>)"
    using assms by (simp add: page_eq_inv_def)
  have "page_eq_inv (installMediaHooks cfg w s')" if "page_eq_inv s'" for s'
    using page_eq_inv_hook_scan [OF that, of cfg "now w" "doc w"] that
    by (auto simp add: installMediaHooks_def Let_def page_eq_inv_def)
  with a show ?thesis
    by (simp add: start_def Let_def page_eq_inv_applyAll page_eq_inv_sp_install assms)
qed

lemma page_eq_inv_setters:
  assumes "page_eq_inv s"
  shows "page_eq_inv (setVolumePercent cfg w v s)"
    and "page_eq_inv (setMuted cfg w v s)"
    and "page_eq_inv (setMode cfg w v s)"
    and "page_eq_inv (setEqDb cfg w a s)"
  using assms
  by (simp_all add: setVolumePercent_def setMuted_def setMode_def setEqDb_def
      page_eq_inv_applyAll page_eq_inv_start page_eq_inv_ctl page_eq_inv_def [of s])

lemma page_eq_inv_store: "page_eq_inv (store v s) = page_eq_inv s"
  by (simp add: store_def page_eq_inv_def)

lemma page_eq_inv_onMessage:
  "page_eq_inv s \<Longrightarrow> page_eq_inv (fst (onMessage cfg w m s))"
  by (cases m)
    (simp_all add: Let_def page_eq_inv_store page_eq_inv_setters page_eq_inv_start)

lemma page_eq_inv_set_experimental:
  "page_eq_inv s \<Longrightarrow> page_eq_inv (set_experimental cfg e s)"
  by (simp add: set_experimental_def Let_def page_eq_inv_sp_install page_eq_inv_def sp_install_frame)

lemma page_eq_inv_storage:
  assumes "page_eq_inv s"
  shows "page_eq_inv (onStorageLoaded cfg w d s)"
    and "page_eq_inv (onStorageChanged cfg w v s)"
  using assms
  by (simp_all add: onStorageLoaded_def onStorageChanged_def Let_def page_eq_inv_setters
      page_eq_inv_set_experimental page_eq_inv_applyAll page_eq_inv_start)

lemma page_eq_inv_onAdded:
  "page_eq_inv s \<Longrightarrow> page_eq_inv (foldl (onAdded cfg t) s ns)"
proof (induction ns arbitrary: s)
  case Nil
  then show ?case by simp
next
  case (Cons n ns)
  have "page_eq_inv (onAdded cfg t s n)"
    using Cons.prems by (cases n) (simp_all add: page_eq_inv_hook_element page_eq_inv_hook_scan)
  then show ?case
    using Cons.IH by simp
qed

lemma page_eq_inv_step:
  assumes "page_eq_inv s"
  shows "page_eq_inv (step cfg s we)"
proof (cases we)
  case (Pair w ev)
  show ?thesis
  proof (cases ev)
    case (Message m)
    with Pair assms show ?thesis by (simp add: page_eq_inv_onMessage)
  next
    case (StorageLoaded d)
    with Pair assms show ?thesis by (simp add: page_eq_inv_storage)
  next
    case (StorageChanged v)
    with Pair assms show ?thesis by (simp add: page_eq_inv_storage)
  next
    case (NodesAdded ns)
    with Pair assms show ?thesis by (simp add: page_eq_inv_onAdded)
  next
    case (Play e)
    with Pair assms show ?thesis by (simp add: page_eq_inv_hook_element)
  next
    case (RetryFired k e)
    have "page_eq_inv (s\<lparr>hook := h\<rparr>)" for h
      using assms by (simp add: page_eq_inv_def)
    with Pair RetryFired assms show ?thesis
      by (simp add: page_eq_inv_hook_element)
  next
    case (PageConnect n c d)
    with Pair assms show ?thesis
      by (simp add: page_eq_inv_def eq_inv_patchedConnect)
  qed (use Pair assms in \<open>simp_all add: page_eq_inv_def\<close>)
qed

lemma page_eq_inv_init: "page_eq_inv (page_init cfg)"
  by (simp add: page_eq_inv_def page_init_def eq_inv_tap_init)

lemma page_eq_inv_run: "page_eq_inv s \<Longrightarrow> page_eq_inv (run cfg evs s)"
  unfolding run_def
  by (induction evs arbitrary: s) (simp_all add: page_eq_inv_step)

section \<open>Binding sources: the order of the strategies\<close>

lemma MediaHook_makeSource_el:
  "fst (MediaHook_makeSource b e ns) = Some n \<Longrightarrow> source_el n = el_id e"
  by (auto simp add: fst_makeSource split: if_splits dest: capture_source_el)

lemma made_source_el: "made_source e = Some n \<Longrightarrow> source_el n = el_id e"
  unfolding made_source_def by (rule MediaHook_makeSource_el)






section \<open>Binding is idempotent\<close>

lemma hook_inv_cong:
  assumes "hook_inv s"
    and "bus_inputs (bus s') = bus_inputs (bus s)"
    and "wired (bus s) \<longrightarrow> wired (bus s')"
    and "sources (hook s') = sources (hook s)"
    and "hookedCount (hook s') = hookedCount (hook s)"
  shows "hook_inv s'"
proof -
  from assms(1) have d: "distinct (map source_el (bus_inputs (bus s)))"
    and c: "hookedCount (hook s) = length (bus_inputs (bus s))"
    and m: "\<And>x. (sources (hook s) x \<noteq> None) = (x \<in> source_el ` set (bus_inputs (bus s)))"
    and w: "bus_inputs (bus s) = [] \<or> wired (bus s)"
    unfolding hook_inv_def by blast+
  show ?thesis
    unfolding hook_inv_def assms(2,4,5)
    using d c m w assms(3) by blast
qed

lemma hook_inv_bind:
  assumes "hook_inv s"
    and "bus_inputs (bus s') = bus_inputs (bus s) @ [n]"
    and "wired (bus s')"
    and "sources (hook s') = (sources (hook s))(source_el n \<mapsto> n)"
    and "hookedCount (hook s') = hookedCount (hook s) + 1"
    and "sources (hook s) (source_el n) = None"
  shows "hook_inv s'"
proof -
  from assms(1) have d: "distinct (map source_el (bus_inputs (bus s)))"
    and c: "hookedCount (hook s) = length (bus_inputs (bus s))"
    and m: "\<And>x. (sources (hook s) x \<noteq> None) = (x \<in> source_el ` set (bus_inputs (bus s)))"
    unfolding hook_inv_def by blast+
  have fresh: "source_el n \<notin> source_el ` set (bus_inputs (bus s))"
    using m [of "source_el n"] assms(6) by simp
  have "distinct (map source_el (bus_inputs (bus s')))"
    using d fresh by (simp add: assms(2))
  moreover have "hookedCount (hook s') = length (bus_inputs (bus s'))"
    using c by (simp add: assms(2,5))
  moreover have "(sources (hook s') x \<noteq> None) = (x \<in> source_el ` set (bus_inputs (bus s')))" for x
    using m [of x] by (simp add: assms(2,4))
  ultimately show ?thesis
    using assms(3) by (simp add: hook_inv_def)
qed

lemma hook_inv_hook_element:
  assumes "hook_inv s"
  shows "hook_inv (snd (hook_element cfg t e s))"
proof (cases "binds cfg e s")
  case False
  with assms show ?thesis
    by (elim hook_inv_cong) (simp_all add: hook_element_result)
next
  case True
  then obtain n where n: "made_source e = Some n"
    by (auto simp add: binds_def)
  have el: "source_el n = el_id e"
    using n by (rule made_source_el)
  have w: "wired (bus s) \<or> is_media e \<and> has_AudioContext cfg"
    and u: "sources (hook s) (el_id e) = None"
    using True by (auto simp add: binds_def)
  from assms show ?thesis
    by (rule hook_inv_bind [where n = n]) (simp_all add: hook_element_result True n el w u)
qed

lemma hook_inv_hook_scan: "hook_inv s \<Longrightarrow> hook_inv (hook_scan cfg t es s)"
  unfolding hook_scan_def
  by (induction es arbitrary: s) (simp_all add: hook_inv_hook_element)

lemma hook_inv_applyAll: "hook_inv s \<Longrightarrow> hook_inv (applyAll cfg w s)"
  by (erule hook_inv_cong) (simp_all add: applyAll_frame)

lemma hook_inv_sp_install: "hook_inv s \<Longrightarrow> hook_inv (sp_install cfg s)"
  by (erule hook_inv_cong) (simp_all add: sp_install_frame)

lemma hook_inv_ctl: "hook_inv (s\<lparr>ctl := c\<rparr>) = hook_inv s"
  by (simp add: hook_inv_def)

lemma hook_inv_start: "hook_inv s \<Longrightarrow> hook_inv (start cfg w s)"
  by (simp add: start_def Let_def installMediaHooks_def hook_inv_applyAll hook_inv_sp_install
      hook_inv_ctl hook_inv_hook_scan)

lemma hook_inv_setters:
  assumes "hook_inv s"
  shows "hook_inv (setVolumePercent cfg w v s)"
    and "hook_inv (setMuted cfg w v s)"
    and "hook_inv (setMode cfg w v s)"
    and "hook_inv (setEqDb cfg w a s)"
  using assms
  by (simp_all add: setVolumePercent_def setMuted_def setMode_def setEqDb_def
      hook_inv_applyAll hook_inv_start hook_inv_ctl)

lemma hook_inv_store: "hook_inv (store v s) = hook_inv s"
  by (simp add: store_def hook_inv_def)

lemma hook_inv_onMessage: "hook_inv s \<Longrightarrow> hook_inv (fst (onMessage cfg w m s))"
  by (cases m) (simp_all add: Let_def hook_inv_store hook_inv_setters hook_inv_start)

lemma hook_inv_set_experimental: "hook_inv s \<Longrightarrow> hook_inv (set_experimental cfg e s)"
  by (simp add: set_experimental_def Let_def hook_inv_def sp_install_frame)

lemma hook_inv_storage:
  assumes "hook_inv s"
  shows "hook_inv (onStorageLoaded cfg w d s)"
    and "hook_inv (onStorageChanged cfg w v s)"
  using assms
  by (simp_all add: onStorageLoaded_def onStorageChanged_def Let_def hook_inv_setters
      hook_inv_set_experimental hook_inv_applyAll hook_inv_start)

lemma hook_inv_onAdded: "hook_inv s \<Longrightarrow> hook_inv (foldl (onAdded cfg t) s ns)"
proof (induction ns arbitrary: s)
  case Nil
  then show ?case by simp
next
  case (Cons n ns)
  have "hook_inv (onAdded cfg t s n)"
    using Cons.prems by (cases n) (simp_all add: hook_inv_hook_element hook_inv_hook_scan)
  then show ?case
    using Cons.IH by simp
qed

lemma hook_inv_step:
  assumes "hook_inv s"
  shows "hook_inv (step cfg s we)"
proof (cases we)
  case (Pair w ev)
  show ?thesis
  proof (cases ev)
    case (Message m)
    with Pair assms show ?thesis by (simp add: hook_inv_onMessage)
  next
    case (StorageLoaded d)
    with Pair assms show ?thesis by (simp add: hook_inv_storage)
  next
    case (StorageChanged v)
    with Pair assms show ?thesis by (simp add: hook_inv_storage)
  next
    case (NodesAdded ns)
    with Pair assms show ?thesis by (simp add: hook_inv_onAdded)
  next
    case (Play e)
    with Pair assms show ?thesis by (simp add: hook_inv_hook_element)
  next
    case (RetryFired k e)
    have "hook_inv (s\<lparr>hook := (hook s)\<lparr>retry_listeners := l, pendingRetry := p\<rparr>\<rparr>)" for l p
      using assms by (simp add: hook_inv_def)
    with Pair RetryFired assms show ?thesis
      by (simp add: hook_inv_hook_element)
  qed (use Pair assms in \<open>simp_all add: hook_inv_def\<close>)
qed

lemma hook_inv_init: "hook_inv (page_init cfg)"
  by (simp add: hook_inv_def page_init_def)

lemma hook_inv_run: "hook_inv s \<Longrightarrow> hook_inv (run cfg evs s)"
  unfolding run_def
  by (induction evs arbitrary: s) (simp_all add: hook_inv_step)

lemma hook_element_bound:
  assumes "hook_inv s" and "sources (hook s) (el_id e) \<noteq> None"
  shows "bus (snd (hook_element cfg t e s)) = bus s"
    and "hook (snd (hook_element cfg t e s)) = hook s"
    and "fst (hook_element cfg t e s) = is_media e"
proof -
  from assms(2) obtain n where b: "sources (hook s) (el_id e) = Some n"
    by auto
  have w: "wired (bus s)"
    using assms by (auto simp add: hook_inv_def)
  show "bus (snd (hook_element cfg t e s)) = bus s"
    and "hook (snd (hook_element cfg t e s)) = hook s"
    and "fst (hook_element cfg t e s) = is_media e"
    by (simp_all add: hook_element_def ensure_def Let_def split_def b w)
qed

lemma hook_element_success:
  "fst (hook_element cfg t e s) \<Longrightarrow> sources (hook (snd (hook_element cfg t e s))) (el_id e) \<noteq> None"
  by (auto simp add: hook_element_result binds_def)

lemma yt_chains_inv_step:
  assumes "distinct (chains_built s)" and "set (chains_built s) \<subseteq> hooked_mark s"
  shows "distinct (chains_built (hookElementYouTube y a e s))
    \<and> set (chains_built (hookElementYouTube y a e s)) \<subseteq> hooked_mark (hookElementYouTube y a e s)"
  using assms
  by (auto simp add: hookElementYouTube_def Let_def split: option.splits)

lemma yt_chains_inv_run:
  assumes "distinct (chains_built s)" and "set (chains_built s) \<subseteq> hooked_mark s"
  shows "distinct (chains_built (yt_hooks y a es s))
    \<and> set (chains_built (yt_hooks y a es s)) \<subseteq> hooked_mark (yt_hooks y a es s)"
  using assms unfolding yt_hooks_def
proof (induction es arbitrary: s)
  case Nil
  then show ?case by simp
next
  case (Cons e es)
  from yt_chains_inv_step [OF Cons.prems, of y a e] Cons.IH show ?case
    by simp
qed

lemma yt_step_potential:
  "count_list (chains_built (yt_step y a s ev)) x + yt_slack (yt_step y a s ev) x
     \<le> count_list (chains_built s) x + yt_slack s x + ended_count x [ev]"
proof (cases ev)
  case (YtHook e)
  then show ?thesis
    by (simp add: hookElementYouTube_def yt_slack_def ended_count_def Let_def
        split: option.splits)
next
  case (YtEnded z)
  then show ?thesis
    by (simp add: yt_cleanup_def yt_slack_def ended_count_def)
qed

lemma ended_count_Cons: "ended_count x (ev # evs) = ended_count x [ev] + ended_count x evs"
  by (simp add: ended_count_def)

lemma yt_run_potential:
  "count_list (chains_built (yt_run y a evs s)) x + yt_slack (yt_run y a evs s) x
     \<le> count_list (chains_built s) x + yt_slack s x + ended_count x evs"
  unfolding yt_run_def
proof (induction evs arbitrary: s)
  case Nil
  then show ?case by (simp add: ended_count_def)
next
  case (Cons ev evs)
  from Cons.IH [of "yt_step y a s ev"] yt_step_potential [of y a s ev x]
  show ?case
    by (simp add: ended_count_Cons [of x ev evs])
qed

lemma yt_chains_bounded:
  "count_list (chains_built (yt_run y a evs yt_init)) x \<le> Suc (ended_count x evs)"
  using yt_run_potential [of y a evs yt_init x]
  by (simp add: yt_init_def yt_slack_def)

section \<open>An example run of the Firefox 1.2 content script\<close>

lemma binds_elem_both: "binds cfg_plain elem_both (page_init cfg_plain\<lparr>ctl := c\<rparr>)"
  by (simp add: binds_def cfg_plain_def elem_both_def page_init_def made_source_eq)

lemma page_after_getState_eq:
  "page_after_getState =
     applyAll cfg_plain world1
       ((snd (hook_element cfg_plain 0 elem_both
          (page_init cfg_plain\<lparr>ctl := (ctl (page_init cfg_plain))\<lparr>started := True\<rparr>\<rparr>)))
        \<lparr>ctl := (ctl (page_init cfg_plain))\<lparr>started := True, observer := True\<rparr>\<rparr>)"
  by (simp add: page_after_getState_def run_def start_def installMediaHooks_def hook_scan_def
      Let_def world1_def hook_element_frame)
    (simp add: page_init_def cfg_plain_def IS_SPOTIFY_def)

lemma page_after_getState_facts:
  "bus_inputs (bus page_after_getState) = [MediaElementSource 1]"
  "sources (hook page_after_getState) 1 = Some (MediaElementSource 1)"
  "hookedCount (hook page_after_getState) = 1"
  "observer (ctl page_after_getState)"
  "started (ctl page_after_getState)"
  "wired (bus page_after_getState)"
proof -
  have m: "made_source elem_both = Some (MediaElementSource 1)"
    by (simp add: made_source_eq elem_both_def)
  have i: "el_id elem_both = 1" "is_media elem_both"
    by (simp_all add: elem_both_def)
  have p: "bus_inputs (bus (page_init cfg_plain)) = []"
    "hookedCount (hook (page_init cfg_plain)) = 0" "has_AudioContext cfg_plain"
    by (simp_all add: page_init_def cfg_plain_def)
  show "bus_inputs (bus page_after_getState) = [MediaElementSource 1]"
    "sources (hook page_after_getState) 1 = Some (MediaElementSource 1)"
    "hookedCount (hook page_after_getState) = 1"
    "observer (ctl page_after_getState)"
    "started (ctl page_after_getState)"
    "wired (bus page_after_getState)"
    by (simp_all add: page_after_getState_eq applyAll_frame hook_element_result
        binds_elem_both m i p)
qed

section \<open>Idempotent binding over all events\<close>

lemma hookElementYouTube_bound:
  "mediaMap s (el_id e) \<noteq> None \<Longrightarrow> hookElementYouTube y a e s = s"
  by (simp add: hookElementYouTube_def)

text \<open>
  In the Firefox 1.2 content script, after any sequence of events, no element has more
  than one source node connected into the bus, and \<open>hookedCount\<close> counts these nodes. A
  call of \<open>hook\<close> on an element that has a source changes neither the bus nor the hook
  and answers \<open>true\<close>; so when a call of \<open>hook\<close> binds or finds the element bound, a
  second call for the same element, whatever the element looks like then, binds
  nothing. In the Chrome content script, a sequence of calls of \<open>hookElementYouTube\<close> with
  no \<open>ended\<close> or \<open>emptied\<close> in between builds at most one chain for an element, and a call
  on an element that is in \<open>mediaMap\<close> changes nothing; with these events, an element has
  at most one chain more than the number of times it ended.
\<close>

lemma hook_bound_once:
  "(let s = run cfg evs (page_init cfg);
        s1 = snd (hook_element cfg t e s);
        s2 = snd (hook_element cfg t' e' s1)
    in distinct (map source_el (bus_inputs (bus s)))
       \<and> hookedCount (hook s) = length (bus_inputs (bus s))
       \<and> (sources (hook s) (el_id e) \<noteq> None \<longrightarrow>
            bus s1 = bus s \<and> hook s1 = hook s \<and> fst (hook_element cfg t e s) = is_media e)
       \<and> (el_id e' = el_id e \<and> fst (hook_element cfg t e s) \<longrightarrow>
            bus s2 = bus s1 \<and> hook s2 = hook s1))
   \<and> distinct (chains_built (yt_hooks y a es yt_init))
   \<and> count_list (chains_built (yt_run y a yevs yt_init)) x \<le> Suc (ended_count x yevs)
   \<and> (mediaMap ys (el_id e) \<noteq> None \<longrightarrow> hookElementYouTube y a e ys = ys)
   \<and> (el_id e' = el_id e \<and> mediaMap (hookElementYouTube y a e ys) (el_id e) \<noteq> None \<longrightarrow>
        hookElementYouTube y a e' (hookElementYouTube y a e ys) = hookElementYouTube y a e ys)"
proof -
  let ?s = "run cfg evs (page_init cfg)"
  let ?s1 = "snd (hook_element cfg t e ?s)"
  have inv: "hook_inv ?s"
    by (simp add: hook_inv_run hook_inv_init)
  have inv1: "hook_inv ?s1"
    using inv by (rule hook_inv_hook_element)
  have a: "distinct (map source_el (bus_inputs (bus ?s)))"
    "hookedCount (hook ?s) = length (bus_inputs (bus ?s))"
    using inv by (simp_all add: hook_inv_def)
  have b: "sources (hook ?s) (el_id e) \<noteq> None \<longrightarrow>
      bus ?s1 = bus ?s \<and> hook ?s1 = hook ?s \<and> fst (hook_element cfg t e ?s) = is_media e"
    using hook_element_bound [OF inv, of e cfg t] by blast
  have c: "el_id e' = el_id e \<and> fst (hook_element cfg t e ?s) \<longrightarrow>
      bus (snd (hook_element cfg t' e' ?s1)) = bus ?s1 \<and>
      hook (snd (hook_element cfg t' e' ?s1)) = hook ?s1"
  proof
    assume h: "el_id e' = el_id e \<and> fst (hook_element cfg t e ?s)"
    then have "sources (hook ?s1) (el_id e') \<noteq> None"
      using hook_element_success [of cfg t e ?s] by simp
    from hook_element_bound(1,2) [OF inv1 this]
    show "bus (snd (hook_element cfg t' e' ?s1)) = bus ?s1 \<and>
      hook (snd (hook_element cfg t' e' ?s1)) = hook ?s1"
      by simp
  qed
  have d: "distinct (chains_built (yt_hooks y a es yt_init))"
    using yt_chains_inv_run [of yt_init y a es] by (simp add: yt_init_def)
  have f: "mediaMap ys (el_id e) \<noteq> None \<longrightarrow> hookElementYouTube y a e ys = ys"
    by (simp add: hookElementYouTube_bound)
  have g: "el_id e' = el_id e \<and> mediaMap (hookElementYouTube y a e ys) (el_id e) \<noteq> None \<longrightarrow>
        hookElementYouTube y a e' (hookElementYouTube y a e ys) = hookElementYouTube y a e ys"
    using hookElementYouTube_bound [of "hookElementYouTube y a e ys" e' y a] by auto
  from a b c d f g yt_chains_bounded [of y a yevs x] show ?thesis
    by (simp add: Let_def)
qed

lemma hook_bound_once_example:
  "sources (hook page_after_getState) (el_id elem_both) \<noteq> None
   \<and> bus (snd (hook_element cfg_plain 5 elem_both page_after_getState)) = bus page_after_getState
   \<and> bus_inputs (bus page_after_getState) = [MediaElementSource 1]
   \<and> el_id (elem_both\<lparr>direct_ok := False\<rparr>) = el_id elem_both
   \<and> fst (hook_element cfg_plain 5 elem_both page_after_getState)
   \<and> bus_inputs (bus (snd (hook_element cfg_plain 6 (elem_both\<lparr>direct_ok := False\<rparr>)
        (snd (hook_element cfg_plain 5 elem_both page_after_getState))))) = [MediaElementSource 1]
   \<and> mediaMap (hookElementYouTube True True elem_both yt_init) (el_id elem_both) \<noteq> None
   \<and> chains_built (hookElementYouTube True True (elem_both\<lparr>direct_ok := False\<rparr>)
        (hookElementYouTube True True elem_both yt_init)) = [1]
   \<and> hookElementYouTube True True elem_both (hookElementYouTube True True elem_both yt_init) =
        hookElementYouTube True True elem_both yt_init"
proof -
  have i: "el_id elem_both = 1" "is_media elem_both"
    "el_id (elem_both\<lparr>direct_ok := False\<rparr>) = el_id elem_both"
    by (simp_all add: elem_both_def)
  have y: "mediaMap (hookElementYouTube True True elem_both yt_init) (el_id elem_both) \<noteq> None"
    "chains_built (hookElementYouTube True True elem_both yt_init) = [1]"
    by (simp_all add: hookElementYouTube_def yt_init_def elem_both_def fst_makeSource
        capture_source_def Let_def)
  from hook_bound_once [of cfg_plain "[(world1, Message GetState)]" 5 elem_both 6
      "elem_both\<lparr>direct_ok := False\<rparr>" True True "[]" "[]" 1 yt_init]
    hook_bound_once [of cfg_plain "[]" 5 elem_both 6 elem_both True True "[]" "[]" 1
      "hookElementYouTube True True elem_both yt_init"]
  show ?thesis
    using i y page_after_getState_facts
    by (simp add: Let_def page_after_getState_def [symmetric])
qed


text \<open>
  Claim C5 does not hold in the Chrome content script. \<open>hookElementYouTube\<close> binds a
  video element on which the capture succeeds: one chain. A second call changes
  nothing. Then the element fires \<open>ended\<close> (or \<open>emptied\<close>): \<open>cleanup\<close> takes it out of
  \<open>mediaMap\<close> and removes the mark, and disconnects nothing, so the chain stays connected
  to the destination. The next scan calls \<open>hookElementYouTube\<close> on the same element
  again, which captures a second stream and builds and connects a second chain for it:
  the element is bound twice.
\<close>

theorem rehook_after_ended_binds_twice:
  "chains_built (yt_run True True [YtHook elem_both] yt_init) = [1]
   \<and> chains_built (yt_run True True [YtHook elem_both, YtHook elem_both] yt_init) = [1]
   \<and> chains_built (yt_run True True [YtHook elem_both, YtEnded 1] yt_init) = [1]
   \<and> mediaMap (yt_run True True [YtHook elem_both, YtEnded 1] yt_init) 1 = None
   \<and> 1 \<notin> hooked_mark (yt_run True True [YtHook elem_both, YtEnded 1] yt_init)
   \<and> chains_built (yt_run True True [YtHook elem_both, YtEnded 1, YtHook elem_both] yt_init) =
        [1, 1]
   \<and> yt_sources (yt_run True True [YtHook elem_both, YtEnded 1, YtHook elem_both] yt_init) =
        [MediaStreamSource 1, MediaStreamSource 1]"
  by (simp add: yt_run_def hookElementYouTube_def yt_cleanup_def yt_init_def elem_both_def
      makeSourceForElement_def capture_tap_def capture_source_def Let_def)
section \<open>Capability is sticky\<close>

lemma getState_fields:
  "r_volume (getState cfg w s) = c_volumePercent (ctl s)"
  "r_muted (getState cfg w s) = c_muted (ctl s)"
  "r_mode (getState cfg w s) = c_mode (ctl s)"
  "r_eq (getState cfg w s) = eqDb (ctl s)"
  "r_hooked (getState cfg w s) = hookedCount (hook s)"
  "r_drm (getState cfg w s) = (IS_SPOTIFY cfg \<and> inUse (guard s))"
  "r_blockedEffects (getState cfg w s) = (IS_SPOTIFY cfg \<and> inUse (guard s))"
  "r_blockReason (getState cfg w s) =
     (if IS_SPOTIFY cfg \<and> inUse (guard s) then Some protected_reason else None)"
  "r_canBoost (getState cfg w s) =
     (\<not> (IS_SPOTIFY cfg \<and> inUse (guard s)) \<and>
      (wired (bus s) \<and> hookedCount (hook s) > 0 \<or> tap_ready s \<or>
       IS_SPOTIFY cfg \<and> spotifyExperimental (ctl s) \<and> engaged s))"
  by (auto simp add: getState_def Let_def)

lemma store_guard [simp]: "guard (store v s) = guard s"
  by (simp add: store_def)

lemma onMessage_inUse:
  "inUse (guard s) \<Longrightarrow> inUse (guard (fst (onMessage cfg w m s)))"
  by (cases m) (simp_all add: Let_def setters_inUse start_inUse)

lemma set_experimental_guard [simp]: "guard (set_experimental cfg e s) = guard s"
  by (simp add: set_experimental_def Let_def sp_install_frame)

lemma storage_inUse:
  assumes "inUse (guard s)"
  shows "inUse (guard (onStorageLoaded cfg w d s))"
    and "inUse (guard (onStorageChanged cfg w v s))"
  using assms
  by (simp_all add: onStorageLoaded_def onStorageChanged_def Let_def setters_inUse
      start_inUse applyAll_frame)

lemma onAdded_inUse:
  "inUse (guard s) \<Longrightarrow> inUse (guard (foldl (onAdded cfg t) s ns))"
proof (induction ns arbitrary: s)
  case Nil
  then show ?case by simp
next
  case (Cons n ns)
  have "inUse (guard (onAdded cfg t s n))"
    using Cons.prems by (cases n) (simp_all add: hook_element_inUse hook_scan_inUse)
  then show ?case
    using Cons.IH by simp
qed

lemma step_inUse:
  assumes "inUse (guard s)"
  shows "inUse (guard (step cfg s we))"
proof (cases we)
  case (Pair w ev)
  show ?thesis
  proof (cases ev)
    case (Message m)
    with Pair assms show ?thesis by (simp add: onMessage_inUse)
  next
    case (StorageLoaded d)
    with Pair assms show ?thesis by (simp add: storage_inUse)
  next
    case (StorageChanged v)
    with Pair assms show ?thesis by (simp add: storage_inUse)
  next
    case (NodesAdded ns)
    with Pair assms show ?thesis by (simp add: onAdded_inUse)
  next
    case (Play e)
    with Pair assms show ?thesis by (simp add: hook_element_inUse)
  next
    case (RetryFired k e)
    with Pair assms show ?thesis by (simp add: hook_element_inUse)
  next
    case DrmTick
    with Pair assms show ?thesis by (simp add: drm_tick_inUse)
  next
    case DrmTimeout
    with Pair assms show ?thesis by (simp add: drm_scan_inUse)
  qed (use Pair assms in \<open>simp_all add: mark_inUse\<close>)
qed

lemma run_inUse: "inUse (guard s) \<Longrightarrow> inUse (guard (run cfg evs s))"
  unfolding run_def
  by (induction evs arbitrary: s) (simp_all add: step_inUse)

lemma watchElement_mediaKeys:
  "has_mediaKeys e \<Longrightarrow> el_id e \<notin> watched g \<Longrightarrow> inUse (watchElement t e g)"
  by (simp add: watchElement_def inspectElement_def mark_def Let_def)

lemma hook_element_mediaKeys:
  assumes "IS_SPOTIFY cfg" "is_media e" "has_mediaKeys e" "el_id e \<notin> watched (guard s)"
  shows "inUse (guard (snd (hook_element cfg t e s)))"
  using assms watchElement_mediaKeys [of e "guard s" t]
  by (simp add: hook_element_def Let_def split_def split: option.splits)

text \<open>
  Claim C7. The restricted state of a page is \<open>blockedEffects\<close> of \<open>getState\<close>, which
  comes with a reason; \<open>canBoost\<close> is then false. A freshly loaded script is not
  restricted. On Spotify an \<open>encrypted\<close> event, on the document or on a watched
  element, or a media element with \<open>mediaKeys\<close> seen for the first time, makes the page
  restricted. Once the page is restricted it stays restricted, with \<open>canBoost\<close> false
  and the reason given, after every sequence of events; in particular after a call of
  \<open>hook\<close> that binds a new source.
\<close>

theorem capability_sticky:
  "(r_blockedEffects (getState cfg w s) \<longrightarrow>
      r_blockedEffects (getState cfg w' (run cfg evs s)) \<and>
      \<not> r_canBoost (getState cfg w' (run cfg evs s)) \<and>
      r_blockReason (getState cfg w' (run cfg evs s)) = Some protected_reason)
   \<and> (r_blockedEffects (getState cfg w s) \<and> binds cfg e s \<longrightarrow>
      fst (hook_element cfg t e s) \<and>
      r_blockedEffects (getState cfg w' (snd (hook_element cfg t e s))) \<and>
      \<not> r_canBoost (getState cfg w' (snd (hook_element cfg t e s))))
   \<and> (inUse (guard s) \<longrightarrow> inUse (guard (run cfg evs s)))
   \<and> \<not> r_blockedEffects (getState cfg w (page_init cfg))
   \<and> (IS_SPOTIFY cfg \<longrightarrow> r_blockedEffects (getState cfg w' (step cfg s (w, DocEncrypted))))
   \<and> (IS_SPOTIFY cfg \<and> x \<in> encrypted_listeners (guard s) \<longrightarrow>
      r_blockedEffects (getState cfg w' (step cfg s (w, EncryptedFired x))))
   \<and> (IS_SPOTIFY cfg \<and> is_media e \<and> has_mediaKeys e \<and> el_id e \<notin> watched (guard s) \<longrightarrow>
      r_blockedEffects (getState cfg w' (snd (hook_element cfg t e s))))"
proof -
  have a: "inUse (guard s) \<longrightarrow> inUse (guard (run cfg evs s))"
    by (simp add: run_inUse)
  have b: "inUse (guard s) \<longrightarrow> inUse (guard (snd (hook_element cfg t e s)))"
    by (simp add: hook_element_inUse)
  have c: "binds cfg e s \<longrightarrow> fst (hook_element cfg t e s)"
    by (simp add: hook_element_result)
  have d: "\<not> inUse (guard (page_init cfg))"
    by (simp add: page_init_def)
  have f: "IS_SPOTIFY cfg \<and> is_media e \<and> has_mediaKeys e \<and> el_id e \<notin> watched (guard s) \<longrightarrow>
      inUse (guard (snd (hook_element cfg t e s)))"
    using hook_element_mediaKeys [of cfg e s t] by blast
  from a b c d f show ?thesis
    by (simp add: getState_fields mark_inUse)
qed

theorem capability_sticky_witness:
  "r_blockedEffects (getState cfg_spotify world0
      (step cfg_spotify (page_init cfg_spotify) (world0, DocEncrypted)))
   \<and> r_blockedEffects (getState cfg_spotify world1
      (run cfg_spotify [(world1, Play elem_both), (world0, Message (SetVolumeMsg (num 700)))]
        (step cfg_spotify (page_init cfg_spotify) (world0, DocEncrypted))))
   \<and> \<not> r_canBoost (getState cfg_spotify world1
      (run cfg_spotify [(world1, Play elem_both), (world0, Message (SetVolumeMsg (num 700)))]
        (step cfg_spotify (page_init cfg_spotify) (world0, DocEncrypted))))
   \<and> IS_SPOTIFY cfg_spotify
   \<and> binds cfg_spotify elem_both (step cfg_spotify (page_init cfg_spotify) (world0, DocEncrypted))
   \<and> fst (hook_element cfg_spotify 3 elem_both
        (step cfg_spotify (page_init cfg_spotify) (world0, DocEncrypted)))
   \<and> \<not> r_canBoost (getState cfg_spotify world1 (snd (hook_element cfg_spotify 3 elem_both
        (step cfg_spotify (page_init cfg_spotify) (world0, DocEncrypted)))))"
proof -
  let ?s = "step cfg_spotify (page_init cfg_spotify) (world0, DocEncrypted)"
  have sp: "IS_SPOTIFY cfg_spotify"
    by (simp add: IS_SPOTIFY_def cfg_spotify_def cfg_plain_def)
  have h: "r_blockedEffects (getState cfg_spotify world0 ?s)"
    using sp by (simp add: getState_fields mark_inUse)
  have b: "binds cfg_spotify elem_both ?s"
    using sp
    by (simp add: binds_def cfg_spotify_def cfg_plain_def elem_both_def page_init_def
        made_source_eq)
  from capability_sticky [of cfg_spotify world0 ?s world1
      "[(world1, Play elem_both), (world0, Message (SetVolumeMsg (num 700)))]" elem_both 3] h b sp
  show ?thesis
    by simp
qed

section \<open>What a \<open>getState\<close> message does\<close>

text \<open>
  Claim C10, as stated, fails for the message handler: on a freshly loaded script
  the \<open>getState\<close> message starts the controller, which installs the observer and
  binds the media element of the document into the bus.
\<close>

theorem getState_message_starts_controller:
  "bus_inputs (bus (page_init cfg_plain)) = []
   \<and> \<not> observer (ctl (page_init cfg_plain))
   \<and> \<not> started (ctl (page_init cfg_plain))
   \<and> bus_inputs (bus (fst (onMessage cfg_plain world1 GetState (page_init cfg_plain)))) =
        [MediaElementSource 1]
   \<and> observer (ctl (fst (onMessage cfg_plain world1 GetState (page_init cfg_plain))))
   \<and> started (ctl (fst (onMessage cfg_plain world1 GetState (page_init cfg_plain))))"
proof -
  have "fst (onMessage cfg_plain world1 GetState (page_init cfg_plain)) = page_after_getState"
    by (simp add: page_after_getState_def run_def Let_def)
  then show ?thesis
    by (simp add: page_after_getState_facts) (simp add: page_init_def)
qed

text \<open>
  Claim C10, amended. The method \<open>getState\<close> only reads: its result is made of the
  stored settings and of the capability computed from the state, and it changes
  nothing. The handler of the \<open>getState\<close> message first starts the controller and then
  answers with the result of the method. On a controller that has started, the handler
  leaves the whole state as it is. So of two \<open>getState\<close> messages in a row, the second
  changes nothing and gets the same answer as the first.
\<close>

theorem getState_message_after_start:
  "fst (onMessage cfg w GetState s) = start cfg w s
   \<and> snd (onMessage cfg w GetState s) = StateResponse (getState cfg w (start cfg w s))
   \<and> (started (ctl s) \<longrightarrow> onMessage cfg w GetState s = (s, StateResponse (getState cfg w s)))
   \<and> onMessage cfg w GetState (fst (onMessage cfg w GetState s)) = onMessage cfg w GetState s
   \<and> r_volume (getState cfg w s) = c_volumePercent (ctl s)
   \<and> r_muted (getState cfg w s) = c_muted (ctl s)
   \<and> r_mode (getState cfg w s) = c_mode (ctl s)
   \<and> r_eq (getState cfg w s) = eqDb (ctl s)
   \<and> r_blockedEffects (getState cfg w s) = (IS_SPOTIFY cfg \<and> inUse (guard s))
   \<and> r_canBoost (getState cfg w s) =
       (\<not> (IS_SPOTIFY cfg \<and> inUse (guard s)) \<and>
        (wired (bus s) \<and> hookedCount (hook s) > 0 \<or> tap_ready s \<or>
         IS_SPOTIFY cfg \<and> spotifyExperimental (ctl s) \<and> engaged s))"
proof -
  have "start cfg w (start cfg w s) = start cfg w s"
    by (rule start_started) (simp add: start_frame)
  then show ?thesis
    by (simp add: Let_def start_started getState_fields)
qed

theorem getState_message_after_start_witness:
  "started (ctl page_after_getState)
   \<and> onMessage cfg_plain world1 GetState page_after_getState =
       (page_after_getState, StateResponse (getState cfg_plain world1 page_after_getState))"
  using getState_message_after_start [of cfg_plain world1 page_after_getState]
    page_after_getState_facts(5)
  by simp

section \<open>Muting\<close>

lemma applyAll_webaudio_gain:
  assumes "\<not> IS_SPOTIFY cfg" and "wired (bus s)" and "hookedCount (hook s) > 0"
  shows "bus_gain (bus (applyAll cfg w s)) =
     (if c_muted (ctl s) then 0 else max 0 (min 800 (c_volumePercent (ctl s))) / 100)"
  using assms
  by (simp add: applyAll_def Let_def bus_setMode_def bus_setEqDb_def setGainLinear_def
      clamp_num)

lemma setMuted_started:
  assumes "started (ctl s)"
  shows "setMuted cfg w m s = applyAll cfg w (s\<lparr>ctl := (ctl s)\<lparr>c_muted := truthy m\<rparr>\<rparr>)"
  using assms by (simp add: setMuted_def start_def)

lemma setMuted_webaudio:
  assumes "\<not> IS_SPOTIFY cfg" and "wired (bus s)" and "hookedCount (hook s) > 0"
    and "started (ctl s)"
  shows "bus_gain (bus (setMuted cfg w m s)) =
     (if truthy m then 0 else max 0 (min 800 (c_volumePercent (ctl s))) / 100)"
    and "c_volumePercent (ctl (setMuted cfg w m s)) = c_volumePercent (ctl s)"
    and "wired (bus (setMuted cfg w m s))"
    and "hookedCount (hook (setMuted cfg w m s)) > 0"
    and "started (ctl (setMuted cfg w m s))"
  using assms
  by (simp_all add: setMuted_started applyAll_webaudio_gain applyAll_frame)

lemma page_at_400_facts:
  "wired (bus page_at_400)" "hookedCount (hook page_at_400) > 0"
  "started (ctl page_at_400)" "c_volumePercent (ctl page_at_400) = 400"
  by (simp_all add: page_at_400_def setVolumePercent_def start_started
      page_after_getState_facts applyAll_frame clamp_num)

text \<open>
  Claim C3. In the page tap (and in the Spotify tap, the same code) a settings message
  with a truthy \<open>muted\<close> leaves the gain of every live chain at 0, whatever the stored
  volume is, and a chain built while muted starts at gain 0. A later message with a
  falsy \<open>muted\<close> that carries no volume keeps the stored volume and puts every live
  chain at the gain of that stored volume, which is the stored percentage divided by
  100. In the page controller of Firefox 1.2, once it has started and drives a wired
  bus with a bound source, \<open>setMuted(true)\<close> puts the gain of the bus at 0 and a
  following \<open>setMuted(false)\<close> puts it at the stored percentage, clamped to [0, 800],
  divided by 100.
\<close>

theorem mute_forces_zero_gain:
  assumes "truthy (p_muted p1)"
    and "\<not> truthy (p_muted p2)"
    and "p_volumePercent p2 = JUndefined" and "p_volume p2 = JUndefined"
  shows "(\<forall>c ch. c \<in> set (seenContexts (onSettings S p1 st)) \<and>
            chains (onSettings S p1 st) c = Some ch \<longrightarrow> gain_value ch = 0)
    \<and> (\<forall>c. chains (onSettings S p1 st) c = None \<longrightarrow>
            gain_value (fst (getChainFor S c (onSettings S p1 st))) = 0)
    \<and> volumePercent (onSettings S p2 (onSettings S p1 st)) = volumePercent (onSettings S p1 st)
    \<and> (\<forall>c ch. c \<in> set (seenContexts (onSettings S p2 (onSettings S p1 st))) \<and>
            chains (onSettings S p2 (onSettings S p1 st)) c = Some ch \<longrightarrow>
            gain_value ch = volumePercent (onSettings S p1 st) / 100)
    \<and> (\<not> IS_SPOTIFY cfg \<and> wired (bus s) \<and> hookedCount (hook s) > 0 \<and> started (ctl s) \<longrightarrow>
         bus_gain (bus (setMuted cfg w (JBool True) s)) = 0 \<and>
         c_volumePercent (ctl (setMuted cfg w (JBool True) s)) = c_volumePercent (ctl s) \<and>
         bus_gain (bus (setMuted cfg w (JBool False) (setMuted cfg w (JBool True) s))) =
           max 0 (min 800 (c_volumePercent (ctl s))) / 100)"
proof -
  let ?st1 = "onSettings S p1 st"
  let ?st2 = "onSettings S p2 ?st1"
  have m1: "muted ?st1" and m2: "\<not> muted ?st2"
    using assms by (simp_all add: onSettings_frame)
  have r: "0 \<le> volumePercent ?st1 \<and> volumePercent ?st1 \<le> 800"
    by (rule volumePercent_onSettings_range)
  have v: "volumePercent ?st2 = volumePercent ?st1"
    using assms(3,4) r by (simp add: onSettings_frame(4) [of S p2] clamp_num)
  have a: "\<forall>c ch. c \<in> set (seenContexts ?st1) \<and> chains ?st1 c = Some ch \<longrightarrow> gain_value ch = 0"
    using onSettings_chain_gain [of _ S p1 st] m1 by auto
  have b: "\<forall>c. chains ?st1 c = None \<longrightarrow> gain_value (fst (getChainFor S c ?st1)) = 0"
    using m1 by (simp add: getChainFor_def gain_value_applySettings Let_def)
  have c: "\<forall>c ch. c \<in> set (seenContexts ?st2) \<and> chains ?st2 c = Some ch \<longrightarrow>
             gain_value ch = volumePercent ?st1 / 100"
    using onSettings_chain_gain [of _ S p2 ?st1] m2 v r by auto
  have d: "\<not> IS_SPOTIFY cfg \<and> wired (bus s) \<and> hookedCount (hook s) > 0 \<and> started (ctl s) \<longrightarrow>
         bus_gain (bus (setMuted cfg w (JBool True) s)) = 0 \<and>
         c_volumePercent (ctl (setMuted cfg w (JBool True) s)) = c_volumePercent (ctl s) \<and>
         bus_gain (bus (setMuted cfg w (JBool False) (setMuted cfg w (JBool True) s))) =
           max 0 (min 800 (c_volumePercent (ctl s))) / 100"
  proof
    assume h: "\<not> IS_SPOTIFY cfg \<and> wired (bus s) \<and> hookedCount (hook s) > 0 \<and> started (ctl s)"
    let ?s1 = "setMuted cfg w (JBool True) s"
    from h have one: "bus_gain (bus ?s1) = 0"
      "c_volumePercent (ctl ?s1) = c_volumePercent (ctl s)"
      "wired (bus ?s1)" "hookedCount (hook ?s1) > 0" "started (ctl ?s1)"
      by (simp_all add: setMuted_webaudio)
    from h one(3-5) have "bus_gain (bus (setMuted cfg w (JBool False) ?s1)) =
        max 0 (min 800 (c_volumePercent (ctl ?s1))) / 100"
      by (simp add: setMuted_webaudio(1))
    with one(1,2) show "bus_gain (bus ?s1) = 0 \<and>
         c_volumePercent (ctl ?s1) = c_volumePercent (ctl s) \<and>
         bus_gain (bus (setMuted cfg w (JBool False) ?s1)) =
           max 0 (min 800 (c_volumePercent (ctl s))) / 100"
      by simp
  qed
  from a b v c d show ?thesis by blast
qed

theorem mute_forces_zero_gain_witness:
  "truthy (p_muted msg_mute_400) \<and> \<not> truthy (p_muted msg_unmute)
   \<and> p_volumePercent msg_unmute = JUndefined \<and> p_volume msg_unmute = JUndefined
   \<and> 0 \<in> set (seenContexts (onSettings (\<lambda>_. NaN) msg_mute_400 tap_one_source))
   \<and> map_option gain_value (chains (onSettings (\<lambda>_. NaN) msg_mute_400 tap_one_source) 0) = Some 0
   \<and> chains (onSettings (\<lambda>_. NaN) msg_mute_400 tap_one_source) 7 = None
   \<and> gain_value (fst (getChainFor (\<lambda>_. NaN) 7 (onSettings (\<lambda>_. NaN) msg_mute_400 tap_one_source))) = 0
   \<and> volumePercent (onSettings (\<lambda>_. NaN) msg_mute_400 tap_one_source) = 400
   \<and> map_option gain_value
        (chains (onSettings (\<lambda>_. NaN) msg_unmute
           (onSettings (\<lambda>_. NaN) msg_mute_400 tap_one_source)) 0) = Some 4
   \<and> \<not> IS_SPOTIFY cfg_plain \<and> wired (bus page_at_400) \<and> hookedCount (hook page_at_400) > 0
   \<and> started (ctl page_at_400) \<and> c_volumePercent (ctl page_at_400) = 400
   \<and> bus_gain (bus (setMuted cfg_plain world1 (JBool True) page_at_400)) = 0
   \<and> bus_gain (bus (setMuted cfg_plain world1 (JBool False)
        (setMuted cfg_plain world1 (JBool True) page_at_400))) = 4"
proof -
  let ?S = "\<lambda>_::string. NaN"
  let ?st1 = "onSettings ?S msg_mute_400 tap_one_source"
  let ?st2 = "onSettings ?S msg_unmute ?st1"
  have h: "truthy (p_muted msg_mute_400)" "\<not> truthy (p_muted msg_unmute)"
    "p_volumePercent msg_unmute = JUndefined" "p_volume msg_unmute = JUndefined"
    by (simp_all add: msg_mute_400_def msg_unmute_def)
  have s: "seenContexts ?st1 = [0]" "seenContexts ?st2 = [0]"
    by (simp_all add: onSettings_frame tap_one_source_eq)
  have v: "volumePercent ?st1 = 400"
    by (simp add: onSettings_frame tap_one_source_eq msg_mute_400_def clamp_num)
  have n: "chains ?st1 7 = None"
    by (simp add: onSettings_def Let_def applyToSeen_None storeSettings_def tap_one_source_eq)
  obtain ch1 where c1: "chains ?st1 0 = Some ch1"
    using applyToSeen_None [of ?S _ _ _ 0]
    by (fastforce simp add: onSettings_def Let_def storeSettings_def tap_one_source_eq)
  obtain ch2 where c2: "chains ?st2 0 = Some ch2"
    using applyToSeen_None [of ?S _ _ _ 0] c1
    by (fastforce simp add: onSettings_def [of ?S msg_unmute] Let_def storeSettings_def)
  have np: "\<not> IS_SPOTIFY cfg_plain"
    by (simp add: IS_SPOTIFY_def cfg_plain_def)
  from mute_forces_zero_gain [OF h, of ?S tap_one_source cfg_plain page_at_400 world1]
    s v n c1 c2 np page_at_400_facts
  show ?thesis
    using h by simp
qed

section \<open>Properties of the equaliser setters\<close>

lemma set_bands_finite:
  assumes "\<And>i. i < length nodes \<Longrightarrow> isFinite (f (k + i))"
  shows "snd (set_bands f k nodes) \<and> length (fst (set_bands f k nodes)) = length nodes \<and>
    (\<forall>i<length nodes. f (k + i) = Fin (fst (set_bands f k nodes) ! i))"
  using assms
proof (induction nodes arbitrary: k)
  case Nil
  then show ?case by simp
next
  case (Cons g gs)
  from Cons.prems [of 0] obtain x where x: "f k = Fin x"
    by (cases "f k") simp_all
  have "\<And>i. i < length gs \<Longrightarrow> isFinite (f (Suc k + i))"
    using Cons.prems [of "Suc i" for i] by simp
  from Cons.IH [OF this] x show ?case
    by (auto simp add: split_def Let_def nth_Cons split: nat.splits)
qed

lemma length_currentEq_tab_setEqGains [simp]:
  "length (currentEq (fst (tab_setEqGains g t))) = 10"
  by (simp add: tab_setEqGains_def Let_def split_def)

lemma currentEq_tab_setEqGains:
  "currentEq (fst (tab_setEqGains g t)) = slice_pad10 (case g of Some a \<Rightarrow> a | None \<Rightarrow> [])"
  by (simp add: tab_setEqGains_def Let_def split_def)

lemma length_currentEq_tab_run:
  "length (currentEq t) = 10 \<Longrightarrow> length (currentEq (tab_run gs t)) = 10"
  unfolding tab_run_def
  by (induction gs arbitrary: t) simp_all

lemma tab_setEqGains_applied:
  assumes live: "audioCtx t" and n: "length (eqNodes t) = 10"
    and fin: "\<And>i. i < 10 \<Longrightarrow> isFinite (band_gain (slice_pad10 a) i)"
  shows "snd (tab_setEqGains (Some a) t) \<and>
    (\<forall>i<10. band_gain (slice_pad10 a) i = Fin (eqNodes (fst (tab_setEqGains (Some a) t)) ! i))"
proof -
  have ne: "eqNodes t \<noteq> []"
    using n by auto
  from set_bands_finite [of "eqNodes t" "band_gain (slice_pad10 a)" 0] fin n
  show ?thesis
    using live ne by (simp add: tab_setEqGains_def tab_applyEqFilters_def Let_def split_def)
qed

lemma stored_eq_range:
  "i < 10 \<Longrightarrow> - 24 \<le> stored_eq S arr ! i \<and> stored_eq S arr ! i \<le> 24"
  using clamp_bounds [of "- 24" 24 S]
  by (simp add: stored_eq_def)

lemma stored_eq_Some:
  "stored_eq S (Some a) =
     map (\<lambda>v. clamp S v (- 24) 24) (take 10 a) @ replicate (10 - length a) 0"
  by (simp add: stored_eq_def slice_pad10_def Let_def clamp_num)

lemma slice_pad10_eq: "slice_pad10 a = take 10 a @ replicate (10 - length a) (num 0)"
  by (simp add: slice_pad10_def Let_def)

lemma eq_gains_applySettings:
  assumes "length (eq st) = 10" and "length (eq_gains ch) = 10"
    and "\<And>i. i < 10 \<Longrightarrow> - 24 \<le> eq st ! i \<and> eq st ! i \<le> 24"
  shows "eq_gains (applySettings S st ch) = eq st"
proof (rule nth_equalityI)
  show "length (eq_gains (applySettings S st ch)) = length (eq st)"
    using assms(1,2) by (simp add: length_eq_gains_applySettings)
next
  fix i
  assume "i < length (eq_gains (applySettings S st ch))"
  then have i: "i < 10"
    using assms(2) by (simp add: length_eq_gains_applySettings)
  with assms(3) [OF i] assms(1,2) show "eq_gains (applySettings S st ch) ! i = eq st ! i"
    by (simp add: applySettings_def applyMode_def Let_def at_index_def clamp_num)
qed

lemma onSettings_chain_eq:
  assumes inv: "eq_inv st"
    and c: "c \<in> set (seenContexts (onSettings S (p\<lparr>p_eq := Some a\<rparr>) st))"
    and ch: "chains (onSettings S (p\<lparr>p_eq := Some a\<rparr>) st) c = Some ch"
  shows "eq_gains ch = stored_eq S (Some a)"
proof -
  let ?p = "p\<lparr>p_eq := Some a\<rparr>"
  let ?st1 = "storeSettings S ?p st"
  have e: "eq ?st1 = stored_eq S (Some a)"
    by (simp add: eq_storeSettings)
  from c ch have "c \<in> set (seenContexts ?st1)"
    and "applyToSeen S ?st1 (seenContexts ?st1) (chains ?st1) c = Some ch"
    by (simp_all add: onSettings_def Let_def)
  then obtain ch0 where ch0: "ch = applySettings S ?st1 ch0"
    using applyToSeen_in by blast
  have "eq_inv (onSettings S ?p st)"
    using inv by (rule eq_inv_onSettings)
  with ch have "length (eq_gains ch) = 10"
    by (auto simp add: eq_inv_def split: option.splits dest: spec [of _ c])
  then have l: "length (eq_gains ch0) = 10"
    by (simp add: ch0 length_eq_gains_applySettings)
  have "eq_gains (applySettings S ?st1 ch0) = eq ?st1"
    by (rule eq_gains_applySettings) (simp_all add: e l stored_eq_range)
  then show ?thesis
    by (simp add: ch0 e)
qed

lemma getChainFor_new_eq:
  assumes "eq_inv st" and "chains st c = None"
    and "\<And>i. i < 10 \<Longrightarrow> - 24 \<le> eq st ! i \<and> eq st ! i \<le> 24"
  shows "eq_gains (fst (getChainFor S c st)) = eq st"
proof -
  have "eq_gains (applySettings S st buildChain) = eq st"
    using assms(1,3) by (intro eq_gains_applySettings) (simp_all add: eq_inv_def buildChain_def)
  then show ?thesis
    using assms(2) by (simp add: getChainFor_def Let_def)
qed

lemma bus_eq_bus_setEqDb:
  assumes "wired b" and "length (bus_eq b) = 10" and "length xs = 10"
    and "\<And>i. i < 10 \<Longrightarrow> - 24 \<le> xs ! i \<and> xs ! i \<le> 24"
  shows "bus_eq (bus_setEqDb S xs b) = xs"
proof (rule nth_equalityI)
  show "length (bus_eq (bus_setEqDb S xs b)) = length xs"
    using assms(2,3) by (simp add: bus_setters_frame)
next
  fix i
  assume "i < length (bus_eq (bus_setEqDb S xs b))"
  then have i: "i < 10"
    using assms(2) by (simp add: bus_setters_frame)
  with assms(4) [OF i] assms(1,2,3) show "bus_eq (bus_setEqDb S xs b) ! i = xs ! i"
    by (simp add: bus_setEqDb_def at_index_def clamp_def)
qed

lemma applyAll_webaudio_eq:
  assumes "\<not> IS_SPOTIFY cfg" and "wired (bus s)" and "hookedCount (hook s) > 0"
    and "length (bus_eq (bus s)) = 10" and "length (eqDb (ctl s)) = 10"
    and "\<And>i. i < 10 \<Longrightarrow> - 24 \<le> eqDb (ctl s) ! i \<and> eqDb (ctl s) ! i \<le> 24"
  shows "bus_eq (bus (applyAll cfg w s)) = eqDb (ctl s)"
proof -
  let ?b = "setGainLinear (to_num cfg)
      (if c_muted (ctl s) then 0 else clamp (to_num cfg) (num (c_volumePercent (ctl s))) 0 800 / 100)
      (bus s)"
  have "bus_eq (bus_setEqDb (to_num cfg) (eqDb (ctl s)) ?b) = eqDb (ctl s)"
    using assms by (intro bus_eq_bus_setEqDb) (simp_all add: bus_setters_frame)
  then show ?thesis
    using assms(1,2,3) by (simp add: applyAll_def Let_def bus_setMode_def)
qed

lemma setEqDb_webaudio_eq:
  assumes inv: "page_eq_inv s" and sp: "\<not> IS_SPOTIFY cfg"
    and w: "wired (bus (setEqDb cfg w arr s))"
    and h: "hookedCount (hook (setEqDb cfg w arr s)) > 0"
  shows "bus_eq (bus (setEqDb cfg w arr s)) = stored_eq (to_num cfg) arr"
proof -
  let ?s1 = "start cfg w (s\<lparr>ctl := (ctl s)\<lparr>eqDb := stored_eq (to_num cfg) arr\<rparr>\<rparr>)"
  have e: "eqDb (ctl ?s1) = stored_eq (to_num cfg) arr"
    by (simp add: start_frame)
  have i: "page_eq_inv ?s1"
    using inv by (intro page_eq_inv_start page_eq_inv_ctl) simp_all
  have w1: "wired (bus ?s1)" and h1: "hookedCount (hook ?s1) > 0"
    using w h by (simp_all add: setEqDb_def applyAll_frame)
  have l: "length (bus_eq (bus ?s1)) = 10"
    using i w1 by (simp add: page_eq_inv_def)
  have "bus_eq (bus (applyAll cfg w ?s1)) = eqDb (ctl ?s1)"
    using sp w1 h1 l by (rule applyAll_webaudio_eq) (simp_all add: e stored_eq_range)
  then show ?thesis
    by (simp add: setEqDb_def e)
qed

text \<open>
  What the setters do with entries that convert to finite numbers. The setters of the
  page tap (and of the Spotify tap, the same code) and of the page controller cut or
  pad their array to ten entries and store each band independently: every stored band
  lies in [-24, 24]; an entry that converts to a finite number is stored as that number
  clamped to [-24, 24]; a missing entry is stored as 0. The setter of the tab-capture
  engine cuts or pads to ten entries and stores the entries as they are; on a live
  graph of ten bands, when no entry is a number that is not finite, it returns and each
  band gets its entry if that is a number and 0 otherwise.
\<close>

lemma eq_setters_finite_entries:
  "length (stored_eq S arr) = 10
   \<and> (\<forall>i<10. - 24 \<le> stored_eq S arr ! i \<and> stored_eq S arr ! i \<le> 24)
   \<and> (\<forall>i x. i < 10 \<and> i < length a \<and> Number S (a ! i) = Fin x \<longrightarrow>
        stored_eq S (Some a) ! i = max (- 24) (min 24 x))
   \<and> (\<forall>i. i < 10 \<and> length a \<le> i \<longrightarrow> stored_eq S (Some a) ! i = 0)
   \<and> (audioCtx t \<and> length (eqNodes t) = 10 \<and>
        (\<forall>i<10. isFinite (band_gain (slice_pad10 a) i)) \<longrightarrow>
        snd (tab_setEqGains (Some a) t) \<and>
        (\<forall>i<10. eqNodes (fst (tab_setEqGains (Some a) t)) ! i =
           (case js_index (slice_pad10 a) i of JNum (Fin x) \<Rightarrow> x | _ \<Rightarrow> 0)))"
proof -
  have tab: "snd (tab_setEqGains (Some a) t) \<and>
        (\<forall>i<10. eqNodes (fst (tab_setEqGains (Some a) t)) ! i =
           (case js_index (slice_pad10 a) i of JNum (Fin x) \<Rightarrow> x | _ \<Rightarrow> 0))"
    if h: "audioCtx t \<and> length (eqNodes t) = 10 \<and>
        (\<forall>i<10. isFinite (band_gain (slice_pad10 a) i))"
  proof -
    from h tab_setEqGains_applied [of t a]
    have r: "snd (tab_setEqGains (Some a) t)"
      and v: "\<And>i. i < 10 \<Longrightarrow>
        band_gain (slice_pad10 a) i = Fin (eqNodes (fst (tab_setEqGains (Some a) t)) ! i)"
      by simp_all
    have "eqNodes (fst (tab_setEqGains (Some a) t)) ! i =
        (case js_index (slice_pad10 a) i of JNum (Fin x) \<Rightarrow> x | _ \<Rightarrow> 0)" if "i < 10" for i
      using v [OF that] by (auto simp add: band_gain_def split: jsval.splits jsnum.splits)
    with r show ?thesis by simp
  qed
  have fin: "\<forall>i x. i < 10 \<and> i < length a \<and> Number S (a ! i) = Fin x \<longrightarrow>
        stored_eq S (Some a) ! i = max (- 24) (min 24 x)"
    by (simp add: nth_stored_eq)
  have missing: "\<forall>i. i < 10 \<and> length a \<le> i \<longrightarrow> stored_eq S (Some a) ! i = 0"
    by (simp add: nth_stored_eq)
  have range: "\<forall>i<10. - 24 \<le> stored_eq S arr ! i \<and> stored_eq S arr ! i \<le> 24"
    by (simp add: stored_eq_range)
  from tab fin missing range show ?thesis
    by simp
qed

text \<open>
  Claim C4 does not hold in the code. The settings handler of the page tap clamps a
  number, so 30 is stored as 24, but an entry that is not a finite number (a string
  that is no numeral, \<open>undefined\<close>, NaN, an infinity) is stored as -24 dB, the lower bound
  that \<open>clamp\<close> returns for it, not as 0 dB. The setter of the tab-capture engine does
  not clamp: 30 is stored, and applied to the band, as 30. On a live graph the engine
  throws on an entry that is NaN: the bands before it have been set, the band itself
  and the bands after it are left as they were, and the call does not return.
\<close>

theorem eq_setters_bad_band:
  "eq (storeSettings (\<lambda>_. NaN)
        (msg_eq [JStr ''x'', JUndefined, JNum NaN, JNum PosInf, num 30,
                 num 0, num 0, num 0, num 0, num 0]) tap_init) =
     [- 24, - 24, - 24, - 24, 24, 0, 0, 0, 0, 0]
   \<and> currentEq (fst (tab_setEqGains
        (Some [num 30, num 0, num 0, num 0, num 0, num 0, num 0, num 0, num 0, num 0])
        tab_live)) =
     [num 30, num 0, num 0, num 0, num 0, num 0, num 0, num 0, num 0, num 0]
   \<and> eqNodes (fst (tab_setEqGains
        (Some [num 30, num 0, num 0, num 0, num 0, num 0, num 0, num 0, num 0, num 0])
        tab_live)) =
     [30, 0, 0, 0, 0, 0, 0, 0, 0, 0]
   \<and> \<not> snd (tab_setEqGains
        (Some [num 5, JNum NaN, num 7, num 0, num 0, num 0, num 0, num 0, num 0, num 0])
        tab_live)
   \<and> eqNodes (fst (tab_setEqGains
        (Some [num 5, JNum NaN, num 7, num 0, num 0, num 0, num 0, num 0, num 0, num 0])
        tab_live)) =
     [5, 0, 0, 0, 0, 0, 0, 0, 0, 0]"
  by (simp add: storeSettings_def msg_eq_def tap_init_def slice_pad10_def clamp_def
      tab_setEqGains_def tab_applyEqFilters_def tab_live_def band_gain_def js_index_def
      Let_def numeral_eq_Suc)

theorem eq_setters_bad_band_witness:
  "eq (storeSettings (\<lambda>_. NaN)
        (msg_eq [JStr ''x'', JUndefined, JNum NaN, JNum PosInf, num 30,
                 num 0, num 0, num 0, num 0, num 0]) tap_init) ! 0 = - 24
   \<and> \<not> snd (tab_setEqGains
        (Some [num 5, JNum NaN, num 7, num 0, num 0, num 0, num 0, num 0, num 0, num 0])
        tab_live)"
proof -
  note b = eq_setters_bad_band
  from b have "eq (storeSettings (\<lambda>_. NaN)
        (msg_eq [JStr ''x'', JUndefined, JNum NaN, JNum PosInf, num 30,
                 num 0, num 0, num 0, num 0, num 0]) tap_init) =
     [- 24, - 24, - 24, - 24, 24, 0, 0, 0, 0, 0]"
    by (rule conjunct1)
  then have "eq (storeSettings (\<lambda>_. NaN)
        (msg_eq [JStr ''x'', JUndefined, JNum NaN, JNum PosInf, num 30,
                 num 0, num 0, num 0, num 0, num 0]) tap_init) ! 0 = - 24"
    by simp
  moreover from b have "\<not> snd (tab_setEqGains
        (Some [num 5, JNum NaN, num 7, num 0, num 0, num 0, num 0, num 0, num 0, num 0])
        tab_live)"
    by blast
  ultimately show ?thesis
    by (rule conjI)
qed

text \<open>
  Claim C9. Every setter stores a vector of exactly ten entries, whatever it is given:
  the first ten entries of its array, each clamped (the engine stores them as they
  are), followed by zeros when the array has fewer than ten; what is not an array
  gives ten zeros in the controller and the engine, and leaves the stored vector alone
  in the tap. After any sequence of events, starting from the script as loaded, the
  stored vector has ten entries and so has the vector of band gains of every chain: in
  the page tap, in the Spotify tap, in the page controller with its bus, and in the
  engine of the tab capture. The vector that a setter applies is the one it has stored:
  after a settings message every chain of a context the tap has seen carries the stored
  vector as its band gains, and after \<open>setEqDb\<close> a bus that is wired and has a bound
  source carries the stored vector.
\<close>

theorem eq_vector_always_ten:
  "length (stored_eq S arr) = 10
   \<and> length (eq (storeSettings S (p\<lparr>p_eq := Some a\<rparr>) st)) = 10
   \<and> length (eqDb (ctl (setEqDb cfg w arr s))) = 10
   \<and> length (currentEq (fst (tab_setEqGains arr t))) = 10
   \<and> length (eq (tap_run S H evs tap_init)) = 10
   \<and> (case chains (tap_run S H evs tap_init) c of
         None \<Rightarrow> True | Some ch \<Rightarrow> length (eq_gains ch) = 10)
   \<and> length (eq (spotify_tap_run S H evs tap_init)) = 10
   \<and> (case chains (spotify_tap_run S H evs tap_init) c of
         None \<Rightarrow> True | Some ch \<Rightarrow> length (eq_gains ch) = 10)
   \<and> length (eqDb (ctl (run cfg pevs (page_init cfg)))) = 10
   \<and> length (eq (sp_tap (run cfg pevs (page_init cfg)))) = 10
   \<and> (case chains (sp_tap (run cfg pevs (page_init cfg))) c of
         None \<Rightarrow> True | Some ch \<Rightarrow> length (eq_gains ch) = 10)
   \<and> (if wired (bus (run cfg pevs (page_init cfg)))
       then length (bus_eq (bus (run cfg pevs (page_init cfg)))) = 10 else True)
   \<and> length (currentEq (tab_run gs tab_init)) = 10
   \<and> stored_eq S (Some a) =
        map (\<lambda>v. clamp S v (- 24) 24) (take 10 a) @ replicate (10 - length a) 0
   \<and> stored_eq S None = replicate 10 0
   \<and> eq (storeSettings S (p\<lparr>p_eq := Some a\<rparr>) st) = stored_eq S (Some a)
   \<and> eq (onSettings S (p\<lparr>p_eq := Some a\<rparr>) st) = stored_eq S (Some a)
   \<and> eq (onSettings S (p\<lparr>p_eq := None\<rparr>) st) = eq st
   \<and> eqDb (ctl (setEqDb cfg w arr s)) = stored_eq (to_num cfg) arr
   \<and> currentEq (fst (tab_setEqGains (Some a) t)) =
        take 10 a @ replicate (10 - length a) (num 0)
   \<and> currentEq (fst (tab_setEqGains None t)) = replicate 10 (num 0)
   \<and> (\<forall>x ch. x \<in> set (seenContexts
                  (onSettings S (p\<lparr>p_eq := Some a\<rparr>) (tap_run S H evs tap_init))) \<and>
              chains (onSettings S (p\<lparr>p_eq := Some a\<rparr>) (tap_run S H evs tap_init)) x =
                Some ch \<longrightarrow>
              eq_gains ch = stored_eq S (Some a))
   \<and> (\<forall>x ch. x \<in> set (seenContexts
                  (onSettings S (p\<lparr>p_eq := Some a\<rparr>) (spotify_tap_run S H evs tap_init))) \<and>
              chains (onSettings S (p\<lparr>p_eq := Some a\<rparr>) (spotify_tap_run S H evs tap_init)) x =
                Some ch \<longrightarrow>
              eq_gains ch = stored_eq S (Some a))
   \<and> (\<not> IS_SPOTIFY cfg \<and>
       wired (bus (setEqDb cfg w arr (run cfg pevs (page_init cfg)))) \<and>
       0 < hookedCount (hook (setEqDb cfg w arr (run cfg pevs (page_init cfg)))) \<longrightarrow>
         bus_eq (bus (setEqDb cfg w arr (run cfg pevs (page_init cfg)))) =
           stored_eq (to_num cfg) arr)"
proof -
  have a: "eq_inv (tap_run S H evs tap_init)" "eq_inv (spotify_tap_run S H evs tap_init)"
    by (simp_all add: eq_inv_tap_run eq_inv_tap_init)
  have b: "page_eq_inv (run cfg pevs (page_init cfg))"
    by (simp add: page_eq_inv_run page_eq_inv_init)
  have c: "length (currentEq (tab_run gs tab_init)) = 10"
    by (rule length_currentEq_tab_run) (simp add: tab_init_def)
  have d: "length (eq (storeSettings S (p\<lparr>p_eq := Some a\<rparr>) st)) = 10"
    by (simp add: eq_storeSettings)
  have lens: "length (stored_eq S arr) = 10
   \<and> length (eq (storeSettings S (p\<lparr>p_eq := Some a\<rparr>) st)) = 10
   \<and> length (eqDb (ctl (setEqDb cfg w arr s))) = 10
   \<and> length (currentEq (fst (tab_setEqGains arr t))) = 10
   \<and> length (eq (tap_run S H evs tap_init)) = 10
   \<and> (case chains (tap_run S H evs tap_init) c of
         None \<Rightarrow> True | Some ch \<Rightarrow> length (eq_gains ch) = 10)
   \<and> length (eq (spotify_tap_run S H evs tap_init)) = 10
   \<and> (case chains (spotify_tap_run S H evs tap_init) c of
         None \<Rightarrow> True | Some ch \<Rightarrow> length (eq_gains ch) = 10)
   \<and> length (eqDb (ctl (run cfg pevs (page_init cfg)))) = 10
   \<and> length (eq (sp_tap (run cfg pevs (page_init cfg)))) = 10
   \<and> (case chains (sp_tap (run cfg pevs (page_init cfg))) c of
         None \<Rightarrow> True | Some ch \<Rightarrow> length (eq_gains ch) = 10)
   \<and> (if wired (bus (run cfg pevs (page_init cfg)))
       then length (bus_eq (bus (run cfg pevs (page_init cfg)))) = 10 else True)
   \<and> length (currentEq (tab_run gs tab_init)) = 10"
    using a b c d by (simp add: eq_inv_def page_eq_inv_def setters_eqDb)
  have stored: "stored_eq S (Some a) =
        map (\<lambda>v. clamp S v (- 24) 24) (take 10 a) @ replicate (10 - length a) 0"
    "stored_eq S None = replicate 10 0"
    "eq (storeSettings S (p\<lparr>p_eq := Some a\<rparr>) st) = stored_eq S (Some a)"
    "eq (onSettings S (p\<lparr>p_eq := Some a\<rparr>) st) = stored_eq S (Some a)"
    "eq (onSettings S (p\<lparr>p_eq := None\<rparr>) st) = eq st"
    "eqDb (ctl (setEqDb cfg w arr s)) = stored_eq (to_num cfg) arr"
    by (simp_all add: stored_eq_Some [symmetric] stored_eq_None eq_onSettings eq_storeSettings
        setters_eqDb)
  have tab: "currentEq (fst (tab_setEqGains (Some a) t)) =
        take 10 a @ replicate (10 - length a) (num 0)"
    "currentEq (fst (tab_setEqGains None t)) = replicate 10 (num 0)"
    by (simp_all add: currentEq_tab_setEqGains slice_pad10_eq)
  have ch1: "\<forall>x ch. x \<in> set (seenContexts
                  (onSettings S (p\<lparr>p_eq := Some a\<rparr>) (tap_run S H evs tap_init))) \<and>
              chains (onSettings S (p\<lparr>p_eq := Some a\<rparr>) (tap_run S H evs tap_init)) x =
                Some ch \<longrightarrow>
              eq_gains ch = stored_eq S (Some a)"
    using onSettings_chain_eq [OF a(1)] by blast
  have ch2: "\<forall>x ch. x \<in> set (seenContexts
                  (onSettings S (p\<lparr>p_eq := Some a\<rparr>) (spotify_tap_run S H evs tap_init))) \<and>
              chains (onSettings S (p\<lparr>p_eq := Some a\<rparr>) (spotify_tap_run S H evs tap_init)) x =
                Some ch \<longrightarrow>
              eq_gains ch = stored_eq S (Some a)"
    using onSettings_chain_eq [OF a(2)] by blast
  have bus: "\<not> IS_SPOTIFY cfg \<and>
       wired (bus (setEqDb cfg w arr (run cfg pevs (page_init cfg)))) \<and>
       0 < hookedCount (hook (setEqDb cfg w arr (run cfg pevs (page_init cfg)))) \<longrightarrow>
         bus_eq (bus (setEqDb cfg w arr (run cfg pevs (page_init cfg)))) =
           stored_eq (to_num cfg) arr"
    using setEqDb_webaudio_eq [OF b] by blast
  show ?thesis
    by (intro conjI lens [THEN conjunct1] stored tab ch1 ch2 bus)
      (use lens in blast)+
qed

theorem eq_vector_always_ten_witness:
  "length (eq (tap_run (\<lambda>_. NaN) (\<lambda>_ _. True)
        [Connect 1 (Some 0) (ToDestination 0), Settings (msg_eq [num 30])] tap_init)) = 10
   \<and> length (currentEq (tab_run [Some [num 30], None] tab_init)) = 10
   \<and> stored_eq (\<lambda>_. NaN)
        (Some [num 1, num 2, num 3, num 4, num 5, num 6, num 7, num 8, num 9, num 10,
               num 11, num 12]) =
      [1, 2, 3, 4, 5, 6, 7, 8, 9, 10]
   \<and> eq (onSettings (\<lambda>_. NaN) (msg_eq [num 30, num (- 30), num 5]) tap_init) =
      [24, - 24, 5, 0, 0, 0, 0, 0, 0, 0]
   \<and> currentEq (fst (tab_setEqGains (Some [num 30, JStr ''x'']) tab_init)) =
      [num 30, JStr ''x'', num 0, num 0, num 0, num 0, num 0, num 0, num 0, num 0]
   \<and> 0 \<in> set (seenContexts (onSettings (\<lambda>_. NaN) (msg_eq [num 30, num (- 30), num 5])
        tap_one_source))
   \<and> map_option eq_gains
        (chains (onSettings (\<lambda>_. NaN) (msg_eq [num 30, num (- 30), num 5]) tap_one_source) 0) =
      Some [24, - 24, 5, 0, 0, 0, 0, 0, 0, 0]
   \<and> \<not> IS_SPOTIFY cfg_plain
   \<and> wired (bus (setEqDb cfg_plain world1 (Some [num 30, num (- 30), num 5])
        page_after_getState))
   \<and> 0 < hookedCount (hook (setEqDb cfg_plain world1 (Some [num 30, num (- 30), num 5])
        page_after_getState))
   \<and> bus_eq (bus (setEqDb cfg_plain world1 (Some [num 30, num (- 30), num 5])
        page_after_getState)) =
      [24, - 24, 5, 0, 0, 0, 0, 0, 0, 0]
   \<and> eqDb (ctl (setEqDb cfg_plain world1 None page_after_getState)) =
      [0, 0, 0, 0, 0, 0, 0, 0, 0, 0]"
proof -
  let ?S = "\<lambda>_ :: string. NaN"
  let ?H = "\<lambda>(_ :: anode) (_ :: target). True"
  let ?a = "[num 30, num (- 30), num 5]"
  let ?b = "[num 1, num 2, num 3, num 4, num 5, num 6, num 7, num 8, num 9, num 10,
               num 11, num 12]"
  let ?st = "onSettings ?S (msg_eq ?a) tap_one_source"
  let ?s = "setEqDb cfg_plain world1 (Some ?a) page_after_getState"
  note t1 = eq_vector_always_ten [where S = ?S and arr = "Some ?a" and p = "msg_eq []"
      and a = ?a and st = tap_init and cfg = cfg_plain and w = world1
      and s = page_after_getState and t = tab_init and H = ?H
      and evs = "[Connect 1 (Some 0) (ToDestination 0)]"
      and c = 0 and pevs = "[(world1, Message GetState)]"
      and gs = "[Some [num 30], None]"]
  note t2 = eq_vector_always_ten [where S = ?S and arr = None and p = "msg_eq []"
      and a = ?b and st = tap_init and cfg = cfg_plain and w = world1
      and s = page_after_getState and t = tab_init and H = ?H
      and evs = "[Connect 1 (Some 0) (ToDestination 0), Settings (msg_eq [num 30])]"
      and c = 0 and pevs = "[]" and gs = "[]"]
  note t3 = eq_vector_always_ten [where S = ?S and arr = None and p = "msg_eq []"
      and a = "[num 30, JStr ''x'']" and st = tap_init and cfg = cfg_plain and w = world1
      and s = page_after_getState and t = tab_init and H = ?H
      and evs = "[]" and c = 0 and pevs = "[]" and gs = "[]"]
  have m: "msg_eq [] \<lparr>p_eq := Some xs\<rparr> = msg_eq xs" for xs
    by (simp add: msg_eq_def)
  have r: "tap_run ?S ?H [Connect 1 (Some 0) (ToDestination 0)] tap_init = tap_one_source"
    "run cfg_plain [(world1, Message GetState)] (page_init cfg_plain) = page_after_getState"
    by (simp_all add: tap_run_def tap_one_source_def page_after_getState_def)
  have n: "to_num cfg_plain = ?S" "\<not> IS_SPOTIFY cfg_plain"
    by (simp_all add: cfg_plain_def IS_SPOTIFY_def)
  have va: "map (\<lambda>v. clamp ?S v (- 24) 24) (take 10 ?a) @ replicate (10 - length ?a) 0 =
      [24, - 24, 5, 0, 0, 0, 0, 0, 0, 0]"
    by (simp add: clamp_num numeral_eq_Suc)
  have vb: "map (\<lambda>v. clamp ?S v (- 24) 24) (take 10 ?b) @ replicate (10 - length ?b) 0 =
      [1, 2, 3, 4, 5, 6, 7, 8, 9, 10]"
    by (simp add: clamp_num numeral_eq_Suc)
  have vc: "take 10 [num 30, JStr ''x''] @ replicate (10 - length [num 30, JStr ''x'']) (num 0) =
      [num 30, JStr ''x'', num 0, num 0, num 0, num 0, num 0, num 0, num 0, num 0]"
    by (simp add: numeral_eq_Suc)
  have vz: "replicate 10 (0 :: real) = [0, 0, 0, 0, 0, 0, 0, 0, 0, 0]"
    by (simp add: numeral_eq_Suc)
  have sa: "stored_eq ?S (Some ?a) = [24, - 24, 5, 0, 0, 0, 0, 0, 0, 0]"
    using t1 va by (simp only:)
  have seen: "0 \<in> set (seenContexts ?st)"
    by (simp add: onSettings_frame tap_one_source_eq)
  have "chains ?st 0 \<noteq> None"
    by (simp add: onSettings_def Let_def applyToSeen_None tap_one_source_eq)
  then obtain ch where ch: "chains ?st 0 = Some ch"
    by auto
  have "eq_gains ch = stored_eq ?S (Some ?a)"
    using t1 seen ch unfolding m r by blast
  with ch sa have chain: "map_option eq_gains (chains ?st 0) = Some [24, - 24, 5, 0, 0, 0, 0, 0, 0, 0]"
    by simp
  have post: "wired (bus ?s)" "0 < hookedCount (hook ?s)"
    by (simp_all add: setEqDb_def start_frame applyAll_frame start_started
        page_after_getState_facts)
  have "bus_eq (bus ?s) = stored_eq (to_num cfg_plain) (Some ?a)"
    using t1 post n(2) unfolding r by blast
  with sa n(1) have busv: "bus_eq (bus ?s) = [24, - 24, 5, 0, 0, 0, 0, 0, 0, 0]"
    by simp
  have l1: "length (eq (tap_run ?S ?H
        [Connect 1 (Some 0) (ToDestination 0), Settings (msg_eq [num 30])] tap_init)) = 10"
    using t2 by blast
  have l2: "length (currentEq (tab_run [Some [num 30], None] tab_init)) = 10"
    using t1 by blast
  have sb: "stored_eq ?S (Some ?b) = [1, 2, 3, 4, 5, 6, 7, 8, 9, 10]"
    using t2 vb by (simp only:)
  have on: "eq (onSettings ?S (msg_eq ?a) tap_init) = [24, - 24, 5, 0, 0, 0, 0, 0, 0, 0]"
    using t1 sa unfolding m by (simp only:)
  have cur: "currentEq (fst (tab_setEqGains (Some [num 30, JStr ''x'']) tab_init)) =
      [num 30, JStr ''x'', num 0, num 0, num 0, num 0, num 0, num 0, num 0, num 0]"
    using t3 vc by (simp only:)
  have "eqDb (ctl (setEqDb cfg_plain world1 None page_after_getState)) =
      stored_eq (to_num cfg_plain) None"
    using t2 by blast
  moreover have "stored_eq (to_num cfg_plain) None = replicate 10 0"
    using t2 unfolding n(1) by blast
  ultimately have z: "eqDb (ctl (setEqDb cfg_plain world1 None page_after_getState)) =
      [0, 0, 0, 0, 0, 0, 0, 0, 0, 0]"
    using vz by simp
  from l1 l2 sb on cur seen chain n(2) post busv z show ?thesis
    by (intro conjI)
qed

end
